(* ===== verification/Prelude.thy ===== *)
theory Prelude
  imports Main
begin

text \<open>
  Shared vocabulary of the development: the C character functions the generator calls
  (in the C locale, which the plugin never changes), the tests of \<open>std::string\<close> it
  relies on, the theorem collections the component theories extend, and an interface for
  machines that are run over a list one element at a time.
\<close>

section \<open>Theorem collections\<close>

named_theorems lex_simps \<open>evaluation of the Kotlin lexer on closed templates\<close>
named_theorems acts_simps \<open>how the analyses of a trace act on its constructors\<close>
named_theorems clean_simps \<open>which characters and strings are harmless in Kotlin code\<close>

section \<open>Characters\<close>

definition islower :: "char \<Rightarrow> bool" where
  "islower c \<longleftrightarrow> 97 \<le> (of_char c :: nat) \<and> (of_char c :: nat) \<le> 122"

definition isupper :: "char \<Rightarrow> bool" where
  "isupper c \<longleftrightarrow> 65 \<le> (of_char c :: nat) \<and> (of_char c :: nat) \<le> 90"

definition toupper :: "char \<Rightarrow> char" where
  "toupper c = (if islower c then char_of ((of_char c :: nat) - 32) else c)"

definition tolower :: "char \<Rightarrow> char" where
  "tolower c = (if isupper c then char_of ((of_char c :: nat) + 32) else c)"

abbreviation underscore :: char where
  "underscore \<equiv> CHR ''_''"

abbreviation newline :: char where
  "newline \<equiv> CHR 0x0A"

lemma of_char_toupper:
  "(of_char (toupper c) :: nat) = (if islower c then of_char c - 32 else of_char c)"
  by (auto simp: toupper_def islower_def)

lemma of_char_tolower:
  "(of_char (tolower c) :: nat) = (if isupper c then of_char c + 32 else of_char c)"
  by (auto simp: tolower_def isupper_def)

lemma not_islower_toupper [simp]: "\<not> islower (toupper c)"
  by (auto simp: islower_def of_char_toupper)

lemma not_isupper_tolower [simp]: "\<not> isupper (tolower c)"
  by (auto simp: isupper_def of_char_tolower)

lemma toupper_idem [simp]: "toupper (toupper c) = toupper c"
  by (simp add: toupper_def [of "toupper c"])

lemma char_eq_iff_of_char: "c = d \<longleftrightarrow> (of_char c :: nat) = of_char d"
  by (metis char_of_char)

lemma toupper_eq_underscore [simp]: "toupper c = underscore \<longleftrightarrow> c = underscore"
  by (auto simp: char_eq_iff_of_char of_char_toupper islower_def)

lemma tolower_eq_underscore [simp]: "tolower c = underscore \<longleftrightarrow> c = underscore"
  by (auto simp: char_eq_iff_of_char of_char_tolower isupper_def)

lemma underscore_eq_case [simp]:
  "underscore = toupper c \<longleftrightarrow> c = underscore" "underscore = tolower c \<longleftrightarrow> c = underscore"
  by (metis toupper_eq_underscore) (metis tolower_eq_underscore)

lemma islower_not_underscore: "islower c \<Longrightarrow> c \<noteq> underscore"
  by (auto simp: islower_def)

lemma isupper_not_underscore: "isupper c \<Longrightarrow> c \<noteq> underscore"
  by (auto simp: isupper_def)

lemma isupper_toupper: "islower c \<Longrightarrow> isupper (toupper c)"
  by (auto simp: isupper_def islower_def of_char_toupper)

lemma islower_tolower: "isupper c \<Longrightarrow> islower (tolower c)"
  by (auto simp: isupper_def islower_def of_char_tolower)

section \<open>Steps that end\<close>

text \<open>
  Steps that use up work: every run is as short as the work it starts with, and can be continued
  until nothing moves.
\<close>

locale draining =
  fixes moves :: "'s \<Rightarrow> 's \<Rightarrow> bool" and remaining :: "'s \<Rightarrow> nat"
  assumes decreases: "moves s t \<Longrightarrow> remaining t < remaining s"
begin

lemma run_bounded: "(moves ^^ n) s t \<Longrightarrow> n + remaining t \<le> remaining s"
proof (induction n arbitrary: t)
  case (Suc n)
  then obtain u where "(moves ^^ n) s u" "moves u t" by auto
  with Suc.IH [of u] decreases [of u t] show ?case by simp
qed simp

lemma run_ends: "\<exists>t. moves\<^sup>*\<^sup>* s t \<and> \<not> (\<exists>u. moves t u)"
proof (induction s rule: measure_induct_rule [of remaining])
  case (less s)
  show ?case
  proof (cases "\<exists>u. moves s u")
    case True
    then obtain u where u: "moves s u" ..
    with less [OF decreases [OF u]] show ?thesis by (meson converse_rtranclp_into_rtranclp)
  qed auto
qed

end

section \<open>Machines run over a list\<close>

text \<open>
  The lexer, the template scanner and the two analyses of the printer's calls are all
  machines that read a list from the left. \<open>list_machine\<close> is what they share: the run
  splits over append, and a loop whose body brings the machine back to where it started
  leaves it there whatever the number of rounds.
\<close>

locale list_machine =
  fixes run :: "'s \<Rightarrow> 'a list \<Rightarrow> 's"
  assumes run_Nil: "run s [] = s"
    and run_Cons: "run s (x # xs) = run (run s [x]) xs"
begin

lemma run_append: "run s (xs @ ys) = run (run s xs) ys"
proof (induction xs arbitrary: s)
  case Nil
  show ?case by (simp add: run_Nil)
next
  case (Cons x xs)
  then show ?case by (metis append_Cons run_Cons)
qed

lemma run_neutral:
  assumes "\<And>x. x \<in> set xs \<Longrightarrow> run s [x] = s"
  shows "run s xs = s"
  using assms
proof (induction xs)
  case Nil
  show ?case by (simp add: run_Nil)
next
  case (Cons x xs)
  then show ?case by (metis list.set_intros run_Cons)
qed

lemma run_loop:
  assumes "\<And>m. m \<in> set ms \<Longrightarrow> run s (body m) = s"
  shows "run s (concat (map body ms)) = s"
  using assms
  by (induction ms) (simp_all add: run_Nil run_append)

lemma run_if: "run s (if b then xs else ys) = (if b then run s xs else run s ys)"
  by simp

lemma run_stuck:
  assumes "\<And>x. run bad [x] = bad"
  shows "run bad xs = bad"
  by (rule run_neutral) (rule assms)

end

section \<open>Sublists that must not occur\<close>

definition has_pair :: "'a \<Rightarrow> 'a \<Rightarrow> 'a list \<Rightarrow> bool" where
  "has_pair a b xs \<longleftrightarrow> (\<exists>us vs. xs = us @ [a, b] @ vs)"

lemma has_pair_Nil [simp]: "\<not> has_pair a b []"
  by (simp add: has_pair_def)

lemma has_pair_Cons [simp]:
  "has_pair a b (x # xs) \<longleftrightarrow> (x = a \<and> xs \<noteq> [] \<and> hd xs = b) \<or> has_pair a b xs"
proof
  assume "has_pair a b (x # xs)"
  then obtain us vs where *: "x # xs = us @ [a, b] @ vs" by (auto simp: has_pair_def)
  then show "(x = a \<and> xs \<noteq> [] \<and> hd xs = b) \<or> has_pair a b xs"
    by (cases us) (auto simp: has_pair_def)
next
  assume "(x = a \<and> xs \<noteq> [] \<and> hd xs = b) \<or> has_pair a b xs"
  then show "has_pair a b (x # xs)"
  proof
    assume "x = a \<and> xs \<noteq> [] \<and> hd xs = b"
    then have "x # xs = [] @ [a, b] @ tl xs" by (cases xs) simp_all
    then show ?thesis unfolding has_pair_def by blast
  next
    assume "has_pair a b xs"
    then obtain us vs where "xs = us @ [a, b] @ vs" by (auto simp: has_pair_def)
    then have "x # xs = (x # us) @ [a, b] @ vs" by simp
    then show ?thesis unfolding has_pair_def by blast
  qed
qed

lemma has_pair_append:
  "has_pair a b (xs @ ys) \<longleftrightarrow>
     has_pair a b xs \<or> has_pair a b ys \<or>
     (xs \<noteq> [] \<and> ys \<noteq> [] \<and> last xs = a \<and> hd ys = b)"
  by (induction xs) auto

end
