(* ===== verification/MethodOptions.thy ===== *)
theory MethodOptions
  imports Prelude "HOL-Library.Word"
begin

text \<open>
  The options message of \<open>rsocket/options.pb.h\<close> and \<open>rsocket/options.pb.cc\<close>: construction,
  accessors, clearing, merging, copying, swapping, parsing, serialising and the size. The
  operations on two objects are over a store of objects, because they test for aliasing.
  protobuf's wire library is a parameter.
\<close>

section \<open>The message\<close>

text \<open>
  \<open>internal_metadata\<close> holds the unknown fields, each by its encoding; \<open>cached_size\<close> is the
  \<open>int\<close> of \<open>SetCachedSize\<close>.
\<close>

type_synonym bytes = "8 word list"

record RSocketMethodOptions =
  fire_and_forget_field :: bool
  internal_metadata :: "bytes list"
  cached_size :: "32 word"

definition new_options :: RSocketMethodOptions where
  "new_options = \<lparr>fire_and_forget_field = False, internal_metadata = [], cached_size = 0\<rparr>"

definition copy_options :: "RSocketMethodOptions \<Rightarrow> RSocketMethodOptions" where
  "copy_options other =
     new_options\<lparr>internal_metadata := internal_metadata new_options @ internal_metadata other,
       fire_and_forget_field := fire_and_forget_field other\<rparr>"

definition clear_fire_and_forget :: "RSocketMethodOptions \<Rightarrow> RSocketMethodOptions" where
  "clear_fire_and_forget opts = opts\<lparr>fire_and_forget_field := False\<rparr>"

definition fire_and_forget :: "RSocketMethodOptions \<Rightarrow> bool" where
  "fire_and_forget opts = fire_and_forget_field opts"

definition set_fire_and_forget :: "bool \<Rightarrow> RSocketMethodOptions \<Rightarrow> RSocketMethodOptions" where
  "set_fire_and_forget v opts = opts\<lparr>fire_and_forget_field := v\<rparr>"

definition Clear :: "RSocketMethodOptions \<Rightarrow> RSocketMethodOptions" where
  "Clear opts = opts\<lparr>fire_and_forget_field := False, internal_metadata := []\<rparr>"

section \<open>Operations on two objects\<close>

type_synonym addr = nat
type_synonym store = "addr \<Rightarrow> RSocketMethodOptions"

definition MergeFrom :: "addr \<Rightarrow> addr \<Rightarrow> store \<Rightarrow> store" where
  "MergeFrom this other st =
     (let st1 = st(this := (st this)\<lparr>internal_metadata :=
                 internal_metadata (st this) @ internal_metadata (st other)\<rparr>)
      in if fire_and_forget (st1 other)
         then st1(this := set_fire_and_forget (fire_and_forget (st1 other)) (st1 this))
         else st1)"

definition CopyFrom :: "addr \<Rightarrow> addr \<Rightarrow> store \<Rightarrow> store" where
  "CopyFrom this other st =
     (if other = this then st else MergeFrom this other (st(this := Clear (st this))))"

definition InternalSwap :: "addr \<Rightarrow> addr \<Rightarrow> store \<Rightarrow> store" where
  "InternalSwap this other st =
     (let st1 = st(this := (st this)\<lparr>fire_and_forget_field := fire_and_forget_field (st other)\<rparr>,
                   other := (st other)\<lparr>fire_and_forget_field := fire_and_forget_field (st this)\<rparr>)
      in st1(this := (st1 this)\<lparr>internal_metadata := internal_metadata (st1 other)\<rparr>,
             other := (st1 other)\<lparr>internal_metadata := internal_metadata (st1 this)\<rparr>))"

definition Swap :: "addr \<Rightarrow> addr \<Rightarrow> store \<Rightarrow> store" where
  "Swap this other st = (if other = this then st else InternalSwap this other st)"

section \<open>The wire library\<close>

text \<open>
  What the message calls of protobuf's \<open>CodedInputStream\<close>, \<open>WireFormat\<close> and \<open>WireFormatLite\<close>,
  over streams of bytes. \<open>ReadTag\<close> is \<open>ReadTagWithCutoffNoLastTag\<close>; the two array functions
  append to the bytes before \<open>target\<close>.
\<close>

record wire_lib =
  ReadTag :: "32 word \<Rightarrow> bytes \<Rightarrow> (32 word \<times> bool) \<times> bytes"
  GetTagFieldNumber :: "32 word \<Rightarrow> 32 word"
  ReadBool :: "bytes \<Rightarrow> (bool \<times> bytes) option"
  SkipField :: "bytes \<Rightarrow> 32 word \<Rightarrow> bytes list \<Rightarrow> (bytes list \<times> bytes) option"
  WriteBool :: "nat \<Rightarrow> bool \<Rightarrow> bytes"
  WriteBoolToArray :: "nat \<Rightarrow> bool \<Rightarrow> bytes \<Rightarrow> bytes"
  SerializeUnknownFields :: "bytes list \<Rightarrow> bytes"
  SerializeUnknownFieldsToArray :: "bytes list \<Rightarrow> bytes \<Rightarrow> bytes"
  ComputeUnknownFieldsSize :: "bytes list \<Rightarrow> 64 word"
  GetProto3PreserveUnknownsDefault :: bool

text \<open>
  The parsing loop. The result is what the function returns, with the message (after a failure,
  without what the failing library call may have left in it); \<open>None\<close> is a loop that does not end.
\<close>

partial_function (option) MergePartialFromCodedStream ::
  "wire_lib \<Rightarrow> bytes \<Rightarrow> RSocketMethodOptions \<Rightarrow> (bool \<times> RSocketMethodOptions) option" where
  "MergePartialFromCodedStream lib input opts =
     (case ReadTag lib 127 input of ((tag, ok), rest) \<Rightarrow>
        if ok \<and> GetTagFieldNumber lib tag = 1 \<and> ucast tag = (8 :: 8 word)
        then (case ReadBool lib rest of
                None \<Rightarrow> Some (False, opts)
              | Some (b, rest') \<Rightarrow>
                  MergePartialFromCodedStream lib rest' (opts\<lparr>fire_and_forget_field := b\<rparr>))
        else if tag = 0 then Some (True, opts)
        else (case SkipField lib rest tag (internal_metadata opts) of
                None \<Rightarrow> Some (False, opts)
              | Some (unknown, rest') \<Rightarrow>
                  MergePartialFromCodedStream lib rest' (opts\<lparr>internal_metadata := unknown\<rparr>)))"

definition SerializeWithCachedSizes :: "wire_lib \<Rightarrow> RSocketMethodOptions \<Rightarrow> bytes" where
  "SerializeWithCachedSizes lib opts =
     (if fire_and_forget opts then WriteBool lib 1 (fire_and_forget opts) else [])
     @ (if internal_metadata opts \<noteq> [] \<and> GetProto3PreserveUnknownsDefault lib
        then SerializeUnknownFields lib (internal_metadata opts) else [])"

definition InternalSerializeWithCachedSizesToArray ::
  "wire_lib \<Rightarrow> RSocketMethodOptions \<Rightarrow> bytes \<Rightarrow> bytes" where
  "InternalSerializeWithCachedSizesToArray lib opts target =
     (let target = (if fire_and_forget opts
                    then WriteBoolToArray lib 1 (fire_and_forget opts) target else target)
      in if internal_metadata opts \<noteq> [] \<and> GetProto3PreserveUnknownsDefault lib
         then SerializeUnknownFieldsToArray lib (internal_metadata opts) target else target)"

text \<open>The size, and the message with the size cached (an \<open>int\<close>: the low half of the size).\<close>

definition ByteSizeLong :: "wire_lib \<Rightarrow> RSocketMethodOptions \<Rightarrow> 64 word \<times> RSocketMethodOptions" where
  "ByteSizeLong lib opts =
     (let total_size = 0;
          total_size = (if internal_metadata opts \<noteq> [] \<and> GetProto3PreserveUnknownsDefault lib
                        then total_size + ComputeUnknownFieldsSize lib (internal_metadata opts)
                        else total_size);
          total_size = (if fire_and_forget opts then total_size + (1 + 1) else total_size)
      in (total_size, opts\<lparr>cached_size := ucast total_size\<rparr>))"

section \<open>Documented behaviour of the library\<close>

text \<open>
  A bool field is read back as it was written, the end of the stream is tag 0, unknown
  fields are written one after the other, and skipping an unknown field (of the encodings in
  \<open>field\<close>) appends it to the unknown fields.
\<close>

definition reads_back :: "wire_lib \<Rightarrow> (bytes \<Rightarrow> bool) \<Rightarrow> bool" where
  "reads_back lib field \<longleftrightarrow>
     GetTagFieldNumber lib 8 = 1 \<and>
     (\<forall>b rest. \<exists>body. ReadTag lib 127 (WriteBool lib 1 b @ rest) = ((8, True), body)
        \<and> ReadBool lib body = Some (b, rest)) \<and>
     (\<exists>rest. ReadTag lib 127 [] = ((0, False), rest)) \<and>
     (\<forall>u. SerializeUnknownFields lib u = concat u) \<and>
     (\<forall>f rest u. field f \<longrightarrow> (\<exists>tag ok body. ReadTag lib 127 (f @ rest) = ((tag, ok), body)
        \<and> tag \<noteq> 0 \<and> \<not> (ok \<and> GetTagFieldNumber lib tag = 1 \<and> ucast tag = (8 :: 8 word))
        \<and> SkipField lib body tag u = Some (u @ [f], rest)))"

text \<open>Reading a tag other than 0 consumes input, reading or skipping a field gives none back.\<close>

definition consumes :: "wire_lib \<Rightarrow> bool" where
  "consumes lib \<longleftrightarrow>
     (\<forall>input tag ok rest. ReadTag lib 127 input = ((tag, ok), rest) \<and> tag \<noteq> 0 \<longrightarrow>
        length rest < length input) \<and>
     (\<forall>input b rest. ReadBool lib input = Some (b, rest) \<longrightarrow> length rest \<le> length input) \<and>
     (\<forall>input tag u u' rest. SkipField lib input tag u = Some (u', rest) \<longrightarrow>
        length rest \<le> length input)"

text \<open>The array functions write the same bytes, and sizes are sizes of what is written.\<close>

definition sizes_agree :: "wire_lib \<Rightarrow> bool" where
  "sizes_agree lib \<longleftrightarrow>
     (\<forall>b. length (WriteBool lib 1 b) = 2) \<and>
     (\<forall>u. ComputeUnknownFieldsSize lib u = word_of_nat (length (SerializeUnknownFields lib u)))"

definition arrays_agree :: "wire_lib \<Rightarrow> bool" where
  "arrays_agree lib \<longleftrightarrow>
     (\<forall>n b t. WriteBoolToArray lib n b t = t @ WriteBool lib n b) \<and>
     (\<forall>u t. SerializeUnknownFieldsToArray lib u t = t @ SerializeUnknownFields lib u)"

text \<open>
  A concrete library for fields of one tag byte and one byte of payload, on which the
  hypotheses are shown to hold.
\<close>

definition byte_lib :: wire_lib where
  "byte_lib =
     \<lparr>ReadTag = (\<lambda>cutoff input. case input of
         [] \<Rightarrow> ((0, False), []) | t # rest \<Rightarrow> ((ucast t, t \<noteq> 0 \<and> ucast t \<le> cutoff), rest)),
      GetTagFieldNumber = drop_bit 3,
      ReadBool = (\<lambda>input. case input of [] \<Rightarrow> None | b # rest \<Rightarrow> Some (b \<noteq> 0, rest)),
      SkipField = (\<lambda>input tag u. case input of
         [] \<Rightarrow> None | b # rest \<Rightarrow> Some (u @ [[ucast tag, b]], rest)),
      WriteBool = (\<lambda>n b. [word_of_nat (8 * n), if b then 1 else 0]),
      WriteBoolToArray = (\<lambda>n b t. t @ [word_of_nat (8 * n), if b then 1 else 0]),
      SerializeUnknownFields = concat,
      SerializeUnknownFieldsToArray = (\<lambda>u t. t @ concat u),
      ComputeUnknownFieldsSize = (\<lambda>u. word_of_nat (length (concat u))),
      GetProto3PreserveUnknownsDefault = True\<rparr>"

definition byte_field :: "bytes \<Rightarrow> bool" where
  "byte_field f \<longleftrightarrow> length f = 2 \<and> hd f \<noteq> 0 \<and> hd f \<noteq> 8"

lemma ucast_back: "ucast (ucast t :: 32 word) = (t :: 8 word)"
  by transfer simp

lemma ucast_eq_0: "(ucast (t :: 8 word) :: 32 word) = 0 \<longleftrightarrow> t = 0"
  using ucast_back [of t] by (metis ucast_0)

lemma byte_lib_reads_back: "reads_back byte_lib byte_field"
  unfolding reads_back_def
proof (intro conjI allI impI)
  show "GetTagFieldNumber byte_lib 8 = 1" by (simp add: byte_lib_def drop_bit_eq_div)
  show "\<exists>body. ReadTag byte_lib 127 (WriteBool byte_lib 1 b @ rest) = ((8, True), body) \<and>
      ReadBool byte_lib body = Some (b, rest)" for b rest
    by (simp add: byte_lib_def)
  show "\<exists>rest. ReadTag byte_lib 127 [] = ((0, False), rest)" by (simp add: byte_lib_def)
  show "SerializeUnknownFields byte_lib u = concat u" for u by (simp add: byte_lib_def)
  show "\<exists>tag ok body. ReadTag byte_lib 127 (f @ rest) = ((tag, ok), body) \<and> tag \<noteq> 0 \<and>
      \<not> (ok \<and> GetTagFieldNumber byte_lib tag = 1 \<and> ucast tag = (8 :: 8 word)) \<and>
      SkipField byte_lib body tag u = Some (u @ [f], rest)" if "byte_field f" for f rest u
  proof -
    have "length f = Suc (Suc 0)" using that by (simp add: byte_field_def)
    then obtain t b where f: "f = [t, b]" by (auto simp: length_Suc_conv)
    then have "t \<noteq> 0" "t \<noteq> 8" using that by (simp_all add: byte_field_def)
    with f show ?thesis by (simp add: byte_lib_def ucast_back ucast_eq_0)
  qed
qed

lemma byte_lib_consumes: "consumes byte_lib"
  by (auto simp: consumes_def byte_lib_def split: list.splits)

lemma byte_lib_sizes: "sizes_agree byte_lib" "arrays_agree byte_lib"
  by (simp_all add: sizes_agree_def arrays_agree_def byte_lib_def)

section \<open>Parsing\<close>

lemmas parse_unfold = MergePartialFromCodedStream.simps

lemma parse_bool:
  assumes "reads_back lib field"
  shows "MergePartialFromCodedStream lib (WriteBool lib 1 b @ rest) opts =
    MergePartialFromCodedStream lib rest (opts\<lparr>fire_and_forget_field := b\<rparr>)"
proof -
  obtain body where "ReadTag lib 127 (WriteBool lib 1 b @ rest) = ((8, True), body)"
    "ReadBool lib body = Some (b, rest)" "GetTagFieldNumber lib 8 = 1"
    using assms unfolding reads_back_def by blast
  then show ?thesis by (subst parse_unfold) simp
qed

lemma parse_end:
  assumes "reads_back lib field"
  shows "MergePartialFromCodedStream lib [] opts = Some (True, opts)"
  using assms by (subst parse_unfold) (auto simp: reads_back_def)

lemma parse_unknown:
  assumes "reads_back lib field" "field f"
  shows "MergePartialFromCodedStream lib (f @ rest) opts =
    MergePartialFromCodedStream lib rest
      (opts\<lparr>internal_metadata := internal_metadata opts @ [f]\<rparr>)"
proof -
  obtain tag ok body where tag: "ReadTag lib 127 (f @ rest) = ((tag, ok), body)" "tag \<noteq> 0"
    "\<not> (ok \<and> GetTagFieldNumber lib tag = 1 \<and> ucast tag = (8 :: 8 word))"
    "SkipField lib body tag (internal_metadata opts) = Some (internal_metadata opts @ [f], rest)"
    using assms unfolding reads_back_def by blast
  from tag(1,2,4) show ?thesis by (subst parse_unfold) (simp add: tag(3))
qed

lemma parse_unknowns:
  assumes "reads_back lib field" "list_all field us"
  shows "MergePartialFromCodedStream lib (concat us) opts =
    Some (True, opts\<lparr>internal_metadata := internal_metadata opts @ us\<rparr>)"
  using assms(2)
proof (induction us arbitrary: opts)
  case Nil
  show ?case using parse_end [OF assms(1)] by simp
next
  case (Cons u us)
  then show ?case by (simp add: parse_unknown [OF assms(1)])
qed

text \<open>
  C17: parsing what was serialised into a new message gives the message back: the option,
  and the unknown fields if they are preserved.
\<close>

theorem options_roundtrip:
  assumes "reads_back lib field" "list_all field (internal_metadata opts)"
  shows "MergePartialFromCodedStream lib (SerializeWithCachedSizes lib opts) new_options =
    Some (True, new_options\<lparr>fire_and_forget_field := fire_and_forget opts,
      internal_metadata := (if GetProto3PreserveUnknownsDefault lib then internal_metadata opts else [])\<rparr>)"
proof -
  let ?us = "if GetProto3PreserveUnknownsDefault lib then internal_metadata opts else []"
  have "SerializeWithCachedSizes lib opts =
      (if fire_and_forget opts then WriteBool lib 1 True else []) @ concat ?us"
    using assms(1) by (simp add: SerializeWithCachedSizes_def reads_back_def)
  moreover have "list_all field ?us" using assms(2) by simp
  ultimately show ?thesis
    using parse_bool [OF assms(1), of True "concat ?us" new_options]
    by (cases "fire_and_forget opts")
      (simp_all only: parse_unknowns [OF assms(1)] if_True if_False append_Nil new_options_def
        RSocketMethodOptions.simps)
qed

theorem options_roundtrip_witness:
  "MergePartialFromCodedStream byte_lib
     (SerializeWithCachedSizes byte_lib
       \<lparr>fire_and_forget_field = True, internal_metadata = [[16, 5]], cached_size = 7\<rparr>) new_options =
   Some (True, \<lparr>fire_and_forget_field = True, internal_metadata = [[16, 5]], cached_size = 0\<rparr>)"
proof -
  have "list_all byte_field [[16, 5]]" by (simp add: byte_field_def)
  then show ?thesis
    using options_roundtrip [OF byte_lib_reads_back,
        of "\<lparr>fire_and_forget_field = True, internal_metadata = [[16, 5]], cached_size = 7\<rparr>"]
    by (simp add: new_options_def fire_and_forget_def byte_lib_def)
qed

text \<open>One round of the loop: a field it knows, and one it keeps unread.\<close>

lemma known_field_ends:
  assumes "consumes lib" "ReadTag lib 127 input = ((tag, True), rest)"
    and "GetTagFieldNumber lib tag = 1" "ucast tag = (8 :: 8 word)"
    and later: "\<And>input' opts. length input' < length input \<Longrightarrow> \<exists>r. MergePartialFromCodedStream lib input' opts = Some r"
  shows "\<exists>r. MergePartialFromCodedStream lib input opts = Some r"
proof (cases "ReadBool lib rest")
  case None
  with assms(2-4) show ?thesis by (subst parse_unfold) auto
next
  case (Some r)
  obtain b rest' where r: "r = (b, rest')" by (cases r)
  have "tag \<noteq> 0" using assms(4) by auto
  then have "length rest < length input" using assms(1,2) unfolding consumes_def by blast
  moreover have "length rest' \<le> length rest" using assms(1) Some r unfolding consumes_def by blast
  ultimately have "length rest' < length input" by simp
  from later [OF this] assms(2-4) Some r show ?thesis by (subst parse_unfold) simp
qed

lemma other_field_ends:
  assumes "consumes lib" "ReadTag lib 127 input = ((tag, ok), rest)"
    and other: "\<not> (ok \<and> GetTagFieldNumber lib tag = 1 \<and> ucast tag = (8 :: 8 word))" and nz: "tag \<noteq> 0"
    and later: "\<And>input' opts. length input' < length input \<Longrightarrow> \<exists>r. MergePartialFromCodedStream lib input' opts = Some r"
  shows "\<exists>r. MergePartialFromCodedStream lib input opts = Some r"
proof (cases "SkipField lib rest tag (internal_metadata opts)")
  case None
  with assms(2) other nz show ?thesis by (subst parse_unfold) auto
next
  case (Some r)
  obtain u rest' where r: "r = (u, rest')" by (cases r)
  have "length rest < length input" using assms(1,2) nz unfolding consumes_def by blast
  moreover have "length rest' \<le> length rest" using assms(1) Some r unfolding consumes_def by blast
  ultimately have "length rest' < length input" by simp
  from later [OF this] assms(2) other nz Some r show ?thesis by (subst parse_unfold) auto
qed

text \<open>C12: the parsing loop ends on every input, with success or failure.\<close>

theorem options_parse_ends:
  assumes "consumes lib"
  shows "\<exists>result. MergePartialFromCodedStream lib input opts = Some result"
proof (induction "length input" arbitrary: input opts rule: less_induct)
  case less
  obtain tag ok rest where t: "ReadTag lib 127 input = ((tag, ok), rest)"
    by (metis prod.collapse)
  consider "ok \<and> GetTagFieldNumber lib tag = 1 \<and> ucast tag = (8 :: 8 word)"
    | "\<not> (ok \<and> GetTagFieldNumber lib tag = 1 \<and> ucast tag = (8 :: 8 word))" "tag = 0"
    | "\<not> (ok \<and> GetTagFieldNumber lib tag = 1 \<and> ucast tag = (8 :: 8 word))" "tag \<noteq> 0"
    by blast
  then show ?case
  proof cases
    case 1
    with t have "ReadTag lib 127 input = ((tag, True), rest)" by simp
    from known_field_ends [OF assms this] 1 less show ?thesis by blast
  next
    case 2
    with t show ?thesis by (subst parse_unfold) auto
  next
    case 3
    then show ?thesis by (rule other_field_ends [OF assms t]) (rule less)
  qed
qed

theorem options_parse_ends_witness:
  "\<exists>result. MergePartialFromCodedStream byte_lib [8, 1, 16, 5, 24] new_options = Some result"
  by (rule options_parse_ends [OF byte_lib_consumes])

section \<open>Sizes\<close>

text \<open>
  C34: the two serialisers write the same bytes, and \<open>ByteSizeLong\<close> returns their number
  (modulo the width of \<open>size_t\<close>) and caches its low 32 bits, leaving the rest of the message alone.
\<close>

theorem options_size:
  assumes "sizes_agree lib" "arrays_agree lib"
  shows "InternalSerializeWithCachedSizesToArray lib opts target =
      target @ SerializeWithCachedSizes lib opts \<and>
    fst (ByteSizeLong lib opts) = word_of_nat (length (SerializeWithCachedSizes lib opts)) \<and>
    snd (ByteSizeLong lib opts) =
      opts\<lparr>cached_size := ucast (fst (ByteSizeLong lib opts))\<rparr>"
  using assms by (simp add: sizes_agree_def arrays_agree_def ByteSizeLong_def Let_def
      InternalSerializeWithCachedSizesToArray_def SerializeWithCachedSizes_def)

theorem options_size_witness:
  "fst (ByteSizeLong byte_lib
     \<lparr>fire_and_forget_field = True, internal_metadata = [[16, 5]], cached_size = 7\<rparr>) = 4"
  using options_size [OF byte_lib_sizes,
      of "\<lparr>fire_and_forget_field = True, internal_metadata = [[16, 5]], cached_size = 7\<rparr>"]
  by (simp add: SerializeWithCachedSizes_def fire_and_forget_def byte_lib_def)

section \<open>Merging, copying and swapping\<close>

text \<open>
  For two objects: merging sets the option if either message has it and appends the
  unknown fields; copying makes the contents equal; swapping exchanges the contents and is
  undone by swapping again; no other object changes, and no cached size moves. Copying an
  object to itself, or swapping it with itself, changes nothing.
\<close>

theorem options_objects:
  assumes "other \<noteq> this"
  shows "MergeFrom this other st = st(this := (st this)\<lparr>
      fire_and_forget_field := fire_and_forget (st this) \<or> fire_and_forget (st other),
      internal_metadata := internal_metadata (st this) @ internal_metadata (st other)\<rparr>) \<and>
    CopyFrom this other st = st(this := (st other)\<lparr>cached_size := cached_size (st this)\<rparr>) \<and>
    Swap this other st = st(this := (st other)\<lparr>cached_size := cached_size (st this)\<rparr>,
      other := (st this)\<lparr>cached_size := cached_size (st other)\<rparr>) \<and>
    Swap this other (Swap this other st) = st \<and>
    CopyFrom this this st = st \<and> Swap this this st = st"
proof (intro conjI)
  show "MergeFrom this other st = st(this := (st this)\<lparr>
      fire_and_forget_field := fire_and_forget (st this) \<or> fire_and_forget (st other),
      internal_metadata := internal_metadata (st this) @ internal_metadata (st other)\<rparr>)"
    using assms by (cases "st this"; cases "st other")
      (auto simp: MergeFrom_def fire_and_forget_def set_fire_and_forget_def Let_def fun_eq_iff)
  show "CopyFrom this other st = st(this := (st other)\<lparr>cached_size := cached_size (st this)\<rparr>)"
    using assms by (cases "st this"; cases "st other")
      (auto simp: CopyFrom_def MergeFrom_def Clear_def fire_and_forget_def
        set_fire_and_forget_def Let_def fun_eq_iff)
  have swap: "Swap this other st = st(this := (st other)\<lparr>cached_size := cached_size (st this)\<rparr>,
      other := (st this)\<lparr>cached_size := cached_size (st other)\<rparr>)" for st
    using assms by (cases "st this"; cases "st other")
      (auto simp: Swap_def InternalSwap_def Let_def fun_eq_iff)
  then show "Swap this other st = st(this := (st other)\<lparr>cached_size := cached_size (st this)\<rparr>,
      other := (st this)\<lparr>cached_size := cached_size (st other)\<rparr>)" .
  show "Swap this other (Swap this other st) = st"
    unfolding swap using assms by (auto simp: fun_eq_iff)
  show "CopyFrom this this st = st" "Swap this this st = st"
    by (simp_all add: CopyFrom_def Swap_def)
qed

theorem options_objects_witness:
  "CopyFrom 0 1 ((\<lambda>_. new_options)(1 := set_fire_and_forget True new_options)) 0 =
     set_fire_and_forget True new_options"
  using options_objects [of 1 0 "(\<lambda>_. new_options)(1 := set_fire_and_forget True new_options)"]
  by (simp add: new_options_def set_fire_and_forget_def)

end
