(* ===== verification/Descriptors.thy ===== *)
theory Descriptors
  imports MethodOptions
begin

text \<open>
  What the generator reads: the descriptors protoc hands to the plugin (third-party types,
  represented by the accessors the code calls on them) and the environment of the build.
\<close>

section \<open>Descriptors\<close>

text \<open>A message type; descriptors of one pool are identified by their full name.\<close>

record Descriptor =
  full_name :: string

record SourceLocation =
  leading_comments :: string
  trailing_comments :: string

record FileDescriptor =
  fd_name :: string
  fd_package :: string

text \<open>
  \<open>md_location\<close> is what \<open>GetSourceLocation(&location)\<close> delivers, \<open>None\<close> when it
  returns false; \<open>md_options\<close> is \<open>options().GetExtension(io::rsocket::rpc::options)\<close>.
\<close>

record MethodDescriptor =
  md_name :: string
  md_input_type :: Descriptor
  md_output_type :: Descriptor
  md_client_streaming :: bool
  md_server_streaming :: bool
  md_options :: RSocketMethodOptions
  md_location :: "SourceLocation option"

record ServiceDescriptor =
  sd_name :: string
  sd_file :: FileDescriptor
  sd_methods :: "MethodDescriptor list"
  sd_location :: "SourceLocation option"

section \<open>Environment\<close>

datatype ProtoFlavor = NORMAL | LITE

text \<open>
  \<open>java_file_class\<close> and \<open>java_message_class\<close> stand for the two overloads of
  \<open>google::protobuf::compiler::java::ClassName\<close> the generator calls, which are not part
  of this repository. The two macros are the ones the source tests and stringifies: their
  spelling differs in case only, and so they are two different macros to the preprocessor.
\<close>

record codegen_env =
  java_file_class :: "FileDescriptor \<Rightarrow> string"
  java_message_class :: "Descriptor \<Rightarrow> string"
  macro_rsocket_rpc_version :: "string option"
  macro_RSOCKET_RPC_VERSION :: "string option"

text \<open>
  \<open>XSTR(m)\<close>: the expansion of the macro as a string literal, and the macro's own name
  where it is not defined (then the preprocessor leaves the identifier alone).
\<close>

definition XSTR :: "string \<Rightarrow> string option \<Rightarrow> string" where
  "XSTR name expansion = (case expansion of None \<Rightarrow> name | Some v \<Rightarrow> v)"

text \<open>
  The definitions of \<open>rsocket-rpc-protobuf/build.gradle\<close>: \<open>RSOCKET_RPC_VERSION\<close> is the
  only macro it defines.
\<close>

definition gradle_build :: "string \<Rightarrow> codegen_env \<Rightarrow> codegen_env" where
  "gradle_build v e = e\<lparr>macro_rsocket_rpc_version := None, macro_RSOCKET_RPC_VERSION := Some v\<rparr>"

section \<open>Interaction models\<close>

text \<open>The four RSocket interactions a method can be served by.\<close>

datatype interaction = FireAndForget | RequestResponse | RequestStream | RequestChannel

instantiation interaction :: linorder
begin

fun interaction_rank :: "interaction \<Rightarrow> nat" where
  "interaction_rank FireAndForget = 0"
| "interaction_rank RequestResponse = 1"
| "interaction_rank RequestStream = 2"
| "interaction_rank RequestChannel = 3"

definition less_eq_interaction :: "interaction \<Rightarrow> interaction \<Rightarrow> bool" where
  "less_eq_interaction a b \<longleftrightarrow> interaction_rank a \<le> interaction_rank b"

definition less_interaction :: "interaction \<Rightarrow> interaction \<Rightarrow> bool" where
  "less_interaction a b \<longleftrightarrow> interaction_rank a < interaction_rank b"

lemma interaction_rank_inj: "interaction_rank a = interaction_rank b \<Longrightarrow> a = b"
  by (cases a; cases b) simp_all

instance
  by standard
    (auto simp: less_eq_interaction_def less_interaction_def dest: interaction_rank_inj)

end

text \<open>
  What the interface, the client and the server each decide from the streaming flags and
  the option, written as the specification they are compared with: a method that streams
  from the client is a channel, otherwise one that streams from the server is a stream,
  and the option counts only for a method that does neither.
\<close>

definition interaction_of :: "MethodDescriptor \<Rightarrow> interaction" where
  "interaction_of m =
     (if md_client_streaming m then RequestChannel
      else if md_server_streaming m then RequestStream
      else if fire_and_forget (md_options m) then FireAndForget
      else RequestResponse)"

end
