(* ===== verification/Splitting.thy ===== *)
theory Splitting
  imports Prelude
begin

text \<open>
  \<open>SplitStringToIteratorUsing\<close> of \<open>kotlin_generator.cpp\<close>: a fast loop for a delimiter
  string of one character, and the general loop over \<open>find_first_not_of\<close> and
  \<open>find_first_of\<close>. Both are modelled and shown to produce the same tokens; the reference
  cuts at every delimiter and drops the empty pieces.
\<close>

section \<open>The fast loop\<close>

text \<open>
  The pointer \<open>p\<close> is the rest of the string. On a delimiter it advances by one; otherwise
  the inner loop \<open>while (++p != end && *p != c)\<close> runs to the end of the token.
\<close>

function split_fast :: "char \<Rightarrow> string \<Rightarrow> string list" where
  "split_fast c [] = []"
| "split_fast c (d # p) =
     (if d = c then split_fast c p
      else (d # takeWhile (\<lambda>x. x \<noteq> c) p) # split_fast c (dropWhile (\<lambda>x. x \<noteq> c) p))"
  by pat_completeness auto
termination
  by (relation "measure (\<lambda>(c, p). length p)") (simp_all add: le_imp_less_Suc length_dropWhile_le)

section \<open>The general loop\<close>

definition find_first_not_of :: "string \<Rightarrow> string \<Rightarrow> nat \<Rightarrow> nat option" where
  "find_first_not_of full delim pos = List.find (\<lambda>i. full ! i \<notin> set delim) [pos..<length full]"

definition find_first_of :: "string \<Rightarrow> string \<Rightarrow> nat \<Rightarrow> nat option" where
  "find_first_of full delim pos = List.find (\<lambda>i. full ! i \<in> set delim) [pos..<length full]"

definition substr :: "string \<Rightarrow> nat \<Rightarrow> nat \<Rightarrow> string" where
  "substr s pos n = take n (drop pos s)"

lemma find_upt_Some_iff:
  "List.find P [a..<n] = Some i \<longleftrightarrow> a \<le> i \<and> i < n \<and> P i \<and> (\<forall>j. a \<le> j \<and> j < i \<longrightarrow> \<not> P j)"
proof
  assume "List.find P [a..<n] = Some i"
  then obtain k where k: "k < n - a" "P (a + k)" "i = a + k" "\<forall>j<k. \<not> P (a + j)"
    by (auto simp: find_Some_iff)
  have "\<not> P j" if "a \<le> j" "j < i" for j
    using k(4) [rule_format, of "j - a"] that k(3) by simp
  with k show "a \<le> i \<and> i < n \<and> P i \<and> (\<forall>j. a \<le> j \<and> j < i \<longrightarrow> \<not> P j)" by auto
next
  assume "a \<le> i \<and> i < n \<and> P i \<and> (\<forall>j. a \<le> j \<and> j < i \<longrightarrow> \<not> P j)"
  then show "List.find P [a..<n] = Some i"
    by (auto simp: find_Some_iff intro!: exI [of _ "i - a"])
qed

lemma find_first_of_Some:
  "find_first_of full delim pos = Some i \<longleftrightarrow>
     pos \<le> i \<and> i < length full \<and> full ! i \<in> set delim \<and>
     (\<forall>j. pos \<le> j \<and> j < i \<longrightarrow> full ! j \<notin> set delim)"
  by (simp add: find_first_of_def find_upt_Some_iff)

lemma find_first_not_of_Some:
  "find_first_not_of full delim pos = Some i \<longleftrightarrow>
     pos \<le> i \<and> i < length full \<and> full ! i \<notin> set delim \<and>
     (\<forall>j. pos \<le> j \<and> j < i \<longrightarrow> full ! j \<in> set delim)"
  by (simp add: find_first_not_of_def find_upt_Some_iff)

lemma set_drop_conv: "set (drop n xs) = {xs ! i |i. n \<le> i \<and> i < length xs}"
proof -
  have "set (drop n xs) = {xs ! (n + j) |j. j < length xs - n}"
    by (auto simp: set_conv_nth)
  also have "\<dots> = {xs ! i |i. n \<le> i \<and> i < length xs}"
  proof (intro set_eqI iffI; clarify)
    fix j assume "j < length xs - n"
    then show "\<exists>i. xs ! (n + j) = xs ! i \<and> n \<le> i \<and> i < length xs"
      by (intro exI [of _ "n + j"]) auto
  next
    fix i assume "n \<le> i" "i < length xs"
    then show "\<exists>j. xs ! i = xs ! (n + j) \<and> j < length xs - n"
      by (intro exI [of _ "i - n"]) auto
  qed
  finally show ?thesis .
qed

lemma find_first_of_None:
  "find_first_of full delim pos = None \<longleftrightarrow> (\<forall>c\<in>set (drop pos full). c \<notin> set delim)"
  by (auto simp: find_first_of_def find_None_iff set_drop_conv Ball_def)

lemma find_first_not_of_None:
  "find_first_not_of full delim pos = None \<longleftrightarrow> (\<forall>c\<in>set (drop pos full). c \<in> set delim)"
  by (auto simp: find_first_not_of_def find_None_iff set_drop_conv Ball_def)

function split_general :: "string \<Rightarrow> string \<Rightarrow> nat option \<Rightarrow> string list" where
  "split_general full delim None = []"
| "split_general full delim (Some begin_index) =
     (case find_first_of full delim begin_index of
        None \<Rightarrow> [drop begin_index full]
      | Some end_index \<Rightarrow>
          substr full begin_index (end_index - begin_index)
            # split_general full delim (find_first_not_of full delim end_index))"
  by pat_completeness auto
termination
proof (relation "measure (\<lambda>(full, delim, b). case b of None \<Rightarrow> 0 | Some i \<Rightarrow> Suc (length full - i))",
    goal_cases)
  case 1
  show ?case by simp
next
  case (2 full delim b e)
  show ?case
  proof (cases "find_first_not_of full delim e")
    case (Some b')
    then have b': "e \<le> b'" "b' < length full" "full ! b' \<notin> set delim"
      by (simp_all add: find_first_not_of_Some)
    from 2 have "b \<le> e" "full ! e \<in> set delim" by (simp_all add: find_first_of_Some)
    with b' have "b < b'" by (metis le_neq_implies_less order_trans order_antisym)
    with Some b'(2) show ?thesis by (simp add: diff_less_mono2)
  qed simp
qed

definition SplitStringToIteratorUsing :: "string \<Rightarrow> string \<Rightarrow> string list" where
  "SplitStringToIteratorUsing full delim =
     (if length delim = 1 then split_fast (delim ! 0) full
      else split_general full delim (find_first_not_of full delim 0))"

definition Split :: "string \<Rightarrow> string \<Rightarrow> string list" where
  "Split full delim = SplitStringToIteratorUsing full delim"

section \<open>The reference\<close>

fun pieces :: "(char \<Rightarrow> bool) \<Rightarrow> string \<Rightarrow> string list" where
  "pieces sep [] = [[]]"
| "pieces sep (c # cs) =
     (if sep c then [] # pieces sep cs
      else (c # hd (pieces sep cs)) # tl (pieces sep cs))"

definition tokens :: "(char \<Rightarrow> bool) \<Rightarrow> string \<Rightarrow> string list" where
  "tokens sep s = filter (\<lambda>t. t \<noteq> []) (pieces sep s)"

lemma pieces_not_Nil [simp]: "pieces sep s \<noteq> []"
  by (cases s) simp_all

lemma pieces_run:
  "\<forall>c\<in>set t. \<not> sep c \<Longrightarrow> pieces sep (t @ s) = (t @ hd (pieces sep s)) # tl (pieces sep s)"
  by (induction t) simp_all

lemma tokens_Nil [simp]: "tokens sep [] = []"
  by (simp add: tokens_def)

lemma tokens_sep [simp]: "sep c \<Longrightarrow> tokens sep (c # cs) = tokens sep cs"
  by (simp add: tokens_def)

lemma tokens_seps: "\<forall>c\<in>set t. sep c \<Longrightarrow> tokens sep (t @ s) = tokens sep s"
  by (induction t) simp_all

lemma tokens_token:
  assumes "\<forall>c\<in>set t. \<not> sep c" "t \<noteq> []" "s = [] \<or> sep (hd s)"
  shows "tokens sep (t @ s) = t # tokens sep s"
  using assms pieces_run [of t sep s] by (cases s) (auto simp: tokens_def)

lemma set_tokens:
  assumes "t \<in> set (tokens sep s)"
  shows "t \<noteq> [] \<and> set t \<subseteq> {c \<in> set s. \<not> sep c}"
proof -
  have "t \<in> set (pieces sep s) \<Longrightarrow> set t \<subseteq> {c \<in> set s. \<not> sep c}" for t
  proof (induction s arbitrary: t)
    case Nil
    then show ?case by simp
  next
    case (Cons c cs)
    have hd: "hd (pieces sep cs) \<in> set (pieces sep cs)" by simp
    have tl: "x \<in> set (tl (pieces sep cs)) \<Longrightarrow> x \<in> set (pieces sep cs)" for x
      by (rule list.set_sel(2)) simp
    have "set (hd (pieces sep cs)) \<subseteq> {c \<in> set cs. \<not> sep c}" by (rule Cons.IH [OF hd])
    moreover have "t = [] \<or> t \<in> set (pieces sep cs) \<or> (\<not> sep c \<and> t = c # hd (pieces sep cs))"
      using Cons.prems tl by (auto split: if_splits)
    ultimately show ?case using Cons.IH [of t] by auto
  qed
  with assms show ?thesis by (auto simp: tokens_def)
qed

section \<open>Both loops compute the reference\<close>

lemma split_fast_tokens: "split_fast c s = tokens (\<lambda>x. x = c) s"
proof (induction c s rule: split_fast.induct)
  case (1 c)
  show ?case by simp
next
  case (2 c d p)
  show ?case
  proof (cases "d = c")
    case True
    with 2 show ?thesis by simp
  next
    case False
    let ?t = "d # takeWhile (\<lambda>x. x \<noteq> c) p" and ?s = "dropWhile (\<lambda>x. x \<noteq> c) p"
    have "\<forall>x\<in>set ?t. x \<noteq> c" using False by (auto dest: set_takeWhileD)
    moreover have "?s = [] \<or> hd ?s = c" using hd_dropWhile [of "\<lambda>x. x \<noteq> c" p] by blast
    ultimately have "tokens (\<lambda>x. x = c) (?t @ ?s) = ?t # tokens (\<lambda>x. x = c) ?s"
      by (intro tokens_token) simp_all
    then show ?thesis using False 2 by simp
  qed
qed

lemma drop_cut:
  assumes "pos \<le> i"
  shows "drop pos s = substr s pos (i - pos) @ drop i s"
  using assms append_take_drop_id [of "i - pos" "drop pos s"] by (simp add: substr_def)

lemma set_substr:
  "i \<le> length s \<Longrightarrow> c \<in> set (substr s pos (i - pos)) \<Longrightarrow> \<exists>j. pos \<le> j \<and> j < i \<and> c = s ! j"
  by (auto simp: substr_def in_set_conv_nth) (metis add.commute le_add2 less_diff_conv)

lemma split_general_tokens:
  "split_general full delim (find_first_not_of full delim pos) =
     tokens (\<lambda>c. c \<in> set delim) (drop pos full)"
proof (induction "length full - pos" arbitrary: pos rule: less_induct)
  case less
  let ?tok = "tokens (\<lambda>c. c \<in> set delim)"
  show ?case
  proof (cases "find_first_not_of full delim pos")
    case None
    then have "?tok (drop pos full @ []) = ?tok []"
      by (intro tokens_seps) (simp add: find_first_not_of_None)
    with None show ?thesis by simp
  next
    case (Some b)
    then have b: "pos \<le> b" "b < length full" "full ! b \<notin> set delim"
      and skipped: "\<And>j. pos \<le> j \<Longrightarrow> j < b \<Longrightarrow> full ! j \<in> set delim"
      by (auto simp: find_first_not_of_Some)
    have skip: "?tok (drop pos full) = ?tok (drop b full)"
      unfolding drop_cut [OF b(1)] using b skipped
      by (intro tokens_seps) (auto dest!: set_substr [rotated])
    show ?thesis
    proof (cases "find_first_of full delim b")
      case None
      then have "?tok (drop b full @ []) = [drop b full]"
        using b(2) tokens_token [of "drop b full" "\<lambda>c. c \<in> set delim" "[]"]
        by (simp add: find_first_of_None)
      with None Some skip show ?thesis by simp
    next
      case end_index: (Some e)
      then have e: "b \<le> e" "e < length full" "full ! e \<in> set delim"
        and kept: "\<And>j. b \<le> j \<Longrightarrow> j < e \<Longrightarrow> full ! j \<notin> set delim"
        by (auto simp: find_first_of_Some)
      from b e have "b < e" by (auto simp: order_le_less)
      have "?tok (drop b full) = substr full b (e - b) # ?tok (drop e full)"
        unfolding drop_cut [OF e(1)]
      proof (rule tokens_token)
        show "\<forall>c\<in>set (substr full b (e - b)). c \<notin> set delim"
          using kept e(2) by (auto dest!: set_substr [rotated])
        show "substr full b (e - b) \<noteq> []" using \<open>b < e\<close> e(2) by (simp add: substr_def)
        show "drop e full = [] \<or> hd (drop e full) \<in> set delim"
          using e by (simp add: hd_drop_conv_nth)
      qed
      moreover have "split_general full delim (find_first_not_of full delim e) = ?tok (drop e full)"
        using \<open>b < e\<close> b(1) e(2) by (intro less) simp
      ultimately show ?thesis using Some end_index skip by simp
    qed
  qed
qed

lemma Split_tokens: "Split full delim = tokens (\<lambda>c. c \<in> set delim) full"
proof (cases "length delim = 1")
  case True
  then obtain c where "delim = [c]" by (auto simp: length_Suc_conv)
  then show ?thesis
    by (simp add: Split_def SplitStringToIteratorUsing_def split_fast_tokens)
next
  case False
  then show ?thesis
    by (simp add: Split_def SplitStringToIteratorUsing_def split_general_tokens)
qed

lemma concat_pieces_sep: "concat (pieces sep s) = filter (\<lambda>c. \<not> sep c) s"
proof (induction s)
  case (Cons c cs)
  then show ?case by (cases "pieces sep cs") auto
qed simp

lemma concat_tokens: "concat (tokens sep s) = filter (\<lambda>c. \<not> sep c) s"
proof -
  have "concat (filter (\<lambda>t. t \<noteq> []) ps) = concat ps" for ps :: "string list"
    by (induction ps) simp_all
  then show ?thesis by (simp add: tokens_def concat_pieces_sep)
qed

section \<open>What splitting does\<close>

text \<open>
  C25: the fast loop for a single delimiter character and the general loop produce the same
  tokens.
\<close>

theorem split_loops_agree:
  "split_fast c full = split_general full [c] (find_first_not_of full [c] 0)"
  by (simp add: split_fast_tokens split_general_tokens)

text \<open>
  C36: \<open>Split\<close> yields, in order, the pieces between delimiters that are not empty: every
  character that is not a delimiter is in exactly one token, and no token is empty or holds
  a delimiter.
\<close>

theorem Split_pieces:
  "Split full delim = filter (\<lambda>t. t \<noteq> []) (pieces (\<lambda>c. c \<in> set delim) full) \<and>
   concat (Split full delim) = filter (\<lambda>c. c \<notin> set delim) full \<and>
   [] \<notin> set (Split full delim) \<and> set delim \<inter> \<Union> (set ` set (Split full delim)) = {}"
proof (intro conjI)
  show "Split full delim = filter (\<lambda>t. t \<noteq> []) (pieces (\<lambda>c. c \<in> set delim) full)"
    by (simp add: Split_tokens tokens_def)
  show "concat (Split full delim) = filter (\<lambda>c. c \<notin> set delim) full"
    by (simp add: Split_tokens concat_tokens)
  show "[] \<notin> set (Split full delim)" "set delim \<inter> \<Union> (set ` set (Split full delim)) = {}"
    using set_tokens [of _ "\<lambda>c. c \<in> set delim" full] by (auto simp: Split_tokens)
qed

end
