(* ===== verification/Samples.thy ===== *)
theory Samples
  imports Descriptors
begin

text \<open>
  A concrete service and environment, on which the properties with hypotheses are
  instantiated: one method per interaction, with comments that hold comment markers.
\<close>

definition sample_method ::
  "string \<Rightarrow> bool \<Rightarrow> bool \<Rightarrow> bool \<Rightarrow> MethodDescriptor" where
  "sample_method name client server fnf =
     \<lparr>md_name = name, md_input_type = \<lparr>full_name = ''test.Request''\<rparr>,
      md_output_type = \<lparr>full_name = ''test.Response''\<rparr>,
      md_client_streaming = client, md_server_streaming = server,
      md_options = \<lparr>fire_and_forget_field = fnf, internal_metadata = [], cached_size = 0\<rparr>,
      md_location = Some \<lparr>leading_comments = '' ends */ here\<newline>'', trailing_comments = []\<rparr>\<rparr>"

definition sample_file :: FileDescriptor where
  "sample_file = \<lparr>fd_name = ''test.proto'', fd_package = ''test''\<rparr>"

definition sample_service :: ServiceDescriptor where
  "sample_service =
     \<lparr>sd_name = ''Greeter'', sd_file = sample_file,
      sd_methods = [sample_method ''Ping'' False False False, sample_method ''Log'' False False True,
        sample_method ''Watch'' False True False, sample_method ''ChatAll'' True True False],
      sd_location = None\<rparr>"

text \<open>A service with unary methods only.\<close>

definition unary_service :: ServiceDescriptor where
  "unary_service = sample_service\<lparr>sd_name := ''Echo'', sd_methods := [sample_method ''Ping'' False False False]\<rparr>"

definition sample_env :: codegen_env where
  "sample_env =
     \<lparr>java_file_class = (\<lambda>_. ''io.test.TestProto''), java_message_class = full_name,
      macro_rsocket_rpc_version = None, macro_RSOCKET_RPC_VERSION = Some ''0.1.0''\<rparr>"

definition sample_generator_parameter :: "string \<Rightarrow> (string \<times> string) list" where
  "sample_generator_parameter parameter = (if parameter = [] then [] else [(parameter, [])])"

lemmas sample_defs = sample_method_def sample_file_def sample_service_def unary_service_def
  sample_env_def sample_generator_parameter_def

end
