(* ===== verification/Names.thy ===== *)
theory Names
  imports Descriptors Splitting Samples
begin

text \<open>
  The naming functions of \<open>kotlin_generator.cpp\<close> and \<open>kotlin_plugin.cpp\<close>: Kotlin method
  names, constant names, class names, the Kotlin package of a file and the directory of a
  package. Each is compared with a reference that says position by position what the
  loop computes.
\<close>

section \<open>Identifiers\<close>

text \<open>
  The loop of \<open>MixedLower\<close> from index 1 on: \<open>w\<close> is the output so far. Reading
  \<open>word[0]\<close> of an empty \<open>const std::string\<close> yields the terminating NUL.
\<close>

fun MixedLower_loop :: "string \<Rightarrow> bool \<Rightarrow> string \<Rightarrow> string" where
  "MixedLower_loop w after_underscore [] = w"
| "MixedLower_loop w after_underscore (c # rest) =
     (if c = underscore then MixedLower_loop w True rest
      else MixedLower_loop (w @ [if after_underscore then toupper c else c]) False rest)"

definition MixedLower :: "string \<Rightarrow> string" where
  "MixedLower word =
     MixedLower_loop [tolower (case word of [] \<Rightarrow> CHR 0x00 | c # _ \<Rightarrow> c)] False (drop 1 word)"

fun ToAllUpperCase :: "string \<Rightarrow> string" where
  "ToAllUpperCase [] = []"
| "ToAllUpperCase [c] = [toupper c]"
| "ToAllUpperCase (c # d # rest) =
     toupper c # (if islower c \<and> isupper d then [underscore] else [])
       @ ToAllUpperCase (d # rest)"

definition LowerMethodName :: "MethodDescriptor \<Rightarrow> string" where
  "LowerMethodName m = MixedLower (md_name m)"

definition MethodFieldName :: "MethodDescriptor \<Rightarrow> string" where
  "MethodFieldName m = ''METHOD_'' @ ToAllUpperCase (md_name m)"

definition MessageFullKotlinName :: "codegen_env \<Rightarrow> Descriptor \<Rightarrow> string" where
  "MessageFullKotlinName env desc = java_message_class env desc"

definition ServiceFieldName :: "ServiceDescriptor \<Rightarrow> string" where
  "ServiceFieldName service = ''SERVICE''"

definition ClientClassName :: "ServiceDescriptor \<Rightarrow> string" where
  "ClientClassName service = sd_name service @ ''Client''"

definition ServerClassName :: "ServiceDescriptor \<Rightarrow> string" where
  "ServerClassName service = sd_name service @ ''Server''"

section \<open>Packages\<close>

text \<open>\<open>find_last_of\<close> for one character: the index of its last occurrence.\<close>

definition find_last_of :: "char \<Rightarrow> string \<Rightarrow> nat option" where
  "find_last_of c s = List.find (\<lambda>i. s ! i = c) (rev [0..<length s])"

definition ServiceKotlinPackage :: "codegen_env \<Rightarrow> FileDescriptor \<Rightarrow> string" where
  "ServiceKotlinPackage env file =
     (let result = java_file_class env file
      in case find_last_of (CHR ''.'') result of
           Some last_dot_pos \<Rightarrow> take last_dot_pos result
         | None \<Rightarrow> [])"

text \<open>The loop of \<open>KotlinPackageToDir\<close> overwrites the dots of a copy in place.\<close>

fun dots_to_slashes :: "nat \<Rightarrow> string \<Rightarrow> string" where
  "dots_to_slashes 0 package_dir = package_dir"
| "dots_to_slashes (Suc n) package_dir =
     (let i = length package_dir - Suc n
      in dots_to_slashes n
           (if package_dir ! i = CHR ''.'' then package_dir[i := CHR ''/''] else package_dir))"

definition KotlinPackageToDir :: "string \<Rightarrow> string" where
  "KotlinPackageToDir package_name =
     (let package_dir = dots_to_slashes (length package_name) package_name
      in if package_dir \<noteq> [] then package_dir @ ''/'' else package_dir)"

section \<open>Lemmas on identifiers\<close>

text \<open>
  The reference for \<open>MixedLower\<close>: every character after the first is kept unless it is
  an underscore, in upper case if the character before it (not counting the first) is one.
\<close>

definition camel :: "string \<Rightarrow> string" where
  "camel cs = concat (map (\<lambda>(prev, c). if c = underscore then []
                             else [if prev = underscore then toupper c else c])
                        (zip (CHR 0x00 # cs) cs))"

lemma camel_zip:
  "MixedLower_loop w (p = underscore) cs =
     w @ concat (map (\<lambda>(prev, c). if c = underscore then []
                             else [if prev = underscore then toupper c else c])
                   (zip (p # cs) cs))"
proof (induction cs arbitrary: w p)
  case Nil
  show ?case by simp
next
  case (Cons c cs)
  show ?case
    using Cons.IH [of w c] Cons.IH [of "w @ [if p = underscore then toupper c else c]" c]
    by (cases "c = underscore") (simp_all split del: if_split)
qed

lemma MixedLower_Cons: "MixedLower (c # cs) = tolower c # camel cs"
  using camel_zip [of "[tolower c]" "CHR 0x00" cs]
  by (simp add: MixedLower_def camel_def)

lemma MixedLower_Nil: "MixedLower [] = [CHR 0x00]"
  by (simp add: MixedLower_def tolower_def isupper_def)

lemma set_camel: "set (camel cs) \<subseteq> (set cs \<union> toupper ` set cs) - {underscore}"
  by (auto simp: camel_def split: if_splits dest: set_zip_rightD)

lemma set_MixedLower:
  "cs \<noteq> [] \<Longrightarrow> set (MixedLower cs) \<subseteq> set cs \<union> toupper ` set cs \<union> tolower ` set cs"
  using set_camel by (cases cs) (fastforce simp: MixedLower_Cons)+

lemma set_ToAllUpperCase: "set (ToAllUpperCase w) \<subseteq> insert underscore (toupper ` set w)"
  by (induction w rule: ToAllUpperCase.induct) auto

lemma ToAllUpperCase_Nil_iff [simp]: "ToAllUpperCase w = [] \<longleftrightarrow> w = []"
  by (cases w rule: ToAllUpperCase.cases) auto

section \<open>Lemmas on packages\<close>

lemma find_rev_upt_None: "List.find P (rev [0..<n]) = None \<longleftrightarrow> (\<forall>i<n. \<not> P i)"
  by (auto simp: find_None_iff)

lemma find_rev_upt_Some:
  "List.find P (rev [0..<n]) = Some i \<longleftrightarrow> i < n \<and> P i \<and> (\<forall>j. i < j \<and> j < n \<longrightarrow> \<not> P j)"
proof (induction n)
  case 0
  show ?case by simp
next
  case (Suc n)
  then show ?case by (auto simp: less_Suc_eq)
qed

lemma find_last_of_split:
  assumes "c \<notin> set t"
  shows "find_last_of c (s @ c # t) = Some (length s)"
  unfolding find_last_of_def find_rev_upt_Some
  using assms by (auto simp: nth_append nth_Cons' split: if_splits)

lemma find_last_of_None: "c \<notin> set s \<Longrightarrow> find_last_of c s = None"
  by (auto simp: find_last_of_def find_rev_upt_None)

lemma dots_to_slashes_map:
  assumes "n \<le> length s"
  shows "dots_to_slashes n s =
    take (length s - n) s @
    map (\<lambda>c. if c = CHR ''.'' then CHR ''/'' else c) (drop (length s - n) s)"
  using assms
proof (induction n arbitrary: s)
  case 0
  show ?case by simp
next
  case (Suc n)
  define i where "i = length s - Suc n"
  let ?f = "\<lambda>c. if c = CHR ''.'' then CHR ''/'' else c"
  have i: "i < length s" "length s - n = Suc i" using Suc.prems by (auto simp: i_def)
  have s: "(if s ! i = CHR ''.'' then s[i := CHR ''/''] else s) = s[i := ?f (s ! i)]"
    by simp
  have "dots_to_slashes (Suc n) s = dots_to_slashes n (s[i := ?f (s ! i)])"
    by (simp add: Let_def flip: i_def s)
  also have "\<dots> = take (Suc i) (s[i := ?f (s ! i)]) @ map ?f (drop (Suc i) s)"
    using Suc.IH [of "s[i := ?f (s ! i)]"] Suc.prems i by simp
  also have "\<dots> = take i s @ map ?f (drop i s)"
    using i(1) by (simp add: take_Suc_conv_app_nth Cons_nth_drop_Suc [symmetric])
  finally show ?case by (simp add: i_def)
qed

lemma KotlinPackageToDir_map:
  "KotlinPackageToDir p =
     (if p = [] then [] else map (\<lambda>c. if c = CHR ''.'' then CHR ''/'' else c) p @ ''/'')"
  by (simp add: KotlinPackageToDir_def dots_to_slashes_map)

section \<open>What the names are\<close>

fun capitalize :: "string \<Rightarrow> string" where
  "capitalize [] = []"
| "capitalize (c # cs) = toupper c # cs"

lemma camel_pieces_aux:
  "concat (map (\<lambda>(prev, c). if c = underscore then []
                  else [if prev = underscore then toupper c else c]) (zip (p # cs) cs)) =
   (let ps = pieces (\<lambda>c. c = underscore) cs
    in (if p = underscore then capitalize (hd ps) else hd ps) @ concat (map capitalize (tl ps)))"
proof (induction cs arbitrary: p)
  case Nil
  show ?case by (simp add: Let_def)
next
  case (Cons c cs)
  have ps: "pieces (\<lambda>c. c = underscore) cs =
      hd (pieces (\<lambda>c. c = underscore) cs) # tl (pieces (\<lambda>c. c = underscore) cs)" by simp
  show ?case
  proof (cases "c = underscore")
    case True
    have "concat (map capitalize (pieces (\<lambda>c. c = underscore) cs)) =
        capitalize (hd (pieces (\<lambda>c. c = underscore) cs))
          @ concat (map capitalize (tl (pieces (\<lambda>c. c = underscore) cs)))"
      by (subst ps) (simp del: list.collapse)
    then show ?thesis using Cons [of underscore] True by (simp add: Let_def)
  next
    case False
    then show ?thesis using Cons [of c] by (simp add: Let_def)
  qed
qed

lemma camel_pieces:
  "camel cs = (let ps = pieces (\<lambda>c. c = underscore) cs in hd ps @ concat (map capitalize (tl ps)))"
  using camel_pieces_aux [of "CHR 0x00" cs] by (simp add: camel_def Let_def)

text \<open>
  C38: the Kotlin name of a method: the first letter in lower case, then the words between
  underscores, every word but the first with its first letter in upper case.
\<close>

theorem LowerMethodName_words:
  assumes "md_name m = c # cs"
  shows "LowerMethodName m =
    tolower c # hd (pieces (\<lambda>c. c = underscore) cs)
      @ concat (map capitalize (tl (pieces (\<lambda>c. c = underscore) cs)))"
  using assms by (simp add: LowerMethodName_def MixedLower_Cons camel_pieces Let_def)

theorem LowerMethodName_words_witness:
  "LowerMethodName (sample_method ''Get_all__users'' False False False) = ''getAllUsers''"
proof -
  have "md_name (sample_method ''Get_all__users'' False False False) = CHR ''G'' # ''et_all__users''"
    by (simp add: sample_method_def)
  from LowerMethodName_words [OF this]
  show ?thesis by simp code_simp
qed

lemma filter_ToAllUpperCase:
  "filter (\<lambda>c. c \<noteq> underscore) (ToAllUpperCase w) = map toupper (filter (\<lambda>c. c \<noteq> underscore) w)"
  by (induction w rule: ToAllUpperCase.induct) auto

lemma ToAllUpperCase_no_lower: "\<forall>c\<in>set (ToAllUpperCase w). \<not> islower c"
  by (induction w rule: ToAllUpperCase.induct) (auto simp: islower_def [of underscore])

lemma ToAllUpperCase_upper:
  "\<forall>c\<in>set w. \<not> islower c \<Longrightarrow> ToAllUpperCase w = w"
  by (induction w rule: ToAllUpperCase.induct) (auto simp: toupper_def)

text \<open>
  The constant of a method: no letter is left in lower case, without the underscores it
  is the method's name in upper case, and upper-casing it again changes nothing.
\<close>

theorem MethodFieldName_upper:
  "\<exists>rest. MethodFieldName m = ''METHOD_'' @ rest \<and> filter islower rest = [] \<and>
     filter (\<lambda>c. c \<noteq> underscore) rest = map toupper (filter (\<lambda>c. c \<noteq> underscore) (md_name m)) \<and>
     ToAllUpperCase rest = rest"
  by (intro exI [of _ "ToAllUpperCase (md_name m)"] conjI)
    (simp_all add: MethodFieldName_def ToAllUpperCase_no_lower filter_ToAllUpperCase
      ToAllUpperCase_upper filter_empty_conv)

lemma camel_append_underscore:
  "camel (a @ underscore # c # b) = camel (a @ toupper c # b)" if "islower c"
proof -
  have "MixedLower_loop w u (a @ underscore # c # b) = MixedLower_loop w u (a @ toupper c # b)" for w u
    using that islower_not_underscore
    by (induction a arbitrary: w u) (auto simp del: MixedLower_loop.simps(1))
  moreover have "camel cs = MixedLower_loop [] False cs" for cs
    using camel_zip [of "[]" "CHR 0x00" cs] by (simp add: camel_def)
  ultimately show ?thesis by simp
qed

lemma isupper_not_islower: "isupper c \<Longrightarrow> \<not> islower c"
  by (simp add: isupper_def islower_def)

lemma ToAllUpperCase_head:
  assumes "b = [] \<or> \<not> isupper (hd b)"
  shows "ToAllUpperCase (c # b) = ToAllUpperCase (toupper c # b)"
  using assms by (cases b) simp_all

lemma ToAllUpperCase_boundary:
  assumes "a \<noteq> []" "islower (last a)" "islower c" "b = [] \<or> \<not> isupper (hd b)"
  shows "ToAllUpperCase (a @ underscore # c # b) = ToAllUpperCase (a @ toupper c # b)"
  using assms
proof (induction a rule: ToAllUpperCase.induct)
  case (2 x)
  have "\<not> isupper underscore" "\<not> islower underscore" "isupper (toupper c)"
    using isupper_toupper 2 by (simp_all add: isupper_def islower_def)
  then show ?case using 2 ToAllUpperCase_head [of b c] by (simp add: isupper_not_islower)
qed simp_all

text \<open>
  C29: two methods whose names differ only in how a word boundary is written
  (\<open>get_user\<close> and \<open>getUser\<close>, both accepted by protoc) get the same Kotlin name and the same
  constant: the generated interface declares both twice.
\<close>

theorem method_names_collide:
  assumes "md_name m = a @ underscore # c # b" "md_name m' = a @ toupper c # b"
    and "a \<noteq> []" "islower (last a)" "islower c" "b = [] \<or> \<not> isupper (hd b)"
  shows "LowerMethodName m = LowerMethodName m' \<and> MethodFieldName m = MethodFieldName m' \<and>
    md_name m \<noteq> md_name m'"
proof (intro conjI)
  obtain x xs where a: "a = x # xs" using assms(3) by (cases a) simp_all
  show "LowerMethodName m = LowerMethodName m'"
    unfolding LowerMethodName_def assms(1,2) a append_Cons MixedLower_Cons
    using camel_append_underscore [OF assms(5)] by simp
  show "MethodFieldName m = MethodFieldName m'"
    unfolding MethodFieldName_def assms(1,2) using ToAllUpperCase_boundary assms by simp
  have "length (md_name m) \<noteq> length (md_name m')" unfolding assms(1,2) by simp
  then show "md_name m \<noteq> md_name m'" by metis
qed

theorem method_names_collide_witness:
  "LowerMethodName (sample_method ''get_user'' False False False) =
     LowerMethodName (sample_method ''getUser'' False False False) \<and>
   MethodFieldName (sample_method ''get_user'' False False False) =
     MethodFieldName (sample_method ''getUser'' False False False)"
proof -
  have u: "toupper (CHR ''u'') = CHR ''U''" by code_simp
  show ?thesis
    using method_names_collide [of "sample_method ''get_user'' False False False" "''get''"
        "CHR ''u''" "''ser''" "sample_method ''getUser'' False False False"]
    by (simp add: sample_method_def u islower_def isupper_def)
qed

section \<open>Packages and directories\<close>

definition join_dots :: "string list \<Rightarrow> string" where
  "join_dots parts = tl (concat (map (\<lambda>p. CHR ''.'' # p) parts))"

abbreviation dotted :: "string \<Rightarrow> string list" where
  "dotted \<equiv> pieces (\<lambda>c. c = CHR ''.'')"

lemma concat_pieces: "concat (map (\<lambda>p. CHR ''.'' # p) (dotted s)) = CHR ''.'' # s"
proof (induction s)
  case (Cons c cs)
  have *: "dotted cs = hd (dotted cs) # tl (dotted cs)" by simp
  have "CHR ''.'' # hd (dotted cs) @ concat (map (\<lambda>p. CHR ''.'' # p) (tl (dotted cs))) = CHR ''.'' # cs"
    using Cons by (subst (asm) *) (simp del: list.collapse)
  then show ?case using Cons by auto
qed simp

lemma pieces_last: "c \<notin> set t \<Longrightarrow> pieces (\<lambda>x. x = c) (s @ c # t) = pieces (\<lambda>x. x = c) s @ [t]"
proof (induction s)
  case Nil
  have "pieces (\<lambda>x. x = c) (t @ []) = [t]" using Nil by (subst pieces_run) auto
  then show ?case by simp
next
  case (Cons x s)
  then show ?case by (cases "pieces (\<lambda>x. x = c) s") auto
qed

text \<open>
  The Kotlin package of a file is its Java class name without the last component, and
  the empty package for a class name without a dot.
\<close>

theorem ServiceKotlinPackage_components:
  "ServiceKotlinPackage env file = join_dots (butlast (dotted (java_file_class env file)))"
proof (cases "CHR ''.'' \<in> set (java_file_class env file)")
  case True
  then obtain s t where st: "java_file_class env file = s @ CHR ''.'' # t" "CHR ''.'' \<notin> set t"
    by (metis split_list_last)
  then show ?thesis
    using concat_pieces [of s]
    by (simp add: ServiceKotlinPackage_def Let_def find_last_of_split pieces_last join_dots_def)
next
  case False
  have "pieces (\<lambda>x. x = CHR ''.'') (java_file_class env file @ []) = [java_file_class env file]"
    using False by (subst pieces_run) auto
  then show ?thesis
    using False by (simp add: ServiceKotlinPackage_def Let_def find_last_of_None join_dots_def)
qed

text \<open>
  The directory of a package has one component, closed by a slash, for each component
  of the package; the empty package has no directory.
\<close>

theorem KotlinPackageToDir_components:
  "KotlinPackageToDir package_name =
     (if package_name = [] then []
      else concat (map (\<lambda>p. p @ ''/'') (dotted package_name)))"
proof -
  have "map (\<lambda>c. if c = CHR ''.'' then CHR ''/'' else c) s @ ''/'' =
      concat (map (\<lambda>p. p @ ''/'') (dotted s))" for s
  proof (induction s)
    case (Cons c cs)
    have *: "dotted cs = hd (dotted cs) # tl (dotted cs)" by simp
    have "map (\<lambda>c. if c = CHR ''.'' then CHR ''/'' else c) cs @ ''/'' =
        hd (dotted cs) @ ''/'' @ concat (map (\<lambda>p. p @ ''/'') (tl (dotted cs)))"
      using Cons by (subst (asm) *) (simp del: list.collapse)
    then show ?case using Cons by simp
  qed simp
  then show ?thesis by (simp add: KotlinPackageToDir_map)
qed

end
