(* ===== verification/KotlinLex.thy ===== *)
theory KotlinLex
  imports Prelude
begin

text \<open>
  A lexical reference for the text the generator writes: a Kotlin lexer that knows brackets,
  string literals, line comments and nested block comments. \<open>klex\<close> runs it; a text is
  \<open>kotlin_balanced\<close> when the lexer, started in code at bracket depth zero, ends in code at
  bracket depth zero: every bracket is closed by its own kind, every string literal on its
  line, every comment before the text ends. Indentation does not matter to it, which is
  what allows statements about the text a printer writes without fixing its layout.
\<close>

section \<open>Character classes\<close>

datatype bracket = Round | Curly | Square

datatype char_class =
  CPlain | COpen bracket | CClose bracket | CQuote | CSlash | CStar | CBack | CNewline | CDollar

definition cls :: "char \<Rightarrow> char_class" where
  "cls c =
     (if c = CHR ''('' then COpen Round else if c = CHR '')'' then CClose Round
      else if c = CHR ''{'' then COpen Curly else if c = CHR ''}'' then CClose Curly
      else if c = CHR ''['' then COpen Square else if c = CHR '']'' then CClose Square
      else if c = CHR 0x22 then CQuote else if c = CHR ''/'' then CSlash
      else if c = CHR ''*'' then CStar else if c = CHR 0x5C then CBack
      else if c = newline then CNewline else if c = CHR ''$'' then CDollar
      else CPlain)"

text \<open>The class of every printable character, as rewrite rules for closed texts.\<close>

lemma cls_table [lex_simps]:
  "cls (CHR '' '') = CPlain" "cls (CHR ''!'') = CPlain" "cls (CHR 0x22) = CQuote"
  "cls (CHR ''#'') = CPlain" "cls (CHR ''$'') = CDollar" "cls (CHR ''%'') = CPlain"
  "cls (CHR ''&'') = CPlain" "cls (CHR 0x27) = CPlain" "cls (CHR ''('') = COpen Round"
  "cls (CHR '')'') = CClose Round" "cls (CHR ''*'') = CStar" "cls (CHR ''+'') = CPlain"
  "cls (CHR '','') = CPlain" "cls (CHR ''-'') = CPlain" "cls (CHR ''.'') = CPlain"
  "cls (CHR ''/'') = CSlash" "cls (CHR ''0'') = CPlain" "cls (CHR ''1'') = CPlain"
  "cls (CHR ''2'') = CPlain" "cls (CHR ''3'') = CPlain" "cls (CHR ''4'') = CPlain"
  "cls (CHR ''5'') = CPlain" "cls (CHR ''6'') = CPlain" "cls (CHR ''7'') = CPlain"
  "cls (CHR ''8'') = CPlain" "cls (CHR ''9'') = CPlain" "cls (CHR '':'') = CPlain"
  "cls (CHR '';'') = CPlain" "cls (CHR ''<'') = CPlain" "cls (CHR ''='') = CPlain"
  "cls (CHR ''>'') = CPlain" "cls (CHR ''?'') = CPlain" "cls (CHR ''@'') = CPlain"
  "cls (CHR ''A'') = CPlain" "cls (CHR ''B'') = CPlain" "cls (CHR ''C'') = CPlain"
  "cls (CHR ''D'') = CPlain" "cls (CHR ''E'') = CPlain" "cls (CHR ''F'') = CPlain"
  "cls (CHR ''G'') = CPlain" "cls (CHR ''H'') = CPlain" "cls (CHR ''I'') = CPlain"
  "cls (CHR ''J'') = CPlain" "cls (CHR ''K'') = CPlain" "cls (CHR ''L'') = CPlain"
  "cls (CHR ''M'') = CPlain" "cls (CHR ''N'') = CPlain" "cls (CHR ''O'') = CPlain"
  "cls (CHR ''P'') = CPlain" "cls (CHR ''Q'') = CPlain" "cls (CHR ''R'') = CPlain"
  "cls (CHR ''S'') = CPlain" "cls (CHR ''T'') = CPlain" "cls (CHR ''U'') = CPlain"
  "cls (CHR ''V'') = CPlain" "cls (CHR ''W'') = CPlain" "cls (CHR ''X'') = CPlain"
  "cls (CHR ''Y'') = CPlain" "cls (CHR ''Z'') = CPlain" "cls (CHR ''['') = COpen Square"
  "cls (CHR 0x5C) = CBack" "cls (CHR '']'') = CClose Square" "cls (CHR ''^'') = CPlain"
  "cls (CHR ''_'') = CPlain" "cls (CHR 0x60) = CPlain" "cls (CHR ''a'') = CPlain"
  "cls (CHR ''b'') = CPlain" "cls (CHR ''c'') = CPlain" "cls (CHR ''d'') = CPlain"
  "cls (CHR ''e'') = CPlain" "cls (CHR ''f'') = CPlain" "cls (CHR ''g'') = CPlain"
  "cls (CHR ''h'') = CPlain" "cls (CHR ''i'') = CPlain" "cls (CHR ''j'') = CPlain"
  "cls (CHR ''k'') = CPlain" "cls (CHR ''l'') = CPlain" "cls (CHR ''m'') = CPlain"
  "cls (CHR ''n'') = CPlain" "cls (CHR ''o'') = CPlain" "cls (CHR ''p'') = CPlain"
  "cls (CHR ''q'') = CPlain" "cls (CHR ''r'') = CPlain" "cls (CHR ''s'') = CPlain"
  "cls (CHR ''t'') = CPlain" "cls (CHR ''u'') = CPlain" "cls (CHR ''v'') = CPlain"
  "cls (CHR ''w'') = CPlain" "cls (CHR ''x'') = CPlain" "cls (CHR ''y'') = CPlain"
  "cls (CHR ''z'') = CPlain" "cls (CHR ''{'') = COpen Curly" "cls (CHR ''|'') = CPlain"
  "cls (CHR ''}'') = CClose Curly" "cls (CHR ''~'') = CPlain" "cls (CHR 0x0A) = CNewline"
  by (simp_all add: cls_def)

lemma cls_eq_iff:
  "cls c = CStar \<longleftrightarrow> c = CHR ''*''" "cls c = CSlash \<longleftrightarrow> c = CHR ''/''"
  "cls c = CNewline \<longleftrightarrow> c = newline" "cls c = CDollar \<longleftrightarrow> c = CHR ''$''"
  by (auto simp: cls_def)

section \<open>The lexer\<close>

datatype comment_prev = PNone | PStar | PSlash

text \<open>
  Code, code after a slash, a string literal, an escape in one, a line comment, a block
  comment (its nesting depth and whether its last character may begin or end a marker),
  each with the brackets that are open, and the error state.
\<close>

datatype lex =
  LCode "bracket list" | LSlash "bracket list" | LStr "bracket list" | LEsc "bracket list"
| LLine "bracket list" | LCom nat comment_prev "bracket list" | LBad

fun close_bracket :: "bracket \<Rightarrow> bracket list \<Rightarrow> lex" where
  "close_bracket b [] = LBad"
| "close_bracket b (b' # s) = (if b = b' then LCode s else LBad)"

fun code_step :: "bracket list \<Rightarrow> char_class \<Rightarrow> lex" where
  "code_step s (COpen b) = LCode (b # s)"
| "code_step s (CClose b) = close_bracket b s"
| "code_step s CQuote = LStr s"
| "code_step s CSlash = LSlash s"
| "code_step s CBack = LBad"
| "code_step s _ = LCode s"

fun comment_step :: "nat \<Rightarrow> comment_prev \<Rightarrow> bracket list \<Rightarrow> char_class \<Rightarrow> lex" where
  "comment_step n PStar s CSlash = (case n of 0 \<Rightarrow> LCode s | Suc n' \<Rightarrow> LCom n' PNone s)"
| "comment_step n PSlash s CStar = LCom (Suc n) PNone s"
| "comment_step n _ s CStar = LCom n PStar s"
| "comment_step n _ s CSlash = LCom n PSlash s"
| "comment_step n _ s _ = LCom n PNone s"

fun lex_step :: "lex \<Rightarrow> char_class \<Rightarrow> lex" where
  "lex_step (LCode s) c = code_step s c"
| "lex_step (LSlash s) CSlash = LLine s"
| "lex_step (LSlash s) CStar = LCom 0 PNone s"
| "lex_step (LSlash s) c = code_step s c"
| "lex_step (LStr s) CQuote = LCode s"
| "lex_step (LStr s) CBack = LEsc s"
| "lex_step (LStr s) CNewline = LBad"
| "lex_step (LStr s) c = LStr s"
| "lex_step (LEsc s) CNewline = LBad"
| "lex_step (LEsc s) c = LStr s"
| "lex_step (LLine s) CNewline = LCode s"
| "lex_step (LLine s) c = LLine s"
| "lex_step (LCom n p s) c = comment_step n p s c"
| "lex_step LBad c = LBad"

primrec klex :: "lex \<Rightarrow> string \<Rightarrow> lex" where
  "klex k [] = k"
| "klex k (c # cs) = klex (lex_step k (cls c)) cs"

definition kotlin_balanced :: "string \<Rightarrow> bool" where
  "kotlin_balanced outp \<longleftrightarrow> klex (LCode []) outp = LCode []"

interpretation klex: list_machine klex
  by unfold_locales simp_all

lemma klex_LBad [simp]: "klex LBad s = LBad"
  by (rule klex.run_stuck) simp

section \<open>Texts the lexer does not notice\<close>

definition code_clean :: "string \<Rightarrow> bool" where
  "code_clean v \<longleftrightarrow> (\<forall>c\<in>set v. cls c = CPlain)"

definition str_clean :: "string \<Rightarrow> bool" where
  "str_clean v \<longleftrightarrow> (\<forall>c\<in>set v. cls c \<noteq> CQuote \<and> cls c \<noteq> CBack \<and> cls c \<noteq> CNewline)"

lemma code_clean_code: "code_clean v \<Longrightarrow> klex (LCode s) v = LCode s"
  by (rule klex.run_neutral) (simp add: code_clean_def)

lemma str_clean_str: "str_clean v \<Longrightarrow> klex (LStr s) v = LStr s"
proof (rule klex.run_neutral)
  fix c assume "str_clean v" "c \<in> set v"
  then show "klex (LStr s) [c] = LStr s" by (cases "cls c") (auto simp: str_clean_def)
qed

lemma code_clean_str_clean: "code_clean v \<Longrightarrow> str_clean v"
  by (auto simp: code_clean_def str_clean_def)

lemma code_clean_append [clean_simps]: "code_clean (u @ v) \<longleftrightarrow> code_clean u \<and> code_clean v"
  by (auto simp: code_clean_def)

lemma code_clean_Nil [clean_simps]: "code_clean []"
  by (simp add: code_clean_def)

lemma code_clean_Cons [clean_simps]: "code_clean (c # v) \<longleftrightarrow> cls c = CPlain \<and> code_clean v"
  by (simp add: code_clean_def)

lemma str_clean_append [clean_simps]: "str_clean (u @ v) \<longleftrightarrow> str_clean u \<and> str_clean v"
  by (auto simp: str_clean_def)

lemma str_clean_Nil [clean_simps]: "str_clean []"
  by (simp add: str_clean_def)

lemma str_clean_Cons [clean_simps]:
  "str_clean (c # v) \<longleftrightarrow> cls c \<noteq> CQuote \<and> cls c \<noteq> CBack \<and> cls c \<noteq> CNewline \<and> str_clean v"
  by (simp add: str_clean_def)

lemma cls_special:
  "cls c \<noteq> CPlain \<Longrightarrow> c \<in> {CHR ''('', CHR '')'', CHR ''{'', CHR ''}'', CHR ''['', CHR '']'',
     CHR 0x22, CHR ''/'', CHR ''*'', CHR 0x5C, newline, CHR ''$''}"
proof (rule ccontr)
  assume *: "cls c \<noteq> CPlain"
  assume "\<not> ?thesis"
  then have "cls c = CPlain" by (simp add: cls_def)
  with * show False by simp
qed

lemma cls_letter: "islower c \<or> isupper c \<Longrightarrow> cls c = CPlain"
  using cls_special [of c] by (elim disjE) (fastforce simp: islower_def isupper_def)+

lemma cls_case_change:
  "cls c = CPlain \<Longrightarrow> cls (toupper c) = CPlain" "cls c = CPlain \<Longrightarrow> cls (tolower c) = CPlain"
  using cls_letter isupper_toupper islower_tolower by (metis toupper_def tolower_def)+

text \<open>Inside a block comment only the two-character markers matter.\<close>

lemma klex_comment_text:
  assumes "\<not> has_pair (CHR ''*'') (CHR ''/'') l" "\<not> has_pair (CHR ''/'') (CHR ''*'') l"
    and "p = PStar \<longrightarrow> l = [] \<or> hd l \<noteq> CHR ''/''" "p = PSlash \<longrightarrow> l = [] \<or> hd l \<noteq> CHR ''*''"
  shows "\<exists>p'. klex (LCom n p s) l = LCom n p' s"
  using assms
proof (induction l arbitrary: p)
  case Nil
  show ?case by simp
next
  case (Cons c l)
  have "\<exists>q. lex_step (LCom n p s) (cls c) = LCom n q s
      \<and> (q = PStar \<longrightarrow> c = CHR ''*'') \<and> (q = PSlash \<longrightarrow> c = CHR ''/'')"
    using Cons.prems(3,4) by (cases p; cases "cls c") (auto dest: cls_eq_iff [THEN iffD1])
  then obtain q where q: "lex_step (LCom n p s) (cls c) = LCom n q s"
    "q = PStar \<longrightarrow> c = CHR ''*''" "q = PSlash \<longrightarrow> c = CHR ''/''" by blast
  have "\<exists>p'. klex (LCom n q s) l = LCom n p' s"
    using Cons.prems(1,2) q by (intro Cons.IH) auto
  with q(1) show ?case by simp
qed

section \<open>Indentation\<close>

text \<open>\<open>strip_lead\<close> removes the spaces at the beginning of every line.\<close>

fun strip_lead :: "bool \<Rightarrow> string \<Rightarrow> string" where
  "strip_lead at_start [] = []"
| "strip_lead at_start (c # cs) =
     (if at_start \<and> c = CHR '' '' then strip_lead True cs
      else c # strip_lead (c = newline) cs)"

definition space_neutral :: "lex \<Rightarrow> bool" where
  "space_neutral k \<longleftrightarrow> lex_step k CPlain = k"

lemma space_neutral_newline: "space_neutral (lex_step k CNewline)"
proof (cases k)
  case (LCom n p s)
  then show ?thesis by (cases p) (simp_all add: space_neutral_def)
qed (simp_all add: space_neutral_def)

lemma klex_strip_lead: "(b \<longrightarrow> space_neutral k) \<Longrightarrow> klex k (strip_lead b cs) = klex k cs"
proof (induction cs arbitrary: b k)
  case Nil
  show ?case by simp
next
  case (Cons c cs)
  show ?case
  proof (cases "b \<and> c = CHR '' ''")
    case True
    with Cons.prems have "lex_step k (cls c) = k" by (simp add: cls_table space_neutral_def)
    with True Cons show ?thesis by simp
  next
    case False
    have "(c = newline) \<longrightarrow> space_neutral (lex_step k (cls c))"
      using space_neutral_newline by (simp add: cls_table)
    with False Cons.IH [of "c = newline" "lex_step k (cls c)"] show ?thesis by auto
  qed
qed

lemma kotlin_balanced_layout:
  assumes "strip_lead True a = strip_lead True b"
  shows "kotlin_balanced a \<longleftrightarrow> kotlin_balanced b"
proof -
  have "klex (LCode []) x = klex (LCode []) (strip_lead True x)" for x
    by (rule klex_strip_lead [symmetric]) (simp add: space_neutral_def)
  with assms show ?thesis unfolding kotlin_balanced_def by metis
qed

lemmas klex_eval = klex.simps lex_step.simps code_step.simps comment_step.simps
  close_bracket.simps cls_table

end
