(* ===== verification/PrinterCalls.thy ===== *)
theory PrinterCalls
  imports KotlinLex
begin

text \<open>
  What the generator does to the outside world. The functions of \<open>kotlin_generator.cpp\<close>
  are procedures over \<open>std::map<string, string>* vars\<close> and a protobuf \<open>io::Printer\<close>: they
  store into the map and call \<open>Print\<close>, \<open>Indent\<close> and \<open>Outdent\<close>, and never read either
  back. Each is modelled by the list of these actions in program order. The printer itself
  is third-party code: it appears acts an unknown function from its calls to the text it
  writes, of which only documented behaviour is ever assumed.

  Three analyses run over the actions: which variables a template may use, how deep the
  indentation is, and what the Kotlin lexer makes of the text.
\<close>

section \<open>Actions and calls\<close>

type_synonym vars = "string \<Rightarrow> string option"

text \<open>
  \<open>Store k v\<close> is \<open>(*vars)[k] = v\<close>; \<open>Print t\<close> is \<open>p->Print(*vars, t)\<close>;
  \<open>PrintWith args t\<close> is \<open>p->Print(t, name, value, ...)\<close>, with no pairs for \<open>p->Print(t)\<close>, written \<open>PrintText t\<close>.
\<close>

datatype action =
  Store string string
| Print string
| PrintWith "(string \<times> string) list" string
| Indent
| Outdent

abbreviation PrintText :: "string \<Rightarrow> action" where
  "PrintText t \<equiv> PrintWith [] t"

datatype call = CallPrint vars string | CallIndent | CallOutdent

fun calls :: "vars \<Rightarrow> action list \<Rightarrow> call list" where
  "calls m [] = []"
| "calls m (Store k v # acts) = calls (m(k \<mapsto> v)) acts"
| "calls m (Print t # acts) = CallPrint m t # calls m acts"
| "calls m (PrintWith args t # acts) = CallPrint (map_of args) t # calls m acts"
| "calls m (Indent # acts) = CallIndent # calls m acts"
| "calls m (Outdent # acts) = CallOutdent # calls m acts"

fun stored :: "vars \<Rightarrow> action list \<Rightarrow> vars" where
  "stored m [] = m"
| "stored m (Store k v # acts) = stored (m(k \<mapsto> v)) acts"
| "stored m (_ # acts) = stored m acts"

lemma stored_append: "stored m (acts @ bs) = stored (stored m acts) bs"
  by (induction m acts rule: stored.induct) (simp_all del: fun_upd_apply)

lemma calls_append: "calls m (acts @ bs) = calls m acts @ calls (stored m acts) bs"
  by (induction m acts rule: calls.induct) (simp_all del: fun_upd_apply)

section \<open>Templates\<close>

text \<open>
  The documented substitution: a name between two delimiters stands for the variable's
  value. A template with an unknown or empty name, or with a delimiter that is not closed,
  has no expansion (the printer aborts on it).
\<close>

fun expand_lit :: "vars \<Rightarrow> string \<Rightarrow> string option"
  and expand_var :: "vars \<Rightarrow> string \<Rightarrow> string \<Rightarrow> string option" where
  "expand_lit m [] = Some []"
| "expand_lit m (c # cs) =
     (if c = CHR ''$'' then expand_var m [] cs else map_option ((#) c) (expand_lit m cs))"
| "expand_var m name [] = None"
| "expand_var m name (c # cs) =
     (if c = CHR ''$'' then
        (case m (rev name) of
           Some v \<Rightarrow> if name = [] then None else map_option ((@) v) (expand_lit m cs)
         | None \<Rightarrow> None)
      else expand_var m (c # name) cs)"

definition expand :: "vars \<Rightarrow> string \<Rightarrow> string option" where
  "expand m t = expand_lit m t"

fun raw_text :: "call list \<Rightarrow> string option" where
  "raw_text [] = Some []"
| "raw_text (CallPrint m t # cs) =
     (case expand m t of
        None \<Rightarrow> None
      | Some s \<Rightarrow> map_option ((@) s) (raw_text cs))"
| "raw_text (_ # cs) = raw_text cs"

lemma raw_text_append:
  "raw_text (xs @ ys) =
     (case raw_text xs of None \<Rightarrow> None | Some s \<Rightarrow> map_option ((@) s) (raw_text ys))"
proof (induction xs rule: raw_text.induct)
  case 1
  show ?case by (cases "raw_text ys") simp_all
next
  case (2 m t cs)
  then show ?case
    by (cases "expand m t"; cases "raw_text cs"; cases "raw_text ys") simp_all
qed simp_all

section \<open>Indentation depth\<close>

text \<open>
  \<open>Outdent\<close> must match an \<open>Indent\<close>: \<open>None\<close> is a call of \<open>Outdent\<close> at depth 0, which the
  printer reports acts an error.
\<close>

fun depth_call :: "nat option \<Rightarrow> call \<Rightarrow> nat option" where
  "depth_call None _ = None"
| "depth_call (Some n) CallIndent = Some (Suc n)"
| "depth_call (Some (Suc n)) CallOutdent = Some n"
| "depth_call (Some 0) CallOutdent = None"
| "depth_call (Some n) (CallPrint _ _) = Some n"

definition depth_of_calls :: "nat option \<Rightarrow> call list \<Rightarrow> nat option" where
  "depth_of_calls d cs = foldl depth_call d cs"

fun depth_action :: "nat option \<Rightarrow> action \<Rightarrow> nat option" where
  "depth_action None _ = None"
| "depth_action (Some n) Indent = Some (Suc n)"
| "depth_action (Some (Suc n)) Outdent = Some n"
| "depth_action (Some 0) Outdent = None"
| "depth_action (Some n) _ = Some n"

definition depth :: "nat option \<Rightarrow> action list \<Rightarrow> nat option" where
  "depth d acts = foldl depth_action d acts"

interpretation depth: list_machine depth
  by unfold_locales (simp_all add: depth_def)

lemma depth_simps [acts_simps]:
  "depth d [] = d"
  "depth (Some n) (Indent # acts) = depth (Some (Suc n)) acts"
  "depth (Some (Suc n)) (Outdent # acts) = depth (Some n) acts"
  "depth (Some 0) (Outdent # acts) = None"
  "depth (Some n) (Store k v # acts) = depth (Some n) acts"
  "depth (Some n) (Print t # acts) = depth (Some n) acts"
  "depth (Some n) (PrintWith args t # acts) = depth (Some n) acts"
  "depth None acts = None"
proof -
  show "depth None acts = None" by (rule depth.run_stuck) (simp add: depth_def)
  then show "depth (Some 0) (Outdent # acts) = None" by (simp add: depth_def)
qed (simp_all add: depth_def)

lemma depth_calls: "depth_of_calls d (calls m acts) = depth d acts"
proof (induction acts arbitrary: d m)
  case Nil
  show ?case by (simp add: depth_of_calls_def depth_def)
next
  case (Cons a acts)
  have "depth_call (Some n) CallOutdent = depth_action (Some n) Outdent" for n
    by (cases n) simp_all
  then have "depth_of_calls d (calls m (a # acts)) = depth (depth_action d a) acts"
    using Cons.IH by (cases a; cases d) (auto simp: depth_of_calls_def depth_simps(8))
  then show ?case by (simp add: depth_def)
qed

section \<open>The printer's contract\<close>

text \<open>
  A use of the printer is legal when every template has an expansion and no \<open>Outdent\<close>
  lacks its \<open>Indent\<close>. On a legal sequence of calls the printer writes the expansions, each
  line indented by some spaces: its documentation promises two per level at the beginning
  of each line, and nothing below depends on how many.
\<close>

definition legal_use :: "call list \<Rightarrow> bool" where
  "legal_use cs \<longleftrightarrow> raw_text cs \<noteq> None \<and> depth_of_calls (Some 0) cs \<noteq> None"

definition documented_printer :: "(call list \<Rightarrow> string) \<Rightarrow> bool" where
  "documented_printer written \<longleftrightarrow>
     (\<forall>cs outp. legal_use cs \<and> raw_text cs = Some outp \<longrightarrow>
        strip_lead True (written cs) = strip_lead True outp)"

section \<open>Defined variables\<close>

text \<open>
  \<open>template_ok D t\<close>: every variable of the template is in \<open>D\<close>, every delimiter is closed.
\<close>

datatype tscan = TLit | TVar string | TFail

fun tscan_end :: "bool \<Rightarrow> tscan" where
  "tscan_end True = TLit"
| "tscan_end False = TFail"

fun tscan_class :: "(string \<Rightarrow> bool) \<Rightarrow> string \<Rightarrow> char \<Rightarrow> char_class \<Rightarrow> tscan" where
  "tscan_class D name c CDollar = tscan_end (name \<noteq> [] \<and> D (rev name))"
| "tscan_class D name c _ = TVar (c # name)"

fun tscan_lit :: "char_class \<Rightarrow> tscan" where
  "tscan_lit CDollar = TVar []"
| "tscan_lit _ = TLit"

fun tscan_step :: "(string \<Rightarrow> bool) \<Rightarrow> tscan \<Rightarrow> char \<Rightarrow> tscan" where
  "tscan_step D TLit c = tscan_lit (cls c)"
| "tscan_step D (TVar name) c = tscan_class D name c (cls c)"
| "tscan_step D TFail c = TFail"

primrec tscan_run :: "(string \<Rightarrow> bool) \<Rightarrow> tscan \<Rightarrow> string \<Rightarrow> tscan" where
  "tscan_run D k [] = k"
| "tscan_run D k (c # cs) = tscan_run D (tscan_step D k c) cs"

definition template_ok :: "(string \<Rightarrow> bool) \<Rightarrow> string \<Rightarrow> bool" where
  "template_ok D t \<longleftrightarrow> tscan_run D TLit t = TLit"

interpretation tscan: list_machine "tscan_run D" for D
  by unfold_locales simp_all

lemma tscan_run_TFail [simp]: "tscan_run D TFail cs = TFail"
  by (rule tscan.run_stuck) simp

lemma template_expands_aux:
  "(tscan_run D TLit t = TLit \<longrightarrow> expand_lit m t \<noteq> None) \<and>
   (tscan_run D (TVar name) t = TLit \<longrightarrow> expand_var m name t \<noteq> None)"
  if "\<And>n. D n \<Longrightarrow> m n \<noteq> None"
proof (induction t arbitrary: name)
  case Nil
  show ?case by simp
next
  case (Cons c cs)
  show ?case
  proof (cases "c = CHR ''$''")
    case True
    have IH: "tscan_run D TLit cs = TLit \<longrightarrow> expand_lit m cs \<noteq> None"
      "tscan_run D (TVar []) cs = TLit \<longrightarrow> expand_var m [] cs \<noteq> None" using Cons by blast+
    show ?thesis using IH that [of "rev name"]
      by (cases "name \<noteq> [] \<and> D (rev name)") (auto simp: True cls_table split: option.splits)
  next
    case False
    then have c: "cls c \<noteq> CDollar" using cls_eq_iff(4) by blast
    have "tscan_lit (cls c) = TLit" "tscan_class D name c (cls c) = TVar (c # name)"
      using c by (cases "cls c"; simp)+
    then show ?thesis using Cons [of "c # name"] False by auto
  qed
qed

lemma template_expands:
  assumes "template_ok D t" "\<And>n. D n \<Longrightarrow> m n \<noteq> None"
  shows "expand m t \<noteq> None"
  using template_expands_aux [of D m t] assms by (auto simp: template_ok_def expand_def)

lemma template_ok_mono_aux:
  assumes "\<And>n. D n \<Longrightarrow> E n"
  shows "tscan_run D k t = TLit \<Longrightarrow> tscan_run E k t = TLit"
proof (induction t arbitrary: k)
  case Nil
  then show ?case by simp
next
  case (Cons c cs)
  show ?case
  proof (cases "tscan_step D k c = tscan_step E k c")
    case True
    with Cons show ?thesis by simp
  next
    case False
    have "tscan_step D k c = TFail \<or> tscan_step D k c = tscan_step E k c"
    proof (cases k)
      case (TVar name)
      then show ?thesis using assms [of "rev name"]
        by (cases "cls c"; cases "name \<noteq> [] \<and> D (rev name)") auto
    qed simp_all
    with False Cons.prems show ?thesis by simp
  qed
qed

lemma template_ok_mono:
  "template_ok D t \<Longrightarrow> (\<And>n. D n \<Longrightarrow> E n) \<Longrightarrow> template_ok E t"
  unfolding template_ok_def by (rule template_ok_mono_aux)

text \<open>\<open>all_defined D acts\<close>: with the variables in \<open>D\<close> set, every print of the actions is fully defined.\<close>

fun all_defined :: "(string \<Rightarrow> bool) \<Rightarrow> action list \<Rightarrow> bool" where
  "all_defined D [] = True"
| "all_defined D (Store k v # acts) = all_defined (D(k := True)) acts"
| "all_defined D (Print t # acts) = (template_ok D t \<and> all_defined D acts)"
| "all_defined D (PrintWith args t # acts) =
     (template_ok (\<lambda>n. n \<in> fst ` set args) t \<and> all_defined D acts)"
| "all_defined D (Indent # acts) = all_defined D acts"
| "all_defined D (Outdent # acts) = all_defined D acts"

fun known_after :: "(string \<Rightarrow> bool) \<Rightarrow> action list \<Rightarrow> string \<Rightarrow> bool" where
  "known_after D [] = D"
| "known_after D (Store k v # acts) = known_after (D(k := True)) acts"
| "known_after D (_ # acts) = known_after D acts"

lemma known_after_grows: "D n \<Longrightarrow> known_after D acts n"
  by (induction D acts rule: known_after.induct) auto

lemma all_defined_append: "all_defined D (acts @ bs) \<longleftrightarrow> all_defined D acts \<and> all_defined (known_after D acts) bs"
  by (induction D acts rule: all_defined.induct) (simp_all del: fun_upd_apply)

lemma all_defined_mono: "all_defined D acts \<Longrightarrow> (\<And>n. D n \<Longrightarrow> E n) \<Longrightarrow> all_defined E acts"
proof (induction D acts arbitrary: E rule: all_defined.induct)
  case (2 D k v acts)
  have "all_defined (E(k := True)) acts"
  proof (rule "2.IH")
    show "all_defined (D(k := True)) acts" using "2.prems"(1) by (simp only: all_defined.simps)
    show "(E(k := True)) n" if "(D(k := True)) n" for n
      using that "2.prems"(2) [of n] by (auto split: if_splits)
  qed
  then show ?case by (simp only: all_defined.simps)
next
  case (3 D t acts)
  then show ?case using template_ok_mono [of D t E] by simp
qed simp_all

lemma all_defined_loop:
  assumes "\<And>x. x \<in> set xs \<Longrightarrow> all_defined D (body x)"
  shows "all_defined D (concat (map body xs))"
  using assms
proof (induction xs)
  case Nil
  show ?case by simp
next
  case (Cons x xs)
  then have "all_defined D (concat (map body xs))" by simp
  then have "all_defined (known_after D (body x)) (concat (map body xs))"
    by (rule all_defined_mono) (rule known_after_grows)
  with Cons show ?case by (simp add: all_defined_append)
qed

lemma all_defined_append_mono: "all_defined D acts \<Longrightarrow> all_defined D bs \<Longrightarrow> all_defined D (acts @ bs)"
  unfolding all_defined_append using all_defined_mono known_after_grows by blast

lemma known_after_append [acts_simps]: "known_after D (acts @ bs) = known_after (known_after D acts) bs"
  by (induction D acts rule: known_after.induct) (simp_all del: fun_upd_apply)

lemma all_defined_after:
  assumes "all_defined D acts" "\<And>n. K n \<Longrightarrow> known_after D acts n" "all_defined K bs"
  shows "all_defined D (acts @ bs)"
  unfolding all_defined_append using assms all_defined_mono by blast

lemma all_defined_if:
  "all_defined D acts \<Longrightarrow> all_defined D bs \<Longrightarrow> all_defined D (if c then acts else bs)"
  by simp

lemma all_defined_raw_text:
  assumes "all_defined D acts" "\<And>n. D n \<Longrightarrow> m n \<noteq> None"
  shows "raw_text (calls m acts) \<noteq> None"
  using assms
proof (induction D acts arbitrary: m rule: all_defined.induct)
  case (2 D k v acts)
  have "raw_text (calls (m(k \<mapsto> v)) acts) \<noteq> None"
  proof (rule "2.IH")
    show "all_defined (D(k := True)) acts" using "2.prems"(1) by (simp only: all_defined.simps)
    show "(m(k \<mapsto> v)) n \<noteq> None" if "(D(k := True)) n" for n
      using that "2.prems"(2) [of n] by (auto split: if_splits)
  qed
  then show ?case by (simp del: fun_upd_apply)
next
  case (3 D t acts)
  then show ?case using template_expands [of D t m] by (auto split: option.splits)
next
  case (4 D args t acts)
  have "expand (map_of args) t \<noteq> None"
    using 4(2) by (intro template_expands) (auto simp: map_of_eq_None_iff)
  then show ?case using 4 by (auto split: option.splits)
qed simp_all

section \<open>Lexing templates\<close>

text \<open>
  The lexer on a template, with the values left open: a value of a variable that may hold
  arbitrary text (\<open>str_only\<close>) must stand inside a string literal; any other value is made of
  plain characters only and may stand in code or in a string literal.
\<close>

definition str_only :: "string \<Rightarrow> bool" where
  "str_only n \<longleftrightarrow> n = ''file_name'' \<or> n = ''rsocket_rpc_version'' \<or> n = ''version''"

text \<open>The variables of the generator's templates.\<close>

lemma str_only_table [lex_simps]:
  "\<not> str_only ''AbstractRSocketService''"
  "\<not> str_only ''AtomicBoolean''"
  "\<not> str_only ''Function''"
  "\<not> str_only ''Inject''"
  "\<not> str_only ''Named''"
  "\<not> str_only ''Package''"
  "\<not> str_only ''RSocket''"
  "\<not> str_only ''StreamSplitter''"
  "\<not> str_only ''client_class_name''"
  "\<not> str_only ''from''"
  "\<not> str_only ''method_name''"
  "\<not> str_only ''CodedOutputStream''"
  "\<not> str_only ''HashMap''"
  "\<not> str_only ''Parser''"
  "\<not> str_only ''RSocketRpcGenerated''"
  "\<not> str_only ''RSocketRpcResourceType''"
  "\<not> str_only ''Tracer''"
  "\<not> str_only ''server_class_name''"
  "str_only ''version''"
  "\<not> str_only ''Empty''"
  "\<not> str_only ''Generated''"
  "str_only ''file_name''"
  "\<not> str_only ''package_name''"
  "str_only ''rsocket_rpc_version''"
  "\<not> str_only ''MessageLite''"
  "\<not> str_only ''Publisher''"
  "\<not> str_only ''SpanContext''"
  "\<not> str_only ''CodedInputStream''"
  "\<not> str_only ''DefaultPayload''"
  "\<not> str_only ''ByteBuf''"
  "\<not> str_only ''Map''"
  "\<not> str_only ''Tag''"
  "\<not> str_only ''RSocketRpcGeneratedMethod''"
  "\<not> str_only ''RSocketRpcMetadata''"
  "\<not> str_only ''service_field_name''"
  "\<not> str_only ''ByteBufAllocator''"
  "\<not> str_only ''Completable''"
  "\<not> str_only ''Unpooled''"
  "\<not> str_only ''RSocketRpcTracing''"
  "\<not> str_only ''input_type''"
  "\<not> str_only ''method_field_name''"
  "\<not> str_only ''Single''"
  "\<not> str_only ''Flowable''"
  "\<not> str_only ''Payload''"
  "\<not> str_only ''service_name''"
  "\<not> str_only ''output_type''"
  "\<not> str_only ''lower_method_name''"
  by (simp_all add: str_only_def)

definition clean_value :: "string \<Rightarrow> string \<Rightarrow> bool" where
  "clean_value n v \<longleftrightarrow> (if str_only n then str_clean v else code_clean v)"

datatype tlex = TText lex | TName string lex

fun tlex_use :: "bool \<Rightarrow> lex \<Rightarrow> tlex" where
  "tlex_use _ (LStr s) = TText (LStr s)"
| "tlex_use False (LCode s) = TText (LCode s)"
| "tlex_use _ _ = TText LBad"

fun tlex_class :: "string \<Rightarrow> lex \<Rightarrow> char \<Rightarrow> char_class \<Rightarrow> tlex" where
  "tlex_class name k c CDollar = tlex_use (str_only (rev name)) k"
| "tlex_class name k c _ = TName (c # name) k"

fun tlex_lit :: "lex \<Rightarrow> char_class \<Rightarrow> tlex" where
  "tlex_lit k CDollar = TName [] k"
| "tlex_lit k c = TText (lex_step k c)"

fun tlex_step :: "tlex \<Rightarrow> char \<Rightarrow> tlex" where
  "tlex_step (TText k) c = tlex_lit k (cls c)"
| "tlex_step (TName name k) c = tlex_class name k c (cls c)"

primrec tlex_run :: "tlex \<Rightarrow> string \<Rightarrow> tlex" where
  "tlex_run k [] = k"
| "tlex_run k (c # cs) = tlex_run (tlex_step k c) cs"

fun tlex_final :: "tlex \<Rightarrow> lex" where
  "tlex_final (TText k) = k"
| "tlex_final (TName _ _) = LBad"

definition tlex :: "lex \<Rightarrow> string \<Rightarrow> lex" where
  "tlex k t = tlex_final (tlex_run (TText k) t)"

interpretation tlex: list_machine tlex_run
  by unfold_locales simp_all

definition clean_vars :: "vars \<Rightarrow> bool" where
  "clean_vars m \<longleftrightarrow> (\<forall>n v. m n = Some v \<longrightarrow> clean_value n v)"

lemma tlex_run_LBad:
  "tlex_final (tlex_run (TText LBad) t) = LBad" "tlex_final (tlex_run (TName n LBad) t) = LBad"
proof (induction t arbitrary: n)
  case Nil
  show "tlex_final (tlex_run (TText LBad) []) = LBad"
    and "tlex_final (tlex_run (TName n LBad) []) = LBad" for n by simp_all
next
  case (Cons c cs)
  have "tlex_lit LBad (cls c) = TText LBad \<or> tlex_lit LBad (cls c) = TName [] LBad"
    by (cases "cls c") simp_all
  then show "tlex_final (tlex_run (TText LBad) (c # cs)) = LBad" using Cons by auto
  have "tlex_class n LBad c (cls c) = TText LBad \<or> tlex_class n LBad c (cls c) = TName (c # n) LBad"
    by (cases "cls c"; cases "str_only (rev n)") simp_all
  then show "tlex_final (tlex_run (TName n LBad) (c # cs)) = LBad" for n using Cons
    by (cases "cls c"; cases "str_only (rev n)") simp_all
qed

lemma tlex_use_value:
  assumes "clean_value n v" "tlex_use (str_only n) k = TText k'" "k' \<noteq> LBad"
  shows "klex k v = k'"
  using assms code_clean_code str_clean_str code_clean_str_clean
  by (cases "str_only n"; cases k) (auto simp: clean_value_def)

lemma tlex_sound_aux:
  assumes "clean_vars m"
  shows "(\<forall>s. tlex_final (tlex_run (TText k) t) \<noteq> LBad \<longrightarrow> expand_lit m t = Some s \<longrightarrow>
            klex k s = tlex_final (tlex_run (TText k) t)) \<and>
         (\<forall>s. tlex_final (tlex_run (TName name k) t) \<noteq> LBad \<longrightarrow> expand_var m name t = Some s \<longrightarrow>
            klex k s = tlex_final (tlex_run (TName name k) t))"
proof (induction t arbitrary: k name)
  case Nil
  show ?case by simp
next
  case (Cons c cs)
  show ?case
  proof (cases "c = CHR ''$''")
    case True
    then have c: "cls c = CDollar" by (simp add: cls_table)
    obtain k' where k': "tlex_use (str_only (rev name)) k = TText k'"
      by (cases "str_only (rev name)"; cases k) simp_all
    have use: "klex k (v @ s) = tlex_final (tlex_run (TText k') cs)"
      if "tlex_final (tlex_run (TText k') cs) \<noteq> LBad" "m (rev name) = Some v"
        "expand_lit m cs = Some s" for v s
    proof -
      have "k' \<noteq> LBad" using that(1) tlex_run_LBad(1) by auto
      moreover have "clean_value (rev name) v" using assms that(2) by (simp add: clean_vars_def)
      ultimately have "klex k v = k'" using k' tlex_use_value by blast
      then show ?thesis using Cons that by (simp add: klex.run_append)
    qed
    have steps: "tlex_step (TText k) c = TName [] k" "tlex_step (TName name k) c = TText k'"
      using c k' by simp_all
    show ?thesis using Cons [of k "[]"] use unfolding tlex_run.simps steps
      by (auto simp: True split: option.splits if_splits)
  next
    case False
    then have c: "cls c \<noteq> CDollar" using cls_eq_iff(4) by blast
    have "tlex_lit k (cls c) = TText (lex_step k (cls c))"
      "tlex_class name k c (cls c) = TName (c # name) k"
      using c by (cases "cls c"; simp)+
    then show ?thesis using Cons [of k "c # name"] Cons [of "lex_step k (cls c)" name] False by auto
  qed
qed

lemma tlex_sound:
  assumes "clean_vars m" "expand m t = Some s" "tlex k t \<noteq> LBad"
  shows "klex k s = tlex k t"
  using tlex_sound_aux [OF assms(1), of k t "[]"] assms(2,3) by (simp add: tlex_def expand_def)

text \<open>The lexer over actions; stores must keep the variables clean.\<close>

fun alex_action :: "lex \<Rightarrow> action \<Rightarrow> lex" where
  "alex_action k (Store n v) = (if clean_value n v then k else LBad)"
| "alex_action k (Print t) = tlex k t"
| "alex_action k (PrintWith args t) =
     (case expand (map_of args) t of None \<Rightarrow> LBad | Some s \<Rightarrow> klex k s)"
| "alex_action k Indent = k"
| "alex_action k Outdent = k"

primrec alex :: "lex \<Rightarrow> action list \<Rightarrow> lex" where
  "alex k [] = k"
| "alex k (a # acts) = alex (alex_action k a) acts"

interpretation alex: list_machine alex
  by unfold_locales simp_all

lemma tlex_LBad [simp]: "tlex LBad t = LBad"
  by (simp add: tlex_def tlex_run_LBad)

lemma alex_LBad [simp]: "alex LBad acts = LBad"
proof (rule alex.run_stuck)
  fix x show "alex LBad [x] = LBad" by (cases x) (simp_all split: option.splits)
qed

lemma alex_sound:
  assumes "clean_vars m" "raw_text (calls m acts) = Some outp" "alex k acts \<noteq> LBad"
  shows "klex k outp = alex k acts"
  using assms
proof (induction m acts arbitrary: k outp rule: calls.induct)
  case (2 m n v acts)
  then have v: "clean_value n v" by (auto split: if_splits)
  have "clean_vars (m(n \<mapsto> v))" using 2(2) v by (simp add: clean_vars_def)
  then have "klex k outp = alex k acts"
    using "2.prems"(2,3) v by (intro "2.IH") (simp_all del: fun_upd_apply)
  with v show ?case by simp
next
  case (3 m t acts)
  then obtain s rest where s: "expand m t = Some s" "raw_text (calls m acts) = Some rest"
    "outp = s @ rest" by (auto split: option.splits)
  have "tlex k t \<noteq> LBad" using 3(4) by auto
  with 3 s show ?case by (simp add: klex.run_append tlex_sound)
next
  case (4 m args t acts)
  then show ?case by (auto simp: klex.run_append split: option.splits)
qed simp_all

lemma clean_value_table [clean_simps]:
  "str_only n \<Longrightarrow> str_clean v \<Longrightarrow> clean_value n v"
  "\<not> str_only n \<Longrightarrow> code_clean v \<Longrightarrow> clean_value n v"
  by (simp_all add: clean_value_def)

lemmas tlex_eval = tlex_def tlex_run.simps tlex_step.simps tlex_lit.simps tlex_class.simps
  tlex_use.simps tlex_final.simps

lemmas template_eval = template_ok_def tscan_run.simps tscan_step.simps tscan_lit.simps
  tscan_class.simps tscan_end.simps

lemmas alex_eval = alex.simps alex_action.simps tlex_eval klex_eval str_only_table
  alex.run_append

end
