(* ===== verification/DocComments.thy ===== *)
theory DocComments
  imports Descriptors Splitting PrinterCalls
begin

text \<open>
  Doc comments: the escaping of a \<open>.proto\<close> comment, its split into lines and the printing of
  the lines between \<open>/**\<close> and \<open>*/\<close>. The component's contract is that whatever a comment
  says, the Kotlin lexer leaves the printed comment where it entered it.
\<close>

section \<open>Escaping\<close>

definition escape_char :: "char \<Rightarrow> char \<Rightarrow> string" where
  "escape_char prev c =
     (if c = CHR ''*'' then (if prev = CHR ''/'' then ''&#42;'' else [c])
      else if c = CHR ''/'' then (if prev = CHR ''*'' then ''&#47;'' else [c])
      else if c = CHR ''@'' then ''&#64;''
      else if c = CHR ''<'' then ''&lt;''
      else if c = CHR ''>'' then ''&gt;''
      else if c = CHR ''&'' then ''&amp;''
      else if c = CHR 0x5C then ''&#92;''
      else [c])"

fun escape_loop :: "string \<Rightarrow> char \<Rightarrow> string \<Rightarrow> string" where
  "escape_loop result prev [] = result"
| "escape_loop result prev (c # input) = escape_loop (result @ escape_char prev c) c input"

definition EscapeKotlindoc :: "string \<Rightarrow> string" where
  "EscapeKotlindoc input = escape_loop [] (CHR ''*'') input"

section \<open>Comments and lines\<close>

definition GetCommentsForDescriptor :: "SourceLocation option \<Rightarrow> string" where
  "GetCommentsForDescriptor location =
     (case location of
        Some l \<Rightarrow> if leading_comments l = [] then trailing_comments l else leading_comments l
      | None \<Rightarrow> [])"

text \<open>\<open>while (!lines.empty() && lines.back().empty()) lines.pop_back()\<close>\<close>

definition pop_empty_lines :: "string list \<Rightarrow> string list" where
  "pop_empty_lines lines = rev (dropWhile (\<lambda>l. l = []) (rev lines))"

definition GetDocLines :: "string \<Rightarrow> string list" where
  "GetDocLines comments =
     (if comments \<noteq> [] then
        (let escapedComments = EscapeKotlindoc comments;
             lines = Split escapedComments [newline]
         in pop_empty_lines lines)
      else [])"

definition GetDocLinesForDescriptor :: "SourceLocation option \<Rightarrow> string list" where
  "GetDocLinesForDescriptor location = GetDocLines (GetCommentsForDescriptor location)"

section \<open>Printing\<close>

definition print_doc_line :: "string \<Rightarrow> action" where
  "print_doc_line line =
     (if line \<noteq> [] \<and> line ! 0 = CHR ''/'' then PrintWith [(''line'', line)] '' * $line$\<newline>''
      else PrintWith [(''line'', line)] '' *$line$\<newline>'')"

definition WriteDocCommentBody :: "string list \<Rightarrow> bool \<Rightarrow> action list" where
  "WriteDocCommentBody lines surroundWithPreTag =
     (if lines \<noteq> [] then
        (if surroundWithPreTag then [PrintWith [] '' * <pre>\<newline>''] else [])
        @ map print_doc_line lines
        @ (if surroundWithPreTag then [PrintWith [] '' * </pre>\<newline>''] else [])
      else [])"

definition WriteDocComment :: "string \<Rightarrow> action list" where
  "WriteDocComment comments =
     [PrintWith [] ''/**\<newline>''] @ WriteDocCommentBody (GetDocLines comments) False
     @ [PrintWith [] '' */\<newline>'']"

definition WriteServiceDocComment :: "ServiceDescriptor \<Rightarrow> action list" where
  "WriteServiceDocComment service =
     [PrintWith [] ''/**\<newline>'']
     @ WriteDocCommentBody (GetDocLinesForDescriptor (sd_location service)) True
     @ [PrintWith [] '' */\<newline>'']"

definition WriteMethodDocComment :: "MethodDescriptor \<Rightarrow> action list" where
  "WriteMethodDocComment method =
     [PrintWith [] ''/**\<newline>'']
     @ WriteDocCommentBody (GetDocLinesForDescriptor (md_location method)) True
     @ [PrintWith [] '' */\<newline>'']"

section \<open>Escaped text holds no marker\<close>

text \<open>The output from the previous input character on, without the accumulator.\<close>

fun escape_from :: "char \<Rightarrow> string \<Rightarrow> string" where
  "escape_from prev [] = []"
| "escape_from prev (c # input) = escape_char prev c @ escape_from c input"

lemma escape_loop_from: "escape_loop result prev input = result @ escape_from prev input"
  by (induction input arbitrary: result prev) simp_all

lemma EscapeKotlindoc_from: "EscapeKotlindoc input = escape_from (CHR ''*'') input"
  by (simp add: EscapeKotlindoc_def escape_loop_from)

text \<open>
  What one character becomes: itself, or an entity (which begins with an ampersand, ends
  with a semicolon and holds neither a star nor a slash).
\<close>

lemma escape_char_cases:
  obtains (self) "escape_char prev c = [c]" "c \<noteq> CHR ''&''"
    "c = CHR ''*'' \<longrightarrow> prev \<noteq> CHR ''/''" "c = CHR ''/'' \<longrightarrow> prev \<noteq> CHR ''*''"
    "c \<notin> {CHR ''@'', CHR ''<'', CHR ''>'', CHR 0x5C}"
  | (entity) e where "escape_char prev c = CHR ''&'' # e @ '';''"
    "set e \<inter> {CHR ''*'', CHR ''/'', CHR ''@'', CHR ''<'', CHR ''>'', CHR 0x5C, CHR ''&'', newline} = {}"
proof -
  consider "c = CHR ''*'' \<and> prev = CHR ''/''" | "c = CHR ''/'' \<and> prev = CHR ''*''"
    | "c = CHR ''@''" | "c = CHR ''<''" | "c = CHR ''>''" | "c = CHR ''&''" | "c = CHR 0x5C"
    | "(c = CHR ''*'' \<longrightarrow> prev \<noteq> CHR ''/'') \<and> (c = CHR ''/'' \<longrightarrow> prev \<noteq> CHR ''*'')
        \<and> c \<notin> {CHR ''@'', CHR ''<'', CHR ''>'', CHR ''&'', CHR 0x5C}"
    by blast
  then show ?thesis
  proof cases
    case 1
    then show ?thesis using entity [of "''#42''"] by (simp add: escape_char_def)
  next
    case 2
    then show ?thesis using entity [of "''#47''"] by (simp add: escape_char_def)
  next
    case 3
    then show ?thesis using entity [of "''#64''"] by (simp add: escape_char_def)
  next
    case 4
    then show ?thesis using entity [of "''lt''"] by (simp add: escape_char_def)
  next
    case 5
    then show ?thesis using entity [of "''gt''"] by (simp add: escape_char_def)
  next
    case 6
    then show ?thesis using entity [of "''amp''"] by (simp add: escape_char_def)
  next
    case 7
    then show ?thesis using entity [of "''#92''"] by (simp add: escape_char_def)
  next
    case 8
    then show ?thesis using self by (auto simp: escape_char_def)
  qed
qed

lemma no_pair_set: "b \<notin> set xs \<Longrightarrow> \<not> has_pair a b xs" "a \<notin> set xs \<Longrightarrow> \<not> has_pair a b xs"
  by (auto simp: has_pair_def)

lemma escape_from_hd:
  assumes "escape_from prev input \<noteq> []"
  shows "(prev = CHR ''/'' \<longrightarrow> hd (escape_from prev input) \<noteq> CHR ''*'') \<and>
    (prev = CHR ''*'' \<longrightarrow> hd (escape_from prev input) \<noteq> CHR ''/'')"
proof -
  obtain c rest where input: "input = c # rest" using assms by (cases input) auto
  show ?thesis
  proof (cases prev c rule: escape_char_cases)
    case self
    then have "hd (escape_from prev input) = c" by (simp add: input)
    with self show ?thesis by blast
  next
    case (entity e)
    then have "hd (escape_from prev input) \<notin> {CHR ''*'', CHR ''/''}" by (simp add: input)
    then show ?thesis by blast
  qed
qed

lemma escape_from_no_pair:
  "\<not> has_pair (CHR ''*'') (CHR ''/'') (escape_from prev input) \<and>
   \<not> has_pair (CHR ''/'') (CHR ''*'') (escape_from prev input)"
proof (induction input arbitrary: prev)
  case Nil
  show ?case by simp
next
  case (Cons c input)
  show ?case
  proof (cases prev c rule: escape_char_cases)
    case self
    show ?thesis
      using Cons [of c] escape_from_hd [of c input]
      unfolding escape_from.simps self(1) append_Cons append_Nil has_pair_Cons by blast
  next
    case (entity e)
    have "CHR ''*'' \<notin> set (escape_char prev c)" "CHR ''/'' \<notin> set (escape_char prev c)"
      "last (escape_char prev c) = CHR '';''"
      unfolding entity(1) using entity(2) by auto
    moreover from this have "\<not> has_pair (CHR ''*'') (CHR ''/'') (escape_char prev c)"
      "\<not> has_pair (CHR ''/'') (CHR ''*'') (escape_char prev c)"
      by (simp_all add: no_pair_set)
    ultimately show ?thesis
      unfolding escape_from.simps has_pair_append using Cons [of c] by simp
  qed
qed

lemma set_escape_from:
  "set (escape_from prev input) \<inter> {CHR ''@'', CHR ''<'', CHR ''>'', CHR 0x5C} = {}"
proof (induction input arbitrary: prev)
  case Nil
  show ?case by simp
next
  case (Cons c input)
  then show ?case by (cases prev c rule: escape_char_cases) fastforce+
qed

section \<open>Lines of the escaped text\<close>

lemma pieces_sublist: "t \<in> set (pieces sep s) \<Longrightarrow> \<exists>us vs. s = us @ t @ vs"
proof -
  have "(\<exists>vs. s = hd (pieces sep s) @ vs) \<and>
      (\<forall>t\<in>set (pieces sep s). \<exists>us vs. s = us @ t @ vs)" for s
  proof (induction s)
    case Nil
    show ?case by simp
  next
    case (Cons c cs)
    then obtain vs where vs: "cs = hd (pieces sep cs) @ vs" by blast
    have all: "\<exists>us vs. c # cs = us @ t @ vs" if "t \<in> set (pieces sep cs)" for t
      using that Cons by (metis append_Cons)
    have tl: "t \<in> set (pieces sep cs)" if "t \<in> set (tl (pieces sep cs))" for t
      using that by (rule list.set_sel(2) [rotated]) simp
    have first: "\<exists>us ws. c # cs = us @ (c # hd (pieces sep cs)) @ ws"
      using vs by (metis append_Cons append_Nil)
    show ?case
    proof (cases "sep c")
      case True
      then show ?thesis using all by auto
    next
      case False
      then show ?thesis using all tl first vs by auto
    qed
  qed
  then show "t \<in> set (pieces sep s) \<Longrightarrow> \<exists>us vs. s = us @ t @ vs" by blast
qed

lemma pop_empty_lines_subset: "set (pop_empty_lines ls) \<subseteq> set ls"
  by (auto simp: pop_empty_lines_def dest: set_dropWhileD)

lemma pop_empty_lines_id: "[] \<notin> set ls \<Longrightarrow> pop_empty_lines ls = ls"
  by (cases ls rule: rev_cases) (auto simp: pop_empty_lines_def)

lemma GetDocLines_tokens:
  "GetDocLines comments = tokens (\<lambda>c. c = newline) (EscapeKotlindoc comments)"
proof (cases "comments = []")
  case True
  then show ?thesis by (simp add: GetDocLines_def EscapeKotlindoc_def)
next
  case False
  let ?ls = "tokens (\<lambda>c. c = newline) (EscapeKotlindoc comments)"
  have "[] \<notin> set ?ls" using set_tokens by fastforce
  then show ?thesis using False by (simp add: GetDocLines_def Split_tokens pop_empty_lines_id)
qed

lemma GetDocLines_line:
  assumes "l \<in> set (GetDocLines comments)"
  shows "l \<noteq> []" "newline \<notin> set l"
    "\<not> has_pair (CHR ''*'') (CHR ''/'') l" "\<not> has_pair (CHR ''/'') (CHR ''*'') l"
    "set l \<inter> {CHR ''@'', CHR ''<'', CHR ''>'', CHR 0x5C} = {}"
proof -
  have l: "l \<in> set (tokens (\<lambda>c. c = newline) (EscapeKotlindoc comments))"
    using assms by (simp add: GetDocLines_tokens)
  then obtain us vs where "EscapeKotlindoc comments = us @ l @ vs"
    using pieces_sublist by (fastforce simp: tokens_def)
  then have "has_pair a b l \<Longrightarrow> has_pair a b (escape_from (CHR ''*'') comments)" for a b
    by (simp add: EscapeKotlindoc_from has_pair_append)
  then show "\<not> has_pair (CHR ''*'') (CHR ''/'') l" "\<not> has_pair (CHR ''/'') (CHR ''*'') l"
    using escape_from_no_pair by blast+
  show "l \<noteq> []" "newline \<notin> set l" using set_tokens [OF l] by auto
  show "set l \<inter> {CHR ''@'', CHR ''<'', CHR ''>'', CHR 0x5C} = {}"
    using set_tokens [OF l] set_escape_from [of "CHR ''*''" comments]
    by (auto simp: EscapeKotlindoc_from)
qed

section \<open>The printed comment and the three analyses\<close>

lemma expand_doc_line:
  "expand (map_of [(''line'', l)]) '' *$line$\<newline>'' = Some ('' *'' @ l @ [newline])"
  "expand (map_of [(''line'', l)]) '' * $line$\<newline>'' = Some ('' * '' @ l @ [newline])"
  by (simp_all add: expand_def)

lemma klex_comment_newline: "klex (LCom n p s) [newline] = LCom n PNone s"
  by (cases p) (simp_all add: cls_table)

lemma klex_doc_line:
  assumes "\<not> has_pair (CHR ''*'') (CHR ''/'') l" "\<not> has_pair (CHR ''/'') (CHR ''*'') l"
    and "p = PStar \<longrightarrow> l = [] \<or> hd l \<noteq> CHR ''/''" "p \<noteq> PSlash"
  shows "klex (LCom 0 p s) (l @ [newline]) = LCom 0 PNone s"
proof -
  obtain q where "klex (LCom 0 p s) l = LCom 0 q s"
    using klex_comment_text [of l p 0 s] assms by blast
  then show ?thesis by (simp only: klex.run_append klex_comment_newline)
qed

lemma klex_doc_prefix:
  "klex (LCom 0 PNone s) ('' *'' @ l) = klex (LCom 0 PStar s) l"
  "klex (LCom 0 PNone s) ('' * '' @ l) = klex (LCom 0 PNone s) l"
  by (simp_all add: cls_table)

lemma alex_doc_line:
  assumes "\<not> has_pair (CHR ''*'') (CHR ''/'') l" "\<not> has_pair (CHR ''/'') (CHR ''*'') l"
  shows "alex (LCom 0 PNone s) [print_doc_line l] = LCom 0 PNone s"
proof (cases "l \<noteq> [] \<and> l ! 0 = CHR ''/''")
  case True
  then have "print_doc_line l = PrintWith [(''line'', l)] '' * $line$\<newline>''"
    by (simp add: print_doc_line_def)
  moreover have "klex (LCom 0 PNone s) (l @ [newline]) = LCom 0 PNone s"
    by (rule klex_doc_line [OF assms]) simp_all
  ultimately show ?thesis
    by (simp only: alex.simps alex_action.simps expand_doc_line option.case klex_doc_prefix)
next
  case False
  then have "print_doc_line l = PrintWith [(''line'', l)] '' *$line$\<newline>''"
    by (auto simp add: print_doc_line_def)
  moreover have "klex (LCom 0 PStar s) (l @ [newline]) = LCom 0 PNone s"
    using False by (intro klex_doc_line [OF assms]) (auto simp: hd_conv_nth)
  ultimately show ?thesis
    by (simp only: alex.simps alex_action.simps expand_doc_line option.case klex_doc_prefix)
qed

lemma alex_doc_body:
  assumes "lines = GetDocLines comments"
  shows "alex (LCom 0 PNone s) (WriteDocCommentBody lines pre) = LCom 0 PNone s"
proof -
  have "alex (LCom 0 PNone s) (concat (map (\<lambda>l. [print_doc_line l]) lines)) = LCom 0 PNone s"
    using assms GetDocLines_line by (intro alex.run_loop alex_doc_line) auto
  then have "alex (LCom 0 PNone s) (map print_doc_line lines) = LCom 0 PNone s"
    by (simp add: concat_map_singleton)
  then show ?thesis
    by (simp add: WriteDocCommentBody_def alex.run_append expand_def cls_table)
qed

lemma alex_doc_comments [acts_simps]:
  "alex (LCode s) (WriteDocComment comments) = LCode s"
  "alex (LCode s) (WriteServiceDocComment service) = LCode s"
  "alex (LCode s) (WriteMethodDocComment method) = LCode s"
  by (simp_all add: WriteDocComment_def WriteServiceDocComment_def WriteMethodDocComment_def
      GetDocLinesForDescriptor_def alex.run_append alex_doc_body [OF refl] expand_def cls_table)

lemma depth_print_doc_lines: "depth (Some n) (map print_doc_line lines) = Some n"
  by (induction lines) (auto simp: print_doc_line_def acts_simps)

lemma depth_doc_comments [acts_simps]:
  "depth (Some n) (WriteServiceDocComment service) = Some n"
  "depth (Some n) (WriteMethodDocComment method) = Some n"
  by (simp_all add: WriteServiceDocComment_def WriteMethodDocComment_def WriteDocCommentBody_def
      depth.run_append depth_print_doc_lines acts_simps)

lemma known_after_print_doc_lines: "known_after D (map print_doc_line lines) = D"
  by (induction lines) (auto simp: print_doc_line_def)

lemma known_after_doc_comments [acts_simps]:
  "known_after D (WriteServiceDocComment service) = D"
  "known_after D (WriteMethodDocComment method) = D"
  by (simp_all add: WriteServiceDocComment_def WriteMethodDocComment_def WriteDocCommentBody_def
      known_after_append known_after_print_doc_lines)

lemma all_defined_print_doc_lines: "all_defined D (map print_doc_line lines)"
  by (induction lines) (auto simp: print_doc_line_def template_eval cls_table)

lemma all_defined_doc_comments [acts_simps]:
  "all_defined D (WriteServiceDocComment service)"
  "all_defined D (WriteMethodDocComment method)"
  by (simp_all add: WriteServiceDocComment_def WriteMethodDocComment_def WriteDocCommentBody_def
      all_defined_append all_defined_print_doc_lines template_eval cls_table)

section \<open>What the escaping does\<close>

text \<open>
  C35: the escaped text, wherever a line of it is printed after a star, neither closes the
  comment nor opens another, and holds none of the characters Kotlin documentation gives a
  meaning to.
\<close>

theorem EscapeKotlindoc_harmless:
  "\<not> has_pair (CHR ''*'') (CHR ''/'') (CHR ''*'' # EscapeKotlindoc input) \<and>
   \<not> has_pair (CHR ''/'') (CHR ''*'') (CHR ''*'' # EscapeKotlindoc input) \<and>
   set (EscapeKotlindoc input) \<inter> {CHR ''@'', CHR ''<'', CHR ''>'', CHR 0x5C} = {}"
  using escape_from_no_pair [of "CHR ''*''" input] escape_from_hd [of "CHR ''*''" input]
    set_escape_from [of "CHR ''*''" input]
  by (auto simp: EscapeKotlindoc_from)

text \<open>
  What a reader of the documentation sees: an ampersand begins an entity that ends with
  the next semicolon.
\<close>

definition entity_char :: "string \<Rightarrow> char" where
  "entity_char name =
     (if name = ''#42'' then CHR ''*'' else if name = ''#47'' then CHR ''/''
      else if name = ''#64'' then CHR ''@'' else if name = ''lt'' then CHR ''<''
      else if name = ''gt'' then CHR ''>'' else if name = ''#92'' then CHR 0x5C
      else CHR ''&'')"

function unescape :: "string \<Rightarrow> string" where
  "unescape [] = []"
| "unescape (c # cs) =
     (if c = CHR ''&''
      then entity_char (takeWhile (\<lambda>x. x \<noteq> CHR '';'') cs)
             # unescape (drop 1 (dropWhile (\<lambda>x. x \<noteq> CHR '';'') cs))
      else c # unescape cs)"
  by pat_completeness auto
termination
proof (relation "measure length", simp_all)
  fix cs :: string
  have "length (dropWhile (\<lambda>x. x \<noteq> CHR '';'') cs) \<le> length cs" by (rule length_dropWhile_le)
  then show "length (dropWhile (\<lambda>x. x \<noteq> CHR '';'') cs) - Suc 0 < Suc (length cs)" by simp
qed

lemma unescape_escape_char: "unescape (escape_char prev c @ s) = c # unescape s"
  by (simp add: escape_char_def entity_char_def)

lemma unescape_escape_from: "unescape (escape_from prev input) = input"
  by (induction input arbitrary: prev) (simp_all add: unescape_escape_char)

text \<open>C15: the escaping loses nothing: decoding the entities gives the comment back.\<close>

theorem EscapeKotlindoc_roundtrip: "unescape (EscapeKotlindoc input) = input"
  by (simp add: EscapeKotlindoc_from unescape_escape_from)

lemma filter_escape_char:
  "filter (\<lambda>x. x \<noteq> newline) (escape_char prev c) = (if c = newline then [] else escape_char prev c)"
  by (simp add: escape_char_def)

text \<open>
  C32: the lines of a comment are the pieces of the escaped comment between line breaks that
  are not empty (removing empty lines at the end changes nothing, splitting already drops
  them); decoded, they hold every character of the comment but its line breaks, in order.
\<close>

theorem GetDocLines_lossless:
  "GetDocLines comments = filter (\<lambda>l. l \<noteq> []) (pieces (\<lambda>c. c = newline) (EscapeKotlindoc comments)) \<and>
   unescape (concat (GetDocLines comments)) = filter (\<lambda>c. c \<noteq> newline) comments"
proof (intro conjI)
  show "GetDocLines comments =
      filter (\<lambda>l. l \<noteq> []) (pieces (\<lambda>c. c = newline) (EscapeKotlindoc comments))"
    by (simp add: GetDocLines_tokens tokens_def)
  have "unescape (filter (\<lambda>x. x \<noteq> newline) (escape_from prev input)) =
      filter (\<lambda>c. c \<noteq> newline) input" for prev input
    by (induction input arbitrary: prev) (simp_all add: filter_escape_char unescape_escape_char)
  then show "unescape (concat (GetDocLines comments)) = filter (\<lambda>c. c \<noteq> newline) comments"
    by (simp add: GetDocLines_tokens concat_tokens EscapeKotlindoc_from)
qed

section \<open>What a doc comment prints\<close>

definition doc_line_text :: "string \<Rightarrow> string" where
  "doc_line_text l = (if hd l = CHR ''/'' then '' * '' else '' *'') @ l @ [newline]"

definition doc_text :: "bool \<Rightarrow> string list \<Rightarrow> string" where
  "doc_text pre_tag lines =
     ''/**\<newline>''
     @ (if lines = [] then []
        else (if pre_tag then '' * <pre>\<newline>'' else []) @ concat (map doc_line_text lines)
             @ (if pre_tag then '' * </pre>\<newline>'' else []))
     @ '' */\<newline>''"

lemma raw_text_doc_lines:
  assumes "[] \<notin> set lines"
  shows "raw_text (calls m (map print_doc_line lines)) = Some (concat (map doc_line_text lines))"
  using assms
proof (induction lines)
  case (Cons l lines)
  then have "l \<noteq> []" by auto
  then have "raw_text (calls m [print_doc_line l]) = Some (doc_line_text l)"
    by (auto simp: print_doc_line_def doc_line_text_def hd_conv_nth expand_def)
  moreover have "calls m (map print_doc_line (l # lines)) =
      calls m [print_doc_line l] @ calls m (map print_doc_line lines)"
    by (simp add: print_doc_line_def)
  ultimately show ?case using Cons by (simp add: raw_text_append del: calls.simps)
qed simp

lemma stored_doc_lines: "stored m (map print_doc_line lines) = m"
  by (induction lines) (simp_all add: print_doc_line_def)

lemma GetDocLines_nonempty: "[] \<notin> set (GetDocLines comments)"
  using GetDocLines_line(1) by blast

lemma raw_text_doc_comment:
  "raw_text (calls m ([PrintText ''/**\<newline>''] @ WriteDocCommentBody (GetDocLines comments) pre
     @ [PrintText '' */\<newline>''])) = Some (doc_text pre (GetDocLines comments))"
  by (simp add: WriteDocCommentBody_def doc_text_def calls_append raw_text_append expand_def
      raw_text_doc_lines GetDocLines_nonempty stored_doc_lines)

text \<open>
  The three writers of doc comments print \<open>/**\<close>, the lines (for services and methods
  between \<open><pre>\<close> and \<open></pre>\<close> when there are any), each after a star and, if it begins with
  a slash, a space, and \<open>*/\<close>; the comment of a service or method is its leading comment, or
  its trailing comment where there is no leading one.
\<close>

theorem doc_comments_text:
  "raw_text (calls m (WriteDocComment comments)) = Some (doc_text False (GetDocLines comments)) \<and>
   raw_text (calls m (WriteServiceDocComment service)) =
     Some (doc_text True (GetDocLines (GetCommentsForDescriptor (sd_location service)))) \<and>
   raw_text (calls m (WriteMethodDocComment method)) =
     Some (doc_text True (GetDocLines (GetCommentsForDescriptor (md_location method))))"
  unfolding WriteDocComment_def WriteServiceDocComment_def WriteMethodDocComment_def
    GetDocLinesForDescriptor_def
  by (simp only: raw_text_doc_comment simp_thms)

text \<open>
  C7: whatever text a comment of the \<open>.proto\<close> file holds, markers, quotes and brackets
  included, the lexer that enters the printed comment in code leaves it in code with the
  same brackets open.
\<close>

theorem doc_comments_closed:
  "klex (LCode s) (the (raw_text (calls Map.empty (WriteDocComment comments)))) = LCode s \<and>
   klex (LCode s) (the (raw_text (calls Map.empty (WriteServiceDocComment service)))) = LCode s \<and>
   klex (LCode s) (the (raw_text (calls Map.empty (WriteMethodDocComment method)))) = LCode s"
proof -
  have clean: "clean_vars Map.empty" by (simp add: clean_vars_def)
  have "klex (LCode s) (the (raw_text (calls Map.empty acts))) = LCode s"
    if "raw_text (calls Map.empty acts) = Some t" "alex (LCode s) acts = LCode s" for acts t
    using alex_sound [OF clean that(1), of "LCode s"] that by simp
  then show ?thesis
    using alex_doc_comments raw_text_doc_comment
    unfolding WriteDocComment_def WriteServiceDocComment_def WriteMethodDocComment_def
      GetDocLinesForDescriptor_def by blast
qed

end
