(* ===== verification/GeneratorCommon.thy ===== *)
theory GeneratorCommon
  imports Names DocComments
begin

text \<open>
  What \<open>GenerateInterface\<close>, \<open>GenerateClient\<close> and \<open>GenerateServer\<close> share: the package clause,
  the \<open>Package\<close> variable, the assumptions on names under which the generated text is read,
  and the contract the plugin relies on, stated as a locale that each generator's theory
  interprets.
\<close>

section \<open>Shared steps\<close>

definition store_vars :: "(string \<times> string) list \<Rightarrow> action list" where
  "store_vars kvs = map (\<lambda>(k, v). Store k v) kvs"

definition package_clause :: "string \<Rightarrow> string \<Rightarrow> action list" where
  "package_clause package_name t =
     (if package_name \<noteq> [] then [PrintWith [(''package_name'', package_name)] t] else [])"

text \<open>\<open>vars["Package"]\<close> is stored and then, when it is not empty, extended by a dot.\<close>

definition package_prefix :: "FileDescriptor \<Rightarrow> action list" where
  "package_prefix file =
     [Store ''Package'' (fd_package file)]
     @ (if fd_package file \<noteq> [] then [Store ''Package'' (fd_package file @ ''.'')] else [])"

section \<open>Names that are names\<close>

text \<open>
  protoc only accepts identifiers and dotted names, and \<open>java::ClassName\<close> maps them to
  dotted names: none of them holds a bracket, a quote, a slash, a star, a backslash, a
  dollar sign or a line break. File names and version strings stand in string literals and
  may hold more.
\<close>

definition clean_env :: "codegen_env \<Rightarrow> bool" where
  "clean_env env \<longleftrightarrow>
     (\<forall>v. macro_rsocket_rpc_version env = Some v \<longrightarrow> str_clean v) \<and>
     (\<forall>v. macro_RSOCKET_RPC_VERSION env = Some v \<longrightarrow> str_clean v)"

definition clean_method :: "codegen_env \<Rightarrow> MethodDescriptor \<Rightarrow> bool" where
  "clean_method env m \<longleftrightarrow>
     code_clean (md_name m) \<and> code_clean (java_message_class env (md_input_type m)) \<and>
     code_clean (java_message_class env (md_output_type m))"

definition clean_service :: "codegen_env \<Rightarrow> ServiceDescriptor \<Rightarrow> bool" where
  "clean_service env service \<longleftrightarrow>
     code_clean (sd_name service) \<and> str_clean (fd_name (sd_file service)) \<and>
     code_clean (fd_package (sd_file service)) \<and>
     code_clean (java_file_class env (sd_file service)) \<and>
     (\<forall>m\<in>set (sd_methods service). clean_method env m)"

lemma code_clean_MixedLower:
  assumes "code_clean w"
  shows "code_clean (MixedLower w)"
proof (cases w)
  case Nil
  then show ?thesis by (simp add: MixedLower_Nil code_clean_def cls_def)
next
  case (Cons c cs)
  then have "set (MixedLower w) \<subseteq> set w \<union> toupper ` set w \<union> tolower ` set w"
    by (intro set_MixedLower) simp
  then show ?thesis
    using assms cls_case_change unfolding code_clean_def by blast
qed

lemma code_clean_ToAllUpperCase:
  assumes "code_clean w"
  shows "code_clean (ToAllUpperCase w)"
proof -
  have "cls underscore = CPlain" by (simp add: cls_table)
  then show ?thesis
    using set_ToAllUpperCase [of w] assms cls_case_change(1) unfolding code_clean_def by blast
qed

lemma code_clean_take: "code_clean v \<Longrightarrow> code_clean (take n v)"
  by (auto simp: code_clean_def dest: in_set_takeD)

lemma clean_class_names [clean_simps]:
  "code_clean (MessageFullKotlinName env d) \<longleftrightarrow> code_clean (java_message_class env d)"
  "code_clean (java_file_class env f) \<Longrightarrow> code_clean (ServiceKotlinPackage env f)"
  by (auto simp: MessageFullKotlinName_def ServiceKotlinPackage_def Let_def code_clean_take
      clean_simps split: option.splits)

lemma clean_env_XSTR [clean_simps]:
  assumes "clean_env env"
  shows "macro_rsocket_rpc_version env = Some v \<Longrightarrow> str_clean (XSTR n (Some v))"
    "str_clean (XSTR ''RSOCKET_RPC_VERSION'' (macro_RSOCKET_RPC_VERSION env))"
  using assms by (auto simp: clean_env_def XSTR_def clean_simps cls_table split: option.splits)

lemma clean_method_names [clean_simps]:
  assumes "code_clean (md_name m)"
  shows "code_clean (LowerMethodName m)" "code_clean (MethodFieldName m)"
  using assms by (simp_all add: LowerMethodName_def MethodFieldName_def code_clean_MixedLower
      code_clean_ToAllUpperCase clean_simps cls_table)

lemma clean_service_names [clean_simps]:
  "code_clean (ServiceFieldName service)"
  "code_clean (ClientClassName service) \<longleftrightarrow> code_clean (sd_name service)"
  "code_clean (ServerClassName service) \<longleftrightarrow> code_clean (sd_name service)"
  by (simp_all add: ServiceFieldName_def ClientClassName_def ServerClassName_def clean_simps
      cls_table)

lemma clean_service_method:
  "clean_service env service \<Longrightarrow> m \<in> set (sd_methods service) \<Longrightarrow> clean_method env m"
  by (simp add: clean_service_def)

lemmas clean_names = clean_service_def clean_method_def clean_simps

section \<open>The shared steps under the analyses\<close>

lemma alex_store_vars:
  "\<forall>(n, v)\<in>set kvs. clean_value n v \<Longrightarrow> alex k (store_vars kvs) = k"
  by (induction kvs) (auto simp: store_vars_def)

lemma alex_package_clause [acts_simps]:
  assumes "code_clean p"
  shows "alex (LCode []) (package_clause p ''package $package_name$\<newline>\<newline>'') = LCode []"
    "alex (LCode []) (package_clause p ''package $package_name$;\<newline>\<newline>'') = LCode []"
  using assms
  by (simp_all add: package_clause_def expand_def klex.run_append code_clean_code cls_table)

lemma alex_package_prefix [acts_simps]:
  "code_clean (fd_package f) \<Longrightarrow> alex k (package_prefix f) = k"
  by (simp add: package_prefix_def clean_simps cls_table str_only_def)

lemma depth_store_vars [acts_simps]: "depth (Some n) (store_vars kvs) = Some n"
  by (induction kvs) (auto simp: store_vars_def acts_simps)

lemma depth_package [acts_simps]:
  "depth (Some n) (package_clause p t) = Some n" "depth (Some n) (package_prefix f) = Some n"
  by (simp_all add: package_clause_def package_prefix_def acts_simps)

lemma all_defined_store_vars [acts_simps]: "all_defined D (store_vars kvs)"
  by (induction kvs arbitrary: D) (auto simp: store_vars_def)

lemma known_after_store_vars [acts_simps]:
  "known_after D (store_vars kvs) n \<longleftrightarrow> D n \<or> n \<in> fst ` set kvs"
proof (induction kvs arbitrary: D)
  case Nil
  show ?case by (simp add: store_vars_def)
next
  case (Cons kv kvs)
  obtain k v where kv: "kv = (k, v)" by (cases kv)
  have "known_after D (store_vars (kv # kvs)) n \<longleftrightarrow> (D(k := True)) n \<or> n \<in> fst ` set kvs"
    unfolding Cons [of "D(k := True)", symmetric] by (simp add: store_vars_def kv)
  then show ?case by (auto simp: kv)
qed

lemma all_defined_package [acts_simps]:
  "all_defined D (package_clause p ''package $package_name$\<newline>\<newline>'')"
  "all_defined D (package_clause p ''package $package_name$;\<newline>\<newline>'')"
  "all_defined D (package_prefix f)"
  by (simp_all add: package_clause_def package_prefix_def template_eval cls_table)

lemma known_after_package [acts_simps]:
  "known_after D (package_clause p t) n \<longleftrightarrow> D n"
  "known_after D (package_prefix f) n \<longleftrightarrow> n = ''Package'' \<or> D n"
  by (simp_all add: package_clause_def package_prefix_def)

section \<open>A concrete printer and concrete names\<close>

text \<open>
  A printer that lays lines out: two spaces per level before the first character of every line
  that is not empty.
\<close>

fun indent_text :: "nat \<Rightarrow> bool \<Rightarrow> string \<Rightarrow> string \<times> bool" where
  "indent_text n at_start [] = ([], at_start)"
| "indent_text n at_start (c # cs) =
     (let (t, ended) = indent_text n (c = newline) cs
      in ((if at_start \<and> c \<noteq> newline then replicate (2 * n) (CHR '' '') else []) @ c # t, ended))"

fun layout :: "nat \<Rightarrow> bool \<Rightarrow> call list \<Rightarrow> string" where
  "layout n at_start [] = []"
| "layout n at_start (CallIndent # cs) = layout (Suc n) at_start cs"
| "layout n at_start (CallOutdent # cs) = layout (n - 1) at_start cs"
| "layout n at_start (CallPrint m t # cs) =
     (case expand m t of
        None \<Rightarrow> []
      | Some s \<Rightarrow> (let (u, ended) = indent_text n at_start s in u @ layout n ended cs))"

definition indenting_printer :: "call list \<Rightarrow> string" where
  "indenting_printer cs = layout 0 True cs"

lemma strip_lead_spaces: "strip_lead True (replicate k (CHR '' '') @ s) = strip_lead True s"
  by (induction k) simp_all

lemma strip_lead_indented:
  assumes "\<And>b'. (snd (indent_text n at_start s) \<longrightarrow> b') \<Longrightarrow> strip_lead b' r = strip_lead b' r'"
    and "at_start \<longrightarrow> b"
  shows "strip_lead b (fst (indent_text n at_start s) @ r) = strip_lead b (s @ r')"
  using assms
proof (induction s arbitrary: at_start b)
  case (Cons c cs)
  obtain t ended where t: "indent_text n (c = newline) cs = (t, ended)" by fastforce
  have IH: "strip_lead b' (t @ r) = strip_lead b' (cs @ r')" if "c = newline \<longrightarrow> b'" for b'
    using Cons.IH [of "c = newline" b'] Cons.prems(1) that by (simp add: t)
  show ?case using Cons.prems(2) IH [of True] IH [of "c = newline"]
    by (auto simp: t strip_lead_spaces)
qed simp

lemma strip_lead_layout:
  "raw_text cs = Some outp \<Longrightarrow> (at_start \<longrightarrow> b) \<Longrightarrow>
     strip_lead b (layout n at_start cs) = strip_lead b outp"
proof (induction n at_start cs arbitrary: outp b rule: layout.induct)
  case (4 n at_start m t cs)
  then obtain s r where s: "expand m t = Some s" "raw_text cs = Some r" "outp = s @ r"
    by (auto split: option.splits)
  obtain u ended where u: "indent_text n at_start s = (u, ended)" by fastforce
  have "strip_lead b (fst (indent_text n at_start s) @ layout n ended cs) = strip_lead b (s @ r)"
    using 4(1) [OF s(1) u [symmetric] refl s(2)] 4(3)
    by (intro strip_lead_indented) (simp_all add: u)
  then show ?case by (simp add: s u)
qed simp_all

lemma documented_indenting_printer: "documented_printer indenting_printer"
  by (auto simp: documented_printer_def indenting_printer_def intro: strip_lead_layout)

lemma clean_samples:
  "clean_env sample_env" "clean_service sample_env sample_service"
  "clean_service sample_env unary_service"
  by (simp_all add: sample_defs clean_env_def clean_names cls_table)

section \<open>The contract of a generator\<close>

text \<open>
  A generator turns a service into actions. The plugin relies on two promises: every
  template it prints has all its variables, and the lexer comes back to code at depth zero
  when the names are names.
\<close>

locale file_generator =
  fixes gen :: "codegen_env \<Rightarrow> ServiceDescriptor \<Rightarrow> ProtoFlavor \<Rightarrow> bool \<Rightarrow> action list"
  assumes gen_defined: "all_defined (\<lambda>_. False) (gen env service flavor disable_version)"
    and gen_lexes: "clean_env env \<Longrightarrow> clean_service env service \<Longrightarrow>
      alex (LCode []) (gen env service flavor disable_version) = LCode []"
begin

lemma gen_raw_text: "\<exists>t. raw_text (calls Map.empty (gen env service flavor disable_version)) = Some t"
  using all_defined_raw_text [OF gen_defined, of Map.empty] by simp

lemma gen_balanced:
  assumes "clean_env env" "clean_service env service"
    "raw_text (calls Map.empty (gen env service flavor disable_version)) = Some t"
  shows "kotlin_balanced t"
proof -
  have "clean_vars Map.empty" by (simp add: clean_vars_def)
  then show ?thesis
    using alex_sound [OF _ assms(3), of "LCode []"] gen_lexes [OF assms(1,2)]
    by (simp add: kotlin_balanced_def)
qed

lemma gen_legal:
  assumes "depth (Some 0) (gen env service flavor disable_version) \<noteq> None"
  shows "legal_use (calls Map.empty (gen env service flavor disable_version))"
  using assms gen_raw_text [of env service flavor disable_version]
  by (simp add: legal_use_def depth_calls)

lemma gen_written:
  assumes "clean_env env" "clean_service env service" "documented_printer written"
    "depth (Some 0) (gen env service flavor disable_version) \<noteq> None"
  shows "kotlin_balanced (written (calls Map.empty (gen env service flavor disable_version)))"
proof -
  obtain t where t: "raw_text (calls Map.empty (gen env service flavor disable_version)) = Some t"
    using gen_raw_text by blast
  with assms(3) gen_legal [OF assms(4)]
  have "strip_lead True (written (calls Map.empty (gen env service flavor disable_version)))
      = strip_lead True t"
    by (simp add: documented_printer_def)
  then show ?thesis using kotlin_balanced_layout gen_balanced [OF assms(1,2) t] by blast
qed

end

end
