(* ===== verification/InterfaceGen.thy ===== *)
theory InterfaceGen
  imports GeneratorCommon
begin

text \<open>
  \<open>PrintInterface\<close> and \<open>GenerateInterface\<close> of \<open>kotlin_generator.cpp\<close>: the Kotlin interface of
  a service, with the constants that name the service and its methods and one function with
  a default body per method.
\<close>

section \<open>Model\<close>

text \<open>
  The version string: present only when the macro \<open>rsocket_rpc_version\<close> is defined and the
  option \<open>noversion\<close> is not given.
\<close>

definition interface_version :: "codegen_env \<Rightarrow> bool \<Rightarrow> action list" where
  "interface_version env disable_version =
     [Store ''rsocket_rpc_version'' []]
     @ (case macro_rsocket_rpc_version env of
          None \<Rightarrow> []
        | Some v \<Rightarrow>
            if \<not> disable_version
            then [Store ''rsocket_rpc_version''
                    ('' (version '' @ XSTR ''rsocket_rpc_version'' (Some v) @ '')'')]
            else [])"

definition interface_constant :: "MethodDescriptor \<Rightarrow> action list" where
  "interface_constant method =
    [Store ''method_field_name'' (MethodFieldName method),
     Store ''method_name'' (md_name method),
     Print ''const val $method_field_name$ = \"$method_name$\"\<newline>'']"

definition interface_method :: "codegen_env \<Rightarrow> MethodDescriptor \<Rightarrow> action list" where
  "interface_method env method =
    [Store ''input_type'' (MessageFullKotlinName env (md_input_type method)),
     Store ''output_type'' (MessageFullKotlinName env (md_output_type method)),
     Store ''lower_method_name'' (LowerMethodName method),
     PrintText ''\<newline>'']
    @ WriteMethodDocComment method
    @ [Print ''fun $lower_method_name$'']
    @ (if md_client_streaming method then
      [Print ''(message: $Publisher$<$input_type$>, metadata: $ByteBuf$)\<newline>'']
    else
      [Print ''(message: $input_type$, metadata: $ByteBuf$)\<newline>''])
    @ (if md_server_streaming method then
      [Print '':$Flowable$<$output_type$> = $Flowable$.error(UnsupportedOperationException(\"not implemented\"))\<newline>'']
    else
      (if md_client_streaming method then
        [Print '':$Single$<$output_type$> = $Single$.error(UnsupportedOperationException(\"not implemented\"))\<newline>'']
      else
        (if fire_and_forget (md_options method) then
          [Print '':$Completable$ = $Completable$.error(UnsupportedOperationException(\"not implemented\"))\<newline>'']
        else
          [Print '':$Single$<$output_type$> = $Single$.error(UnsupportedOperationException(\"not implemented\"))\<newline>''])))"

definition interface_stores :: "ServiceDescriptor \<Rightarrow> action list" where
  "interface_stores service =
  [Store ''service_name'' (sd_name service),
   Store ''service_field_name'' (ServiceFieldName service),
   Store ''file_name'' (fd_name (sd_file service))]"

definition interface_body :: "codegen_env \<Rightarrow> ServiceDescriptor \<Rightarrow> action list" where
  "interface_body env service =
  WriteServiceDocComment service
  @ [Print (''@$Generated$(\<newline>'' @
      ''    value = [\"by RSocket RPC proto compiler$rsocket_rpc_version$\"],\<newline>'' @
      ''    comments = \"Source: $file_name$\")\<newline>'' @
      ''interface $service_name$ {\<newline>\<newline>''),
   Indent,
   PrintText ''companion object {\<newline>'',
   Indent,
   Print ''const val $service_field_name$ = \"$Package$$service_name$\"\<newline>'']
  @ concat (map interface_constant (sd_methods service))
  @ [Outdent,
   PrintText ''}\<newline>'']
  @ concat (map (interface_method env) (sd_methods service))
  @ [Outdent,
   PrintText ''}\<newline>'']"

definition PrintInterface ::
  "codegen_env \<Rightarrow> ServiceDescriptor \<Rightarrow> ProtoFlavor \<Rightarrow> bool \<Rightarrow> action list" where
  "PrintInterface env service flavor disable_version =
     interface_stores service @ interface_version env disable_version @ interface_body env service"

definition interface_vars :: "(string \<times> string) list" where
  "interface_vars =
  [(''Flowable'', ''io.reactivex.Flowable''),
   (''Single'', ''io.reactivex.Single''),
   (''Publisher'', ''org.reactivestreams.Publisher''),
   (''Generated'', ''javax.annotation.Generated''),
   (''ByteBuf'', ''io.netty.buffer.ByteBuf''),
   (''Completable'', ''io.reactivex.Completable''),
   (''Empty'', ''com.google.protobuf.Empty'')]"

definition GenerateInterface ::
  "codegen_env \<Rightarrow> ServiceDescriptor \<Rightarrow> ProtoFlavor \<Rightarrow> bool \<Rightarrow> action list" where
  "GenerateInterface env service flavor disable_version =
     store_vars interface_vars
     @ package_clause (ServiceKotlinPackage env (sd_file service)) ''package $package_name$\<newline>\<newline>''
     @ package_prefix (sd_file service)
     @ PrintInterface env service flavor disable_version"

section \<open>Indentation\<close>

lemma depth_interface_constant: "depth (Some n) (interface_constant m) = Some n"
  by (simp add: interface_constant_def acts_simps)

lemma depth_interface_method: "depth (Some n) (interface_method env m) = Some n"
  by (simp add: interface_method_def acts_simps depth.run_append)

lemma depth_interface_version: "depth (Some n) (interface_version env d) = Some n"
  by (simp add: interface_version_def acts_simps split: option.split)

lemma depth_GenerateInterface:
  "depth (Some n) (GenerateInterface env service flavor disable_version) = Some n"
  by (simp add: GenerateInterface_def PrintInterface_def interface_stores_def interface_body_def
      depth.run_append depth.run_loop depth_interface_constant depth_interface_method depth_interface_version acts_simps)

section \<open>Variables\<close>

text \<open>The variables that are stored before the first loop.\<close>

definition interface_known :: "string \<Rightarrow> bool" where
  "interface_known n \<longleftrightarrow> n \<in> fst ` set interface_vars \<or>
     n \<in> {''Package'', ''service_name'', ''service_field_name'', ''file_name'', ''rsocket_rpc_version''}"

lemma interface_names: "fst ` set interface_vars =
    {''Flowable'', ''Single'', ''Publisher'', ''Generated'', ''ByteBuf'', ''Completable'',
     ''Empty''}"
  by (auto simp: interface_vars_def)

lemma interface_known_table:
  "interface_known ''Flowable''" "interface_known ''Single''" "interface_known ''Publisher''"
  "interface_known ''Generated''" "interface_known ''ByteBuf''" "interface_known ''Completable''"
  "interface_known ''Package''" "interface_known ''service_name''"
  "interface_known ''service_field_name''" "interface_known ''file_name''"
  "interface_known ''rsocket_rpc_version''"
  by (simp_all only: interface_known_def interface_names insert_iff simp_thms)

lemma all_defined_interface_method: "all_defined interface_known (interface_method env m)"
  by (cases "md_client_streaming m"; cases "md_server_streaming m";
      cases "fire_and_forget (md_options m)")
    (simp_all add: interface_method_def all_defined_append acts_simps template_eval cls_table
      interface_known_table)

lemma all_defined_interface_constant: "all_defined interface_known (interface_constant m)"
  by (simp add: interface_constant_def template_eval cls_table interface_known_table)

lemma all_defined_interface_body: "all_defined interface_known (interface_body env service)"
  unfolding interface_body_def
  by (intro all_defined_append_mono all_defined_loop all_defined_interface_method
      all_defined_interface_constant acts_simps)
    (simp_all add: template_eval cls_table interface_known_table)

lemma interface_known_stored:
  assumes "interface_known n"
  shows "known_after (\<lambda>_. False)
    (store_vars interface_vars @ package_clause p t @ package_prefix f @ interface_stores s
      @ interface_version env d) n"
  using assms
  by (auto simp: acts_simps interface_known_def interface_stores_def interface_version_def
      split: option.split)

lemma all_defined_GenerateInterface:
  "all_defined (\<lambda>_. False) (GenerateInterface env service flavor disable_version)"
proof -
  let ?pre = "store_vars interface_vars
     @ package_clause (ServiceKotlinPackage env (sd_file service)) ''package $package_name$\<newline>\<newline>''
     @ package_prefix (sd_file service) @ interface_stores service
     @ interface_version env disable_version"
  have "all_defined (\<lambda>_. False) ?pre"
    by (intro all_defined_append_mono acts_simps)
      (simp_all add: interface_stores_def interface_version_def split: option.split)
  then have "all_defined (\<lambda>_. False) (?pre @ interface_body env service)"
    by (rule all_defined_after [OF _ interface_known_stored all_defined_interface_body])
  then show ?thesis by (simp add: GenerateInterface_def PrintInterface_def)
qed

section \<open>The text\<close>

lemma alex_interface_constant:
  assumes "clean_method env m"
  shows "alex (LCode s) (interface_constant m) = LCode s"
  using assms by (simp add: interface_constant_def alex_eval clean_names)

lemma alex_interface_method:
  assumes "clean_method env m"
  shows "alex (LCode s) (interface_method env m) = LCode s"
  using assms
  by (cases "md_client_streaming m"; cases "md_server_streaming m";
      cases "fire_and_forget (md_options m)")
    (simp_all add: interface_method_def acts_simps alex_eval clean_names expand_def)

lemma alex_interface_stores:
  assumes "clean_env env" "clean_service env service"
  shows "alex k (interface_stores service @ interface_version env disable_version) = k"
  using assms
  by (auto simp: interface_stores_def interface_version_def alex_eval clean_names
      split: option.split)

lemma interface_vars_clean: "\<forall>(n, v)\<in>set interface_vars. clean_value n v"
  by (simp add: interface_vars_def clean_value_def str_only_def clean_names cls_table)

lemma alex_interface_body:
  assumes "clean_env env" "clean_service env service"
  shows "alex (LCode []) (interface_body env service) = LCode []"
proof -
  have "alex (LCode s) (concat (map interface_constant (sd_methods service))) = LCode s"
    "alex (LCode s) (concat (map (interface_method env) (sd_methods service))) = LCode s" for s
    using assms by (auto intro!: alex.run_loop alex_interface_constant alex_interface_method
        dest: clean_service_method)
  then show ?thesis by (simp add: interface_body_def acts_simps alex_eval expand_def)
qed

lemma alex_GenerateInterface:
  assumes "clean_env env" "clean_service env service"
  shows "alex (LCode []) (GenerateInterface env service flavor disable_version) = LCode []"
  using assms alex_interface_stores [OF assms, of "LCode []"]
  by (simp add: GenerateInterface_def PrintInterface_def alex.run_append alex_interface_body
      alex_store_vars interface_vars_clean acts_simps clean_names)

interpretation interface_generator: file_generator GenerateInterface
  by unfold_locales (rule all_defined_GenerateInterface, rule alex_GenerateInterface)

section \<open>What is printed\<close>

text \<open>Printing the interface leaves the indentation where it was.\<close>

theorem interface_indentation:
  "depth_of_calls (Some n) (calls Map.empty (GenerateInterface env service flavor disable_version)) =
     Some n"
  by (simp add: depth_calls depth_GenerateInterface)

text \<open>
  Whatever layout a documented printer gives it, the interface file of a service whose
  names are names is balanced Kotlin.
\<close>

theorem interface_written:
  assumes "clean_env env" "clean_service env service" "documented_printer written"
  shows "kotlin_balanced
    (written (calls Map.empty (GenerateInterface env service flavor disable_version)))"
  using assms by (rule interface_generator.gen_written) (simp add: depth_GenerateInterface)

theorem interface_written_witness:
  "kotlin_balanced
    (indenting_printer (calls Map.empty (GenerateInterface sample_env sample_service NORMAL False)))"
  by (rule interface_written [OF clean_samples(1,2) documented_indenting_printer])

end
