(* ===== verification/ClientGen.thy ===== *)
theory ClientGen
  imports GeneratorCommon
begin

text \<open>
  \<open>PrintClient\<close> and \<open>GenerateClient\<close> of \<open>kotlin_generator.cpp\<close>: the class that implements
  the interface by sending requests over an RSocket. One definition per stretch of
  \<open>PrintClient\<close>, in its order: header, trace fields, \<open>init\<close> block, the two functions of each
  method (without and with metadata), serializer and deserializer.
\<close>

section \<open>Model\<close>

definition client_stores :: "ServiceDescriptor \<Rightarrow> action list" where
  "client_stores service =
  [Store ''service_name'' (sd_name service),
   Store ''service_field_name'' (ServiceFieldName service),
   Store ''file_name'' (fd_name (sd_file service)),
   Store ''client_class_name'' (ClientClassName service)]"

text \<open>
  The version strings. The macro that is tested is \<open>rsocket_rpc_version\<close>; the text of the
  annotation is taken from \<open>RSOCKET_RPC_VERSION\<close>.
\<close>

definition client_version :: "codegen_env \<Rightarrow> bool \<Rightarrow> action list" where
  "client_version env disable_version =
     [Store ''rsocket_rpc_version'' [],
      Store ''version'' []]
     @ (case macro_rsocket_rpc_version env of
          None \<Rightarrow> []
        | Some v \<Rightarrow>
            if \<not> disable_version
            then [Store ''rsocket_rpc_version''
                    ('' (version '' @ XSTR ''RSOCKET_RPC_VERSION'' (macro_RSOCKET_RPC_VERSION env) @ '')''),
                  Store ''version'' (XSTR ''rsocket_rpc_version'' (Some v))]
            else [])"

definition client_header :: "action list" where
  "client_header =
  [Print (''@$Generated$(\<newline>'' @
      ''    value = [\"by RSocket RPC proto compiler$rsocket_rpc_version$\"],\<newline>'' @
      ''    comments = \"Source: $file_name$\")\<newline>'' @
      ''@$RSocketRpcGenerated$(\<newline>'' @
      ''    type = $RSocketRpcResourceType$.CLIENT,\<newline>'' @
      ''    idlClass = $service_name$::class)\<newline>'' @
      ''class $client_class_name$(\<newline>''),
   Indent,
   Print (''private val rSocket: $RSocket$, \<newline>'' @
      ''private val tracer: $Tracer$? = null\<newline>'' @
      ''): $service_name$ {\<newline>''),
   Indent]"

definition client_trace_field :: "codegen_env \<Rightarrow> MethodDescriptor \<Rightarrow> action list" where
  "client_trace_field env method =
    [Store ''output_type'' (MessageFullKotlinName env (md_output_type method)),
     Store ''lower_method_name'' (LowerMethodName method)]
    @ (if md_server_streaming method then
      [Print ''private val $lower_method_name$Trace: ($Map$<String, String>) -> io.reactivex.FlowableTransformer<$output_type$, $output_type$>\<newline>'']
    else
      (if md_client_streaming method then
        [Print ''private val $lower_method_name$Trace: ($Map$<String, String>) -> io.reactivex.FlowableTransformer<$output_type$, $output_type$>\<newline>'']
      else
        (if fire_and_forget (md_options method) then
          [Print ''private val $lower_method_name$Trace: ($Map$<String, String>) -> io.reactivex.FlowableTransformer<$output_type$, $output_type$>\<newline>'']
        else
          [Print ''private val $lower_method_name$Trace: ($Map$<String, String>) -> io.reactivex.FlowableTransformer<$output_type$, $output_type$>\<newline>''])))"

definition client_trace_null :: "MethodDescriptor \<Rightarrow> action list" where
  "client_trace_null method =
    [Store ''lower_method_name'' (LowerMethodName method),
     Print ''this.$lower_method_name$Trace = $RSocketRpcTracing$.trace()\<newline>'']"

definition client_trace_tracer :: "MethodDescriptor \<Rightarrow> action list" where
  "client_trace_tracer method =
    [Store ''lower_method_name'' (LowerMethodName method),
     Store ''method_field_name'' (MethodFieldName method),
     Print ''this.$lower_method_name$Trace = $RSocketRpcTracing$.trace(\<newline>'',
     Indent,
     Print (''tracer,\<newline>'' @
        ''$service_name$.$method_field_name$,\<newline>'' @
        ''$Tag$.of(\"rsocket.service\", $service_name$.$service_field_name$),\<newline>'' @
        ''$Tag$.of(\"rsocket.type\", \"client\"),\<newline>'' @
        ''$Tag$.of(\"rsocket.version\", \"$version$\")\<newline>''),
     Outdent,
     PrintText '')\<newline>'']"

definition client_init :: "ServiceDescriptor \<Rightarrow> action list" where
  "client_init service =
  [PrintText ''\<newline>init {\<newline>'',
   Indent,
   PrintText ''when(tracer) {\<newline>'',
   Indent,
   Print ''null -> {\<newline>'',
   Indent]
  @ concat (map client_trace_null (sd_methods service))
  @ [Outdent,
   PrintText ''}\<newline>'',
   Print ''else -> {\<newline>'',
   Indent]
  @ concat (map client_trace_tracer (sd_methods service))
  @ [Outdent,
   PrintText ''}\<newline>'',
   Outdent,
   PrintText ''}\<newline>'',
   Outdent,
   PrintText ''}\<newline>\<newline>'']"

definition client_method_plain :: "codegen_env \<Rightarrow> MethodDescriptor \<Rightarrow> action list" where
  "client_method_plain env method =
    [Store ''input_type'' (MessageFullKotlinName env (md_input_type method)),
     Store ''output_type'' (MessageFullKotlinName env (md_output_type method)),
     Store ''lower_method_name'' (LowerMethodName method),
     Store ''method_field_name'' (MethodFieldName method)]
    @ (if md_server_streaming method then
      [Print (''@$RSocketRpcGeneratedMethod$(returnTypeClass = $output_type$::class)\<newline>'' @
          ''fun $lower_method_name$'')]
    else
      (if md_client_streaming method then
        [Print (''@$RSocketRpcGeneratedMethod$(returnTypeClass = $output_type$::class)\<newline>'' @
            ''fun $lower_method_name$'')]
      else
        (if fire_and_forget (md_options method) then
          [Print (''@$RSocketRpcGeneratedMethod$(returnTypeClass = $output_type$::class)\<newline>'' @
              ''fun $lower_method_name$'')]
        else
          [Print (''@$RSocketRpcGeneratedMethod$(returnTypeClass = $output_type$::class)\<newline>'' @
              ''fun $lower_method_name$'')])))
    @ (if md_client_streaming method then
      [Print ''(message: $Publisher$<$input_type$>)'']
    else
      [Print ''(message: $input_type$)''])
    @ (if md_server_streaming method then
      [Print '': $Flowable$<$output_type$> {\<newline>'',
       Indent,
       Print ''return $lower_method_name$(message, $Unpooled$.EMPTY_BUFFER)\<newline>'',
       Outdent,
       PrintText ''}\<newline>\<newline>'']
    else
      (if md_client_streaming method then
        [Print '': $Single$<$output_type$> {\<newline>'',
         Indent,
         Print ''return $lower_method_name$(message, $Unpooled$.EMPTY_BUFFER)\<newline>'',
         Outdent,
         PrintText ''}\<newline>\<newline>'']
      else
        (if fire_and_forget (md_options method) then
          [Print '': $Completable$ {\<newline>'',
           Indent,
           Print ''return $lower_method_name$(message, $Unpooled$.EMPTY_BUFFER)\<newline>'',
           Outdent,
           PrintText ''}\<newline>\<newline>'']
        else
          [Print '': $Single$<$output_type$> {\<newline>'',
           Indent,
           Print ''return $lower_method_name$(message, $Unpooled$.EMPTY_BUFFER)\<newline>'',
           Outdent,
           PrintText ''}\<newline>\<newline>''])))"

definition client_method_signature :: "MethodDescriptor \<Rightarrow> action list" where
  "client_method_signature method =
    (if md_server_streaming method then
      [Print (''@$RSocketRpcGeneratedMethod$(returnTypeClass = $output_type$::class)\<newline>'' @
          ''override fun $lower_method_name$'')]
    else
      (if md_client_streaming method then
        [Print (''@$RSocketRpcGeneratedMethod$(returnTypeClass = $output_type$::class)\<newline>'' @
            ''override fun $lower_method_name$'')]
      else
        (if fire_and_forget (md_options method) then
          [Print (''@$RSocketRpcGeneratedMethod$(returnTypeClass = $output_type$::class)\<newline>'' @
              ''override fun $lower_method_name$'')]
        else
          [Print (''@$RSocketRpcGeneratedMethod$(returnTypeClass = $output_type$::class)\<newline>'' @
              ''override fun $lower_method_name$'')])))
    @ (if md_client_streaming method then
      [Print ''(message: $Publisher$<$input_type$>, metadata: $ByteBuf$)\<newline>'',
       Indent]
    else
      [Print ''(message: $input_type$, metadata: $ByteBuf$)\<newline>'',
       Indent])
    @ (if md_server_streaming method then
      [Print '': $Flowable$<$output_type$> {\<newline>'']
    else
      (if md_client_streaming method then
        [Print '': $Single$<$output_type$> {\<newline>'']
      else
        (if fire_and_forget (md_options method) then
          [Print '': $Completable$ {\<newline>'']
        else
          [Print '': $Single$<$output_type$> {\<newline>''])))"

definition client_method_body :: "MethodDescriptor \<Rightarrow> action list" where
  "client_method_body method =
    (if md_client_streaming method then
      [Print ''val map:$Map$<String, String> = $HashMap$()\<newline>'',
       Indent,
       Print ''return rSocket.requestChannel($Flowable$.$from$(message).map(\<newline>'',
       Indent,
       Print ''object : $Function$<$MessageLite$, $Payload$> {\<newline>'',
       Indent,
       Print (''private val once = $AtomicBoolean$(false)\<newline>\<newline>'' @
          ''override fun apply(message: $MessageLite$): $Payload$ {\<newline>''),
       Indent,
       Print (''val data = serialize(message)\<newline>'' @
          ''val metadataBuf: $ByteBuf$ =\<newline>'' @
          ''if (once.compareAndSet(false, true)) {\<newline>''),
       Indent,
       Print ''$RSocketRpcMetadata$.encode($ByteBufAllocator$.DEFAULT, $service_name$.$service_field_name$, $service_name$.$method_field_name$, metadata)\<newline>'',
       Outdent,
       PrintText ''} else {\<newline>'',
       Indent,
       Print ''$Unpooled$.EMPTY_BUFFER\<newline>'',
       Outdent,
       PrintText ''}\<newline>'',
       Print (''val payload = $DefaultPayload$(data, metadataBuf)\<newline>'' @
          ''metadataBuf.release()\<newline>'' @
          ''data.release()\<newline>'' @
          ''return payload\<newline>''),
       Outdent,
       PrintText ''}\<newline>'',
       Outdent]
      @ (if md_server_streaming method then
        [Print ''})).map(deserializer($output_type$.parser())).compose($lower_method_name$Trace(map))\<newline>'']
      else
        [Print ''})).map(deserializer($output_type$.parser())).compose($lower_method_name$Trace(map)).firstOrError()\<newline>''])
      @ [Outdent,
       Outdent,
       PrintText ''}\<newline>\<newline>'']
    else
      [Print ''val map: $Map$<String, String> = $HashMap$()\<newline>'',
       Indent]
      @ (if md_server_streaming method then
        [Print ''return $Flowable$.defer {\<newline>'',
         Indent,
         Print (''val tracingMetadata = $RSocketRpcTracing$.mapToByteBuf($ByteBufAllocator$.DEFAULT, map)\<newline>'' @
            ''val metadataBuf = $RSocketRpcMetadata$.encode($ByteBufAllocator$.DEFAULT, $service_name$.$service_field_name$, $service_name$.$method_field_name$, tracingMetadata, metadata)\<newline>'' @
            ''val data = serialize(message)\<newline>'' @
            ''val payload = $DefaultPayload$(data, metadataBuf)\<newline>'' @
            ''tracingMetadata.release()\<newline>'' @
            ''metadataBuf.release()\<newline>'' @
            ''data.release()\<newline>'' @
            ''rSocket.requestStream(payload)\<newline>''),
         Outdent,
         PrintText ''}\<newline>'',
         Outdent,
         Print ''.map(deserializer($output_type$.parser())).compose($lower_method_name$Trace(map))\<newline>'']
      else
        (if fire_and_forget (md_options method) then
          [Print ''return $Completable$.defer {\<newline>'',
           Indent,
           Print (''val tracingMetadata = $RSocketRpcTracing$.mapToByteBuf($ByteBufAllocator$.DEFAULT, map)\<newline>'' @
              ''val metadataBuf = $RSocketRpcMetadata$.encode($ByteBufAllocator$.DEFAULT, $service_name$.$service_field_name$, $service_name$.$method_field_name$, tracingMetadata, metadata)\<newline>'' @
              ''val data = serialize(message)\<newline>'' @
              ''val payload = $DefaultPayload$(data, metadataBuf)\<newline>'' @
              ''tracingMetadata.release()\<newline>'' @
              ''metadataBuf.release()\<newline>'' @
              ''data.release()\<newline>'' @
              ''rSocket.fireAndForget(payload)\<newline>''),
           Outdent,
           PrintText ''}\<newline>'',
           Outdent,
           Print ''.toFlowable<$output_type$>().compose($lower_method_name$Trace(map)).ignoreElements()\<newline>'']
        else
          [Print ''return $Single$.defer {\<newline>'',
           Indent,
           Print (''val tracingMetadata = $RSocketRpcTracing$.mapToByteBuf($ByteBufAllocator$.DEFAULT, map)\<newline>'' @
              ''val metadataBuf = $RSocketRpcMetadata$.encode($ByteBufAllocator$.DEFAULT, $service_name$.$service_field_name$, $service_name$.$method_field_name$, tracingMetadata, metadata)\<newline>'' @
              ''val data = serialize(message)\<newline>'' @
              ''val payload = $DefaultPayload$(data, metadataBuf)\<newline>'' @
              ''tracingMetadata.release()\<newline>'' @
              ''metadataBuf.release()\<newline>'' @
              ''data.release()\<newline>'' @
              ''rSocket.requestResponse(payload)\<newline>''),
           Outdent,
           PrintText ''}\<newline>'',
           Outdent,
           Print ''.map(deserializer($output_type$.parser())).toFlowable().compose($lower_method_name$Trace(map)).firstOrError()\<newline>'']))
      @ [Outdent,
       PrintText ''}\<newline>\<newline>''])"

definition client_method :: "codegen_env \<Rightarrow> MethodDescriptor \<Rightarrow> action list" where
  "client_method env method =
     client_method_plain env method @ client_method_signature method @ client_method_body method"

definition client_codec :: "action list" where
  "client_codec =
    [Print ''private fun serialize(message: $MessageLite$):$ByteBuf$ {\<newline>'',
     Indent,
     Print (''val length = message.serializedSize\<newline>'' @
        ''val byteBuf = $ByteBufAllocator$.DEFAULT.buffer(length)\<newline>''),
     PrintText ''try {\<newline>'',
     Indent,
     Print (''message.writeTo($CodedOutputStream$.newInstance(byteBuf.nioBuffer(0, length)))\<newline>'' @
        ''byteBuf.writerIndex(length)\<newline>'' @
        ''return byteBuf\<newline>''),
     Outdent,
     PrintText ''} catch (t: Throwable) {\<newline>'',
     Indent,
     PrintText (''byteBuf.release()\<newline>'' @
        ''throw RuntimeException(t)\<newline>''),
     Outdent,
     PrintText ''}\<newline>'',
     Outdent,
     PrintText ''}\<newline>\<newline>'',
     Print ''private fun <T> deserializer(parser: $Parser$<T>): ($Payload$) -> T =\<newline>'',
     Indent,
     Print ''{ payload -> parser.parseFrom($CodedInputStream$.newInstance(payload.data)) }\<newline>'',
     Outdent,
     PrintText ''}\<newline>'']"

definition client_body :: "codegen_env \<Rightarrow> ServiceDescriptor \<Rightarrow> action list" where
  "client_body env service =
     client_header
     @ concat (map (client_trace_field env) (sd_methods service))
     @ client_init service
     @ concat (map (client_method env) (sd_methods service))
     @ client_codec"

definition PrintClient ::
  "codegen_env \<Rightarrow> ServiceDescriptor \<Rightarrow> ProtoFlavor \<Rightarrow> bool \<Rightarrow> action list" where
  "PrintClient env service flavor disable_version =
     client_stores service @ client_version env disable_version @ client_body env service"

definition client_vars :: "(string \<times> string) list" where
  "client_vars =
  [(''Flowable'', ''io.reactivex.Flowable''),
   (''Single'', ''io.reactivex.Single''),
   (''Completable'', ''io.reactivex.Completable''),
   (''from'', ''fromPublisher''),
   (''Function'', ''io.reactivex.functions.Function''),
   (''Supplier'', ''java.util.concurrent.Callable''),
   (''AtomicBoolean'', ''java.util.concurrent.atomic.AtomicBoolean''),
   (''Override'', ''java.lang.Override''),
   (''Publisher'', ''org.reactivestreams.Publisher''),
   (''Generated'', ''javax.annotation.Generated''),
   (''RSocketRpcGenerated'', ''io.rsocket.rpc.kotlin.annotations.Generated''),
   (''RSocketRpcResourceType'', ''io.rsocket.rpc.kotlin.annotations.ResourceType''),
   (''RSocket'', ''io.rsocket.kotlin.RSocket''),
   (''Payload'', ''io.rsocket.kotlin.Payload''),
   (''DefaultPayload'', ''io.rsocket.kotlin.DefaultPayload''),
   (''ByteBuf'', ''io.netty.buffer.ByteBuf''),
   (''ByteBufAllocator'', ''io.netty.buffer.ByteBufAllocator''),
   (''Unpooled'', ''io.netty.buffer.Unpooled''),
   (''ByteBuffer'', ''java.nio.ByteBuffer''),
   (''CodedInputStream'', ''com.google.protobuf.CodedInputStream''),
   (''CodedOutputStream'', ''com.google.protobuf.CodedOutputStream''),
   (''RSocketRpcMetadata'', ''io.rsocket.rpc.kotlin.frames.Metadata''),
   (''RSocketRpcMetrics'', ''io.rsocket.rpc.kotlin.metrics.Metrics''),
   (''MeterRegistry'', ''io.micrometer.core.instrument.MeterRegistry''),
   (''MessageLite'', ''com.google.protobuf.MessageLite''),
   (''Parser'', ''com.google.protobuf.Parser''),
   (''RSocketRpcGeneratedMethod'', ''io.rsocket.rpc.kotlin.annotations.GeneratedMethod''),
   (''RSocketRpcTracing'', ''io.rsocket.rpc.kotlin.tracing.Tracing''),
   (''Tag'', ''io.rsocket.rpc.kotlin.tracing.Tag''),
   (''Tracer'', ''io.opentracing.Tracer''),
   (''Map'', ''Map''),
   (''HashMap'', ''java.util.HashMap''),
   (''Supplier'', ''java.util.concurrent.Callable''),
   (''Empty'', ''com.google.protobuf.Empty'')]"

definition GenerateClient ::
  "codegen_env \<Rightarrow> ServiceDescriptor \<Rightarrow> ProtoFlavor \<Rightarrow> bool \<Rightarrow> action list" where
  "GenerateClient env service flavor disable_version =
     store_vars client_vars
     @ package_clause (ServiceKotlinPackage env (sd_file service)) ''package $package_name$\<newline>\<newline>''
     @ package_prefix (sd_file service)
     @ PrintClient env service flavor disable_version"

section \<open>Indentation\<close>

lemma depth_client_method_plain: "depth (Some n) (client_method_plain env m) = Some n"
  by (simp add: client_method_plain_def acts_simps depth.run_append)

lemma depth_client_method_signature:
  "depth (Some n) (client_method_signature m) = Some (Suc n)"
  by (simp add: client_method_signature_def acts_simps depth.run_append)

lemma depth_client_method_body:
  "depth (Some (Suc n)) (client_method_body m) = Some (if md_client_streaming m then Suc n else n)"
  by (simp add: client_method_body_def acts_simps depth.run_append)

lemma depth_client_methods:
  "depth (Some n) (concat (map (client_method env) ms)) =
     Some (n + length (filter md_client_streaming ms))"
  by (induction ms arbitrary: n)
    (simp_all add: client_method_def acts_simps depth.run_append depth_client_method_plain
      depth_client_method_signature depth_client_method_body)

lemma depth_client_trace:
  "depth (Some n) (client_trace_field env m) = Some n"
  "depth (Some n) (client_trace_null m) = Some n"
  "depth (Some n) (client_trace_tracer m) = Some n"
  by (simp_all add: client_trace_field_def client_trace_null_def client_trace_tracer_def acts_simps)

lemma depth_GenerateClient:
  "depth (Some 0) (GenerateClient env service flavor disable_version) =
     Some (2 + length (filter md_client_streaming (sd_methods service)))"
  by (simp add: GenerateClient_def PrintClient_def client_stores_def client_version_def
      client_body_def client_header_def client_init_def client_codec_def depth.run_append
      depth.run_loop depth_client_methods depth_client_trace acts_simps split: option.split)

section \<open>Variables\<close>

text \<open>Variables for classes the text never refers to (\<open>RuntimeClasses\<close> says which those are).\<close>

definition client_unused :: "string set" where
  "client_unused = {''RSocketRpcMetrics''}"

definition client_known :: "string \<Rightarrow> bool" where
  "client_known n \<longleftrightarrow> n \<in> fst ` set client_vars \<and> n \<notin> client_unused \<or>
     n \<in> {''Package'', ''service_name'', ''service_field_name'', ''file_name'',
       ''client_class_name'', ''rsocket_rpc_version'', ''version''}"

lemma client_names: "fst ` set client_vars =
    {''Flowable'', ''Single'', ''Completable'', ''from'', ''Function'', ''Supplier'',
     ''AtomicBoolean'', ''Override'', ''Publisher'', ''Generated'', ''RSocketRpcGenerated'',
     ''RSocketRpcResourceType'', ''RSocket'', ''Payload'', ''DefaultPayload'', ''ByteBuf'',
     ''ByteBufAllocator'', ''Unpooled'', ''ByteBuffer'', ''CodedInputStream'',
     ''CodedOutputStream'', ''RSocketRpcMetadata'', ''RSocketRpcMetrics'', ''MeterRegistry'',
     ''MessageLite'', ''Parser'', ''RSocketRpcGeneratedMethod'', ''RSocketRpcTracing'',
     ''Tag'', ''Tracer'', ''Map'', ''HashMap'', ''Empty''}"
  by (auto simp: client_vars_def)

lemma client_known_table:
  "client_known ''Flowable''" "client_known ''Single''" "client_known ''Completable''"
  "client_known ''from''" "client_known ''Function''" "client_known ''AtomicBoolean''"
  "client_known ''Publisher''" "client_known ''Generated''" "client_known ''RSocketRpcGenerated''"
  "client_known ''RSocketRpcResourceType''" "client_known ''RSocket''" "client_known ''Payload''"
  "client_known ''DefaultPayload''" "client_known ''ByteBuf''" "client_known ''ByteBufAllocator''"
  "client_known ''Unpooled''" "client_known ''CodedInputStream''"
  "client_known ''CodedOutputStream''" "client_known ''RSocketRpcMetadata''"
  "client_known ''MessageLite''" "client_known ''Parser''"
  "client_known ''RSocketRpcGeneratedMethod''" "client_known ''RSocketRpcTracing''"
  "client_known ''Tag''" "client_known ''Tracer''" "client_known ''Map''" "client_known ''HashMap''"
  "client_known ''service_name''" "client_known ''service_field_name''"
  "client_known ''file_name''" "client_known ''client_class_name''"
  "client_known ''rsocket_rpc_version''" "client_known ''version''"
  by (simp_all only: client_known_def client_names client_unused_def insert_iff empty_iff list.inject
      list.distinct char.inject simp_thms)

text \<open>Each method stores the four variables its text uses before it prints anything.\<close>

definition client_method_known :: "string \<Rightarrow> bool" where
  "client_method_known n \<longleftrightarrow> client_known n \<or>
     n \<in> {''input_type'', ''output_type'', ''lower_method_name'', ''method_field_name''}"

lemma client_method_known_table:
  "client_known n \<Longrightarrow> client_method_known n"
  "client_method_known ''input_type''" "client_method_known ''output_type''"
  "client_method_known ''lower_method_name''" "client_method_known ''method_field_name''"
  by (simp_all add: client_method_known_def)

lemma all_defined_client_method: "all_defined client_known (client_method env m)"
proof -
  have plain: "all_defined client_known (client_method_plain env m)"
    by (cases "md_client_streaming m"; cases "md_server_streaming m";
        cases "fire_and_forget (md_options m)")
      (simp_all add: client_method_plain_def template_eval cls_table client_known_table)
  have known: "known_after client_known (client_method_plain env m) n" if "client_method_known n" for n
    using that by (auto simp: client_method_plain_def client_method_known_def acts_simps)
  have signature: "all_defined client_method_known (client_method_signature m)"
    by (simp add: client_method_signature_def all_defined_append template_eval cls_table
        client_known_table client_method_known_table acts_simps)
  have "all_defined client_method_known (client_method_body m)"
    by (cases "md_client_streaming m"; cases "md_server_streaming m";
        cases "fire_and_forget (md_options m)")
      (simp_all add: client_method_body_def template_eval cls_table client_known_table
        client_method_known_table)
  then have "all_defined client_method_known (client_method_signature m @ client_method_body m)"
    by (rule all_defined_append_mono [OF signature])
  with plain known show ?thesis unfolding client_method_def by (rule all_defined_after)
qed

lemma all_defined_client_trace:
  "all_defined client_known (client_trace_field env m)"
  "all_defined client_known (client_trace_null m)"
  "all_defined client_known (client_trace_tracer m)"
  by (simp_all add: client_trace_field_def client_trace_null_def client_trace_tracer_def
      template_eval cls_table client_known_table)

lemma all_defined_client_body: "all_defined client_known (client_body env service)"
  unfolding client_body_def client_header_def client_init_def client_codec_def
  by (intro all_defined_append_mono all_defined_loop all_defined_client_method
      all_defined_client_trace)
    (simp_all add: template_eval cls_table client_known_table)

lemma client_known_stored:
  assumes "client_known n"
  shows "known_after (\<lambda>_. False)
    (store_vars client_vars @ package_clause p t @ package_prefix f @ client_stores s
      @ client_version env d) n"
  using assms
  by (auto simp: acts_simps client_known_def client_stores_def client_version_def
      split: option.split)

lemma all_defined_GenerateClient:
  "all_defined (\<lambda>_. False) (GenerateClient env service flavor disable_version)"
proof -
  let ?pre = "store_vars client_vars
     @ package_clause (ServiceKotlinPackage env (sd_file service)) ''package $package_name$\<newline>\<newline>''
     @ package_prefix (sd_file service) @ client_stores service
     @ client_version env disable_version"
  have "all_defined (\<lambda>_. False) ?pre"
    by (intro all_defined_append_mono acts_simps)
      (simp_all add: client_stores_def client_version_def split: option.split)
  then have "all_defined (\<lambda>_. False) (?pre @ client_body env service)"
    by (rule all_defined_after [OF _ client_known_stored all_defined_client_body])
  then show ?thesis by (simp add: GenerateClient_def PrintClient_def)
qed

section \<open>The text\<close>

lemma alex_client_trace:
  assumes "clean_method env m"
  shows "alex (LCode s) (client_trace_field env m) = LCode s"
    "alex (LCode s) (client_trace_null m) = LCode s"
    "alex (LCode s) (client_trace_tracer m) = LCode s"
  using assms
  by (simp_all add: client_trace_field_def client_trace_null_def client_trace_tracer_def
      alex_eval clean_names expand_def)

lemma alex_client_method_plain:
  assumes "clean_method env m"
  shows "alex (LCode s) (client_method_plain env m) = LCode s"
  using assms
  by (cases "md_client_streaming m"; cases "md_server_streaming m";
      cases "fire_and_forget (md_options m)")
    (simp_all add: client_method_plain_def alex_eval clean_names expand_def)

text \<open>The signature opens the brace that the body closes.\<close>

lemma alex_client_method_signature:
  "alex (LCode s) (client_method_signature m) = LCode (Curly # s)"
  by (cases "md_client_streaming m"; cases "md_server_streaming m";
      cases "fire_and_forget (md_options m)")
    (simp_all add: client_method_signature_def alex_eval expand_def)

lemma alex_client_method_body:
  "alex (LCode (Curly # s)) (client_method_body m) = LCode s"
  by (cases "md_client_streaming m"; cases "md_server_streaming m";
      cases "fire_and_forget (md_options m)")
    (simp_all add: client_method_body_def alex_eval expand_def)

lemma alex_client_method:
  assumes "clean_method env m"
  shows "alex (LCode s) (client_method env m) = LCode s"
  using assms by (simp add: client_method_def alex.run_append alex_client_method_plain
      alex_client_method_signature alex_client_method_body)

lemma alex_client_stores:
  assumes "clean_env env" "clean_service env service"
  shows "alex k (client_stores service @ client_version env disable_version) = k"
  using assms
  by (auto simp: client_stores_def client_version_def alex_eval clean_names
      split: option.split)

lemma client_vars_clean: "\<forall>(n, v)\<in>set client_vars. clean_value n v"
  by (simp add: client_vars_def clean_value_def str_only_def clean_names cls_table)

lemma alex_client_header: "alex (LCode s) client_header = LCode (Curly # s)"
  by (simp add: client_header_def alex_eval)

lemma alex_client_codec: "alex (LCode (Curly # s)) client_codec = LCode s"
  by (simp add: client_codec_def alex_eval expand_def)

lemma alex_client_body:
  assumes "clean_env env" "clean_service env service"
  shows "alex (LCode []) (client_body env service) = LCode []"
proof -
  have loops: "alex (LCode s) (concat (map (client_trace_field env) (sd_methods service))) = LCode s"
    "alex (LCode s) (concat (map client_trace_null (sd_methods service))) = LCode s"
    "alex (LCode s) (concat (map client_trace_tracer (sd_methods service))) = LCode s"
    "alex (LCode s) (concat (map (client_method env) (sd_methods service))) = LCode s" for s
    using assms by (auto intro!: alex.run_loop alex_client_trace alex_client_method
        dest: clean_service_method)
  have "alex (LCode s) (client_init service) = LCode s" for s
    using loops by (simp add: client_init_def alex_eval expand_def)
  then show ?thesis
    using loops by (simp add: client_body_def alex.run_append alex_client_header alex_client_codec)
qed

lemma alex_GenerateClient:
  assumes "clean_env env" "clean_service env service"
  shows "alex (LCode []) (GenerateClient env service flavor disable_version) = LCode []"
  using assms alex_client_stores [OF assms, of "LCode []"]
  by (simp add: GenerateClient_def PrintClient_def alex.run_append alex_client_body
      alex_store_vars client_vars_clean acts_simps clean_names)

interpretation client_generator: file_generator GenerateClient
  by unfold_locales (rule all_defined_GenerateClient, rule alex_GenerateClient)

section \<open>What is printed\<close>

text \<open>
  C40: printing the client never outdents below the margin, but does not come back to it:
  two levels stay open after the class header, and one more for every method that streams
  from the client.
\<close>

theorem client_indentation:
  "depth_of_calls (Some 0) (calls Map.empty (GenerateClient env service flavor disable_version)) =
     Some (2 + length (filter md_client_streaming (sd_methods service)))"
  by (simp add: depth_calls depth_GenerateClient)

text \<open>
  C37: whatever layout a documented printer gives it, the client file of a service whose
  names are names is balanced Kotlin.
\<close>

theorem client_written:
  assumes "clean_env env" "clean_service env service" "documented_printer written"
  shows "kotlin_balanced
    (written (calls Map.empty (GenerateClient env service flavor disable_version)))"
  using assms by (rule client_generator.gen_written) (simp add: depth_GenerateClient)

theorem client_written_witness:
  "kotlin_balanced
    (indenting_printer (calls Map.empty (GenerateClient sample_env sample_service NORMAL False)))"
  by (rule client_written [OF clean_samples(1,2) documented_indenting_printer])

end
