(* ===== verification/ServerGen.thy ===== *)
theory ServerGen
  imports GeneratorCommon
begin

text \<open>
  \<open>PrintServer\<close> and \<open>GenerateServer\<close> of \<open>kotlin_generator.cpp\<close>: the class that receives
  requests and dispatches them to the service's implementation. One definition per stretch
  of \<open>PrintServer\<close>, in its order: header, trace fields, \<open>init\<close> block, the sorting of the
  methods into four vectors, one handler per interaction, serializer and deserializer.
\<close>

section \<open>Model\<close>

definition server_stores :: "ServiceDescriptor \<Rightarrow> action list" where
  "server_stores service =
  [Store ''service_name'' (sd_name service),
   Store ''service_field_name'' (ServiceFieldName service),
   Store ''file_name'' (fd_name (sd_file service)),
   Store ''server_class_name'' (ServerClassName service)]"

definition server_version :: "codegen_env \<Rightarrow> bool \<Rightarrow> action list" where
  "server_version env disable_version =
     [Store ''rsocket_rpc_version'' [],
      Store ''version'' []]
     @ (case macro_rsocket_rpc_version env of
          None \<Rightarrow> []
        | Some v \<Rightarrow>
            if \<not> disable_version
            then [Store ''rsocket_rpc_version''
                    ('' (version '' @ XSTR ''rsocket_rpc_version'' (Some v) @ '')''),
                  Store ''version'' (XSTR ''rsocket_rpc_version'' (Some v))]
            else [])"

definition server_header :: "action list" where
  "server_header =
  [Print (''@$Generated$(\<newline>'' @
      ''    value = [\"by RSocket RPC proto compiler$rsocket_rpc_version$\"],\<newline>'' @
      ''    comments = \"Source: $file_name$\")\<newline>'' @
      ''@$RSocketRpcGenerated$(\<newline>'' @
      ''    type = $RSocketRpcResourceType$.SERVICE,\<newline>'' @
      ''    idlClass = $service_name$::class)\<newline>'' @
      ''@$Named$(\<newline>'' @
      ''    value =\"$server_class_name$\")\<newline>'' @
      ''class $server_class_name$ @$Inject$ constructor(\<newline>''),
   Indent,
   Print (''private val serviceImpl: $service_name$,\<newline>'' @
      ''private val tracer: $Tracer$? = null)\<newline>'' @
      '': $AbstractRSocketService$() {\<newline>'')]"

definition server_trace_field :: "MethodDescriptor \<Rightarrow> action list" where
  "server_trace_field method =
    [Store ''lower_method_name'' (LowerMethodName method)]
    @ (if md_server_streaming method then
      [Print ''private val $lower_method_name$Trace: ($SpanContext$?) -> io.reactivex.FlowableTransformer<$Payload$, $Payload$>\<newline>'']
    else
      (if md_client_streaming method then
        [Print ''private val $lower_method_name$Trace: ($SpanContext$?) -> io.reactivex.FlowableTransformer<$Payload$, $Payload$>\<newline>'']
      else
        (if fire_and_forget (md_options method) then
          [Print ''private val $lower_method_name$Trace: ($SpanContext$?) -> io.reactivex.FlowableTransformer<$Empty$, $Empty$>\<newline>'']
        else
          [Print ''private val $lower_method_name$Trace: ($SpanContext$?) -> io.reactivex.FlowableTransformer<$Payload$, $Payload$>\<newline>''])))"

definition server_trace_null :: "MethodDescriptor \<Rightarrow> action list" where
  "server_trace_null method =
    [Store ''lower_method_name'' (LowerMethodName method),
     Print ''this.$lower_method_name$Trace = $RSocketRpcTracing$.traceAsChild()\<newline>'']"

definition server_trace_tracer :: "MethodDescriptor \<Rightarrow> action list" where
  "server_trace_tracer method =
    [Store ''lower_method_name'' (LowerMethodName method),
     Store ''method_field_name'' (MethodFieldName method),
     Print ''this.$lower_method_name$Trace = $RSocketRpcTracing$.traceAsChild(\<newline>'',
     Indent,
     Print (''tracer,\<newline>'' @
        ''$service_name$.$method_field_name$,\<newline>'' @
        ''$Tag$.of(\"rsocket.service\", $service_name$.$service_field_name$),\<newline>'' @
        ''$Tag$.of(\"rsocket.type\", \"server\"),\<newline>'' @
        ''$Tag$.of(\"rsocket.version\", \"$version$\")\<newline>''),
     Outdent,
     PrintText '')\<newline>'']"

definition server_init :: "ServiceDescriptor \<Rightarrow> action list" where
  "server_init service =
  [PrintText ''\<newline>init {\<newline>'',
   Indent,
   PrintText ''when(tracer) {\<newline>'',
   Indent,
   Print ''null -> {\<newline>'',
   Indent]
  @ concat (map server_trace_null (sd_methods service))
  @ [Outdent,
   PrintText ''}\<newline>'',
   Print ''else -> {\<newline>'',
   Indent]
  @ concat (map server_trace_tracer (sd_methods service))
  @ [Outdent,
   PrintText ''}\<newline>'',
   Outdent,
   PrintText ''}\<newline>'',
   Outdent,
   PrintText ''}\<newline>\<newline>'']"

definition server_service :: "action list" where
  "server_service =
  [Print ''override val service: String = $service_name$.$service_field_name$\<newline>'',
   PrintText ''\<newline>'',
   Print ''override val serviceClass = serviceImpl.javaClass\<newline>'',
   PrintText ''\<newline>'']"

text \<open>The four vectors and the loop that fills them with \<open>push_back\<close>.\<close>

record method_vectors =
  vec_fire_and_forget :: "MethodDescriptor list"
  vec_request_response :: "MethodDescriptor list"
  vec_request_stream :: "MethodDescriptor list"
  vec_request_channel :: "MethodDescriptor list"

definition push_method :: "method_vectors \<Rightarrow> MethodDescriptor \<Rightarrow> method_vectors" where
  "push_method v method =
     (if md_client_streaming method
      then v\<lparr>vec_request_channel := vec_request_channel v @ [method]\<rparr>
      else if md_server_streaming method
      then v\<lparr>vec_request_stream := vec_request_stream v @ [method]\<rparr>
      else if fire_and_forget (md_options method)
      then v\<lparr>vec_fire_and_forget := vec_fire_and_forget v @ [method]\<rparr>
      else v\<lparr>vec_request_response := vec_request_response v @ [method]\<rparr>)"

definition sort_methods :: "MethodDescriptor list \<Rightarrow> method_vectors" where
  "sort_methods methods =
     foldl push_method
       \<lparr>vec_fire_and_forget = [], vec_request_response = [],
        vec_request_stream = [], vec_request_channel = []\<rparr> methods"

definition server_fnf_case :: "codegen_env \<Rightarrow> MethodDescriptor \<Rightarrow> action list" where
  "server_fnf_case env method =
    [Store ''input_type'' (MessageFullKotlinName env (md_input_type method)),
     Store ''lower_method_name'' (LowerMethodName method),
     Store ''method_field_name'' (MethodFieldName method),
     Indent,
     Print ''$service_name$.$method_field_name$ -> {\<newline>'',
     Indent,
     Print (''val inputStream = $CodedInputStream$.newInstance(payload.data)\<newline>'' @
        ''serviceImpl.$lower_method_name$($input_type$.parseFrom(inputStream), metadata).toFlowable<$Empty$>().compose($lower_method_name$Trace(spanContext)).ignoreElements()\<newline>''),
     Outdent,
     PrintText ''}\<newline>'',
     Outdent]"

definition server_fnf :: "codegen_env \<Rightarrow> MethodDescriptor list \<Rightarrow> action list" where
  "server_fnf env methods =
  [Print ''override fun fireAndForget(payload: $Payload$):$Completable$ {\<newline>'',
   Indent]
  @ (if methods = [] then
    [Print ''return $Completable$.error(UnsupportedOperationException(\"Fire and forget not implemented.\"))\<newline>'']
  else
    [Print ''try {\<newline>'',
     Indent,
     Print (''val metadata = $Unpooled$.wrappedBuffer(payload.metadata)\<newline>'' @
        ''val spanContext = $RSocketRpcTracing$.deserializeTracingMetadata(tracer, metadata)\<newline>'' @
        ''val method = $RSocketRpcMetadata$.getMethod(metadata)\<newline>'' @
        ''return when (method) {\<newline>''),
     Indent]
    @ concat (map (server_fnf_case env) methods)
    @ [Print ''else -> $Completable$.error(UnsupportedOperationException())'',
     Outdent,
     PrintText ''}\<newline>'',
     Outdent,
     PrintText ''} catch (t: Throwable) {\<newline>'',
     Indent,
     Print ''return $Completable$.error(t)\<newline>'',
     Outdent,
     PrintText ''}\<newline>''])
  @ [Outdent,
   PrintText ''}\<newline>\<newline>'']"

definition server_rr_case :: "codegen_env \<Rightarrow> MethodDescriptor \<Rightarrow> action list" where
  "server_rr_case env method =
    [Store ''input_type'' (MessageFullKotlinName env (md_input_type method)),
     Store ''output_type'' (MessageFullKotlinName env (md_output_type method)),
     Store ''lower_method_name'' (LowerMethodName method),
     Store ''method_field_name'' (MethodFieldName method),
     Print ''$service_name$.$method_field_name$ -> {\<newline>'',
     Indent,
     Print (''val inputStream = $CodedInputStream$.newInstance(payload.data)\<newline>'' @
        ''serviceImpl.$lower_method_name$($input_type$.parseFrom(inputStream), metadata).map(serializer).toFlowable().compose($lower_method_name$Trace(spanContext)).firstOrError()\<newline>''),
     Outdent,
     PrintText ''}\<newline>'']"

definition server_rr :: "codegen_env \<Rightarrow> MethodDescriptor list \<Rightarrow> action list" where
  "server_rr env methods =
  [Print ''override fun requestResponse(payload: $Payload$): $Single$<$Payload$> {\<newline>'',
   Indent]
  @ (if methods = [] then
    [Print ''return $Single$.error(UnsupportedOperationException(\"Request-Response not implemented.\"))\<newline>'']
  else
    [Print ''try {\<newline>'',
     Indent,
     Print (''val metadata = $Unpooled$.wrappedBuffer(payload.metadata)\<newline>'' @
        ''val spanContext = $RSocketRpcTracing$.deserializeTracingMetadata(tracer, metadata)\<newline>'' @
        ''val method = $RSocketRpcMetadata$.getMethod(metadata)\<newline>'' @
        ''return when (method) {\<newline>''),
     Indent]
    @ concat (map (server_rr_case env) methods)
    @ [Print ''else -> $Single$.error(UnsupportedOperationException())\<newline>'',
     Outdent,
     PrintText ''}\<newline>'',
     Outdent,
     PrintText ''} catch (t: Throwable) {\<newline>'',
     Indent,
     Print ''return $Single$.error(t)\<newline>'',
     Outdent,
     PrintText ''}\<newline>''])
  @ [Outdent,
   PrintText ''}\<newline>\<newline>'']"

definition server_rs_case :: "codegen_env \<Rightarrow> MethodDescriptor \<Rightarrow> action list" where
  "server_rs_case env method =
    [Store ''input_type'' (MessageFullKotlinName env (md_input_type method)),
     Store ''output_type'' (MessageFullKotlinName env (md_output_type method)),
     Store ''lower_method_name'' (LowerMethodName method),
     Store ''method_field_name'' (MethodFieldName method),
     Print ''$service_name$.$method_field_name$ -> {\<newline>'',
     Indent,
     Print (''val inputStream = $CodedInputStream$.newInstance(payload.data)\<newline>'' @
        ''serviceImpl.$lower_method_name$($input_type$.parseFrom(inputStream), metadata).map(serializer).compose($lower_method_name$Trace(spanContext))\<newline>''),
     Outdent,
     PrintText ''}\<newline>'']"

definition server_rs :: "codegen_env \<Rightarrow> MethodDescriptor list \<Rightarrow> action list" where
  "server_rs env methods =
  [Print ''override fun requestStream(payload: $Payload$): $Flowable$<$Payload$> {\<newline>'',
   Indent]
  @ (if methods = [] then
    [Print ''return $Flowable$.error(UnsupportedOperationException(\"Request-Stream not implemented.\"))\<newline>'']
  else
    [Print ''try {\<newline>'',
     Indent,
     Print (''val metadata = $Unpooled$.wrappedBuffer(payload.metadata)\<newline>'' @
        ''val spanContext = $RSocketRpcTracing$.deserializeTracingMetadata(tracer, metadata)\<newline>'' @
        ''val method = $RSocketRpcMetadata$.getMethod(metadata)\<newline>'' @
        ''return when (method) {\<newline>''),
     Indent]
    @ concat (map (server_rs_case env) methods)
    @ [Print ''else -> $Flowable$.error(UnsupportedOperationException())\<newline>'',
     PrintText ''}\<newline>'',
     Outdent,
     PrintText ''} catch (t: Throwable) {\<newline>'',
     Indent,
     Print ''return $Flowable$.error(t)\<newline>'',
     Outdent,
     PrintText ''}\<newline>''])
  @ [Outdent,
   PrintText ''}\<newline>\<newline>'']"

definition server_rc_case :: "codegen_env \<Rightarrow> MethodDescriptor \<Rightarrow> action list" where
  "server_rc_case env method =
    [Store ''input_type'' (MessageFullKotlinName env (md_input_type method)),
     Store ''output_type'' (MessageFullKotlinName env (md_output_type method)),
     Store ''lower_method_name'' (LowerMethodName method),
     Store ''method_field_name'' (MethodFieldName method),
     Print ''$service_name$.$method_field_name$ -> {\<newline>'',
     Indent,
     Print ''val message: $Flowable$<$input_type$> =\<newline>'',
     Indent,
     Print ''publisher.startWith(payload).map(deserializer($input_type$.parser()))\<newline>'',
     Outdent]
    @ (if md_server_streaming method then
      [Print ''return serviceImpl.$lower_method_name$(message, metadata).map(serializer).compose($lower_method_name$Trace(spanContext))\<newline>'']
    else
      [Print ''return serviceImpl.$lower_method_name$(message, metadata).map(serializer).toFlowable().compose($lower_method_name$Trace(spanContext))\<newline>''])
    @ [Outdent,
     PrintText ''}\<newline>'']"

definition server_rc :: "codegen_env \<Rightarrow> MethodDescriptor list \<Rightarrow> action list" where
  "server_rc env methods =
  [Print ''override fun requestChannel(payload: $Payload$, publisher: $Flowable$<$Payload$>): $Flowable$<$Payload$> {\<newline>'',
   Indent]
  @ (if methods = [] then
    [Print ''return $Flowable$.error(UnsupportedOperationException(\"Request-Channel not implemented.\"))\<newline>'']
  else
    [Print ''try {\<newline>'',
     Indent,
     Print (''val metadata = $Unpooled$.wrappedBuffer(payload.metadata)\<newline>'' @
        ''val spanContext = $RSocketRpcTracing$.deserializeTracingMetadata(tracer, metadata)\<newline>'' @
        ''val method = $RSocketRpcMetadata$.getMethod(metadata)\<newline>'' @
        ''return when (method) {\<newline>''),
     Indent]
    @ concat (map (server_rc_case env) methods)
    @ [Print ''else  -> $Flowable$.error(UnsupportedOperationException())\<newline>'',
     PrintText ''}\<newline>'',
     Outdent,
     PrintText ''} catch (t: Throwable) {\<newline>'',
     Indent,
     Print ''return $Flowable$.error(t)\<newline>'',
     Outdent,
     PrintText ''}\<newline>''])
  @ [Outdent,
   PrintText ''}\<newline>\<newline>'']"

definition server_rc_publisher :: "MethodDescriptor list \<Rightarrow> action list" where
  "server_rc_publisher methods =
  [Print ''override fun requestChannel(payloads: $Publisher$<$Payload$>): $Flowable$<$Payload$> {\<newline>'',
   Indent]
  @ (if methods = [] then
    [Print ''return $Flowable$.error(UnsupportedOperationException(\"Request-Channel not implemented.\"))\<newline>'']
  else
    [Print ''return $StreamSplitter$.split(payloads)\<newline>'',
     Indent,
     Print ''.flatMap { (head, tail) -> requestChannel(head, tail) }\<newline>''])
  @ [Outdent,
   PrintText ''}\<newline>\<newline>'']"

definition server_codec :: "action list" where
  "server_codec =
  [PrintText ''companion object {\<newline>'',
   Indent,
   Print ''private val serializer:($MessageLite$) -> $Payload$ = { message ->\<newline>'',
   Indent,
   Print (''val length = message.serializedSize\<newline>'' @
      ''val byteBuf = $ByteBufAllocator$.DEFAULT.buffer(length)\<newline>''),
   PrintText ''try {\<newline>'',
   Indent,
   Print (''message.writeTo($CodedOutputStream$.newInstance(byteBuf.nioBuffer(0, length)))\<newline>'' @
      ''byteBuf.writerIndex(length)\<newline>'' @
      ''$DefaultPayload$(byteBuf, $Unpooled$.EMPTY_BUFFER)\<newline>''),
   Outdent,
   PrintText ''} catch (t: Throwable) {\<newline>'',
   Indent,
   PrintText ''throw RuntimeException(t)\<newline>'',
   Outdent,
   PrintText ''} finally {\<newline>'',
   Indent,
   PrintText ''byteBuf.release()\<newline>'',
   Outdent,
   PrintText ''}\<newline>'',
   Outdent,
   PrintText ''}\<newline>\<newline>'',
   Outdent,
   Print ''private fun <T> deserializer(parser: $Parser$<T>):($Payload$) -> T {\<newline>'',
   Indent,
   Print ''return { payload -> \<newline>'',
   Indent,
   Print ''try {\<newline>'',
   Indent,
   Print (''val inputStream = $CodedInputStream$.newInstance(payload.data)\<newline>'' @
      ''parser.parseFrom(inputStream)\<newline>''),
   Outdent,
   PrintText ''} catch (t: Throwable) {\<newline>'',
   Indent,
   Print ''throw RuntimeException(t)\<newline>'',
   Outdent,
   PrintText ''}\<newline>'',
   Outdent,
   PrintText ''}\<newline>'',
   Outdent,
   PrintText ''}\<newline>'',
   Outdent,
   PrintText ''}\<newline>'',
   Outdent,
   PrintText ''}\<newline>'']"

definition server_body :: "codegen_env \<Rightarrow> ServiceDescriptor \<Rightarrow> action list" where
  "server_body env service =
     (let v = sort_methods (sd_methods service)
      in server_header
         @ concat (map server_trace_field (sd_methods service))
         @ server_init service
         @ server_service
         @ server_fnf env (vec_fire_and_forget v)
         @ server_rr env (vec_request_response v)
         @ server_rs env (vec_request_stream v)
         @ server_rc env (vec_request_channel v)
         @ server_rc_publisher (vec_request_channel v)
         @ server_codec)"

definition PrintServer ::
  "codegen_env \<Rightarrow> ServiceDescriptor \<Rightarrow> ProtoFlavor \<Rightarrow> bool \<Rightarrow> action list" where
  "PrintServer env service flavor disable_version =
     server_stores service @ server_version env disable_version @ server_body env service"

definition server_vars :: "(string \<times> string) list" where
  "server_vars =
  [(''Flowable'', ''io.reactivex.Flowable''),
   (''Single'', ''io.reactivex.Single''),
   (''Completable'', ''io.reactivex.Completable''),
   (''from'', ''from''),
   (''flux'', ''flux''),
   (''flatMap'', ''flatMapPublisher''),
   (''Function'', ''io.reactivex.functions.Function''),
   (''Supplier'', ''io.rsocket.rpc.kotlin.util.Supplier''),
   (''BiFunction'', ''io.rsocket.rpc.kotlin.util.BiFunction''),
   (''Override'', ''java.lang.Override''),
   (''Publisher'', ''org.reactivestreams.Publisher''),
   (''Generated'', ''javax.annotation.Generated''),
   (''RSocketRpcGenerated'', ''io.rsocket.rpc.kotlin.annotations.Generated''),
   (''RSocket'', ''io.rsocket.kotlin.RSocket''),
   (''Payload'', ''io.rsocket.kotlin.Payload''),
   (''DefaultPayload'', ''io.rsocket.kotlin.DefaultPayload''),
   (''AbstractRSocketService'', ''io.rsocket.rpc.kotlin.AbstractRSocketService''),
   (''RSocketRpcMetadata'', ''io.rsocket.rpc.kotlin.frames.Metadata''),
   (''RSocketRpcMetrics'', ''io.rsocket.rpc.kotlin.metrics.Metrics''),
   (''MeterRegistry'', ''io.micrometer.core.instrument.MeterRegistry''),
   (''ByteBufs'', ''io.rsocket.rpc.kotlin.util.ByteBufs''),
   (''ByteBuf'', ''io.netty.buffer.ByteBuf''),
   (''ByteBuffer'', ''java.nio.ByteBuffer''),
   (''ByteBufAllocator'', ''io.netty.buffer.ByteBufAllocator''),
   (''CodedInputStream'', ''com.google.protobuf.CodedInputStream''),
   (''CodedOutputStream'', ''com.google.protobuf.CodedOutputStream''),
   (''MessageLite'', ''com.google.protobuf.MessageLite''),
   (''Parser'', ''com.google.protobuf.Parser''),
   (''Inject'', ''javax.inject.Inject''),
   (''Unpooled'', ''io.netty.buffer.Unpooled''),
   (''Named'', ''javax.inject.Named''),
   (''RSocketRpcResourceType'', ''io.rsocket.rpc.kotlin.annotations.ResourceType''),
   (''RSocketRpcTracing'', ''io.rsocket.rpc.kotlin.tracing.Tracing''),
   (''Tag'', ''io.rsocket.rpc.kotlin.tracing.Tag''),
   (''SpanContext'', ''io.opentracing.SpanContext''),
   (''Tracer'', ''io.opentracing.Tracer''),
   (''Empty'', ''com.google.protobuf.Empty''),
   (''StreamSplitter'', ''io.rsocket.rpc.kotlin.util.StreamSplitter'')]"

definition GenerateServer ::
  "codegen_env \<Rightarrow> ServiceDescriptor \<Rightarrow> ProtoFlavor \<Rightarrow> bool \<Rightarrow> action list" where
  "GenerateServer env service flavor disable_version =
     store_vars server_vars
     @ package_clause (ServiceKotlinPackage env (sd_file service)) ''package $package_name$;\<newline>\<newline>''
     @ package_prefix (sd_file service)
     @ PrintServer env service flavor disable_version"

section \<open>The vectors\<close>

text \<open>Each vector holds, in declaration order, the methods of its interaction.\<close>

lemma sort_methods_from:
  "foldl push_method v ms =
     \<lparr>vec_fire_and_forget = vec_fire_and_forget v @ filter (\<lambda>m. interaction_of m = FireAndForget) ms,
      vec_request_response = vec_request_response v @ filter (\<lambda>m. interaction_of m = RequestResponse) ms,
      vec_request_stream = vec_request_stream v @ filter (\<lambda>m. interaction_of m = RequestStream) ms,
      vec_request_channel = vec_request_channel v @ filter (\<lambda>m. interaction_of m = RequestChannel) ms\<rparr>"
proof (induction ms arbitrary: v)
  case Nil
  show ?case by simp
next
  case (Cons m ms)
  have "push_method v m =
    (case interaction_of m of
       FireAndForget \<Rightarrow> v\<lparr>vec_fire_and_forget := vec_fire_and_forget v @ [m]\<rparr>
     | RequestResponse \<Rightarrow> v\<lparr>vec_request_response := vec_request_response v @ [m]\<rparr>
     | RequestStream \<Rightarrow> v\<lparr>vec_request_stream := vec_request_stream v @ [m]\<rparr>
     | RequestChannel \<Rightarrow> v\<lparr>vec_request_channel := vec_request_channel v @ [m]\<rparr>)"
    by (simp add: push_method_def interaction_of_def)
  then show ?case by (cases "interaction_of m") (simp_all add: Cons)
qed

lemma sort_methods_filter:
  "vec_fire_and_forget (sort_methods ms) = filter (\<lambda>m. interaction_of m = FireAndForget) ms"
  "vec_request_response (sort_methods ms) = filter (\<lambda>m. interaction_of m = RequestResponse) ms"
  "vec_request_stream (sort_methods ms) = filter (\<lambda>m. interaction_of m = RequestStream) ms"
  "vec_request_channel (sort_methods ms) = filter (\<lambda>m. interaction_of m = RequestChannel) ms"
  by (simp_all add: sort_methods_def sort_methods_from)

lemma set_sort_methods:
  "set (vec_fire_and_forget (sort_methods ms)) \<subseteq> set ms"
  "set (vec_request_response (sort_methods ms)) \<subseteq> set ms"
  "set (vec_request_stream (sort_methods ms)) \<subseteq> set ms"
  "set (vec_request_channel (sort_methods ms)) \<subseteq> set ms"
  by (auto simp: sort_methods_filter)

section \<open>Indentation\<close>

lemma depth_server_cases:
  "depth (Some n) (server_fnf_case env m) = Some n"
  "depth (Some n) (server_rr_case env m) = Some n"
  "depth (Some n) (server_rs_case env m) = Some n"
  "depth (Some n) (server_rc_case env m) = Some n"
  by (simp_all add: server_fnf_case_def server_rr_case_def server_rs_case_def server_rc_case_def
      acts_simps depth.run_append)

lemma depth_server_trace:
  "depth (Some n) (server_trace_field m) = Some n"
  "depth (Some n) (server_trace_null m) = Some n"
  "depth (Some n) (server_trace_tracer m) = Some n"
  by (simp_all add: server_trace_field_def server_trace_null_def server_trace_tracer_def acts_simps)

text \<open>
  Three stretches do not come back to the depth they start at: the stream handler and the
  channel handler leave one level open when they have methods, and so does the publisher
  overload of the channel handler; the codec closes two levels more than it opens.
\<close>

lemma depth_server_handlers:
  "depth (Some n) (server_fnf env ms) = Some n"
  "depth (Some n) (server_rr env ms) = Some n"
  "depth (Some n) (server_rs env ms) = Some (if ms = [] then n else Suc n)"
  "depth (Some n) (server_rc env ms) = Some (if ms = [] then n else Suc n)"
  "depth (Some n) (server_rc_publisher ms) = Some (if ms = [] then n else Suc n)"
  by (simp_all add: server_fnf_def server_rr_def server_rs_def server_rc_def
      server_rc_publisher_def depth.run_append depth.run_loop depth_server_cases acts_simps)

lemma depth_server_codec:
  "depth (Some (Suc (Suc n))) server_codec = Some n"
  "depth (Some (Suc 0)) server_codec = None"
  by (simp_all add: server_codec_def acts_simps)

lemma depth_server_start:
  "depth (Some n) (server_stores service) = Some n"
  "depth (Some n) (server_version env d) = Some n"
  "depth (Some n) server_header = Some (Suc n)"
  "depth (Some n) (server_init service) = Some n"
  "depth (Some n) server_service = Some n"
  by (simp_all add: server_stores_def server_version_def server_header_def server_init_def
      server_service_def depth.run_append depth.run_loop depth_server_trace acts_simps
      split: option.split)

definition open_levels :: "MethodDescriptor list \<Rightarrow> nat" where
  "open_levels ms =
     (if \<exists>m\<in>set ms. interaction_of m = RequestStream then 1 else 0) +
     (if \<exists>m\<in>set ms. interaction_of m = RequestChannel then 2 else 0)"

lemma depth_GenerateServer:
  "depth (Some 0) (GenerateServer env service flavor disable_version) =
     (if open_levels (sd_methods service) = 0 then None
      else Some (open_levels (sd_methods service) - 1))"
  by (auto simp: GenerateServer_def PrintServer_def server_body_def Let_def depth.run_append
      depth.run_loop depth_server_start depth_server_trace depth_server_handlers
      depth_server_codec sort_methods_filter filter_empty_conv open_levels_def acts_simps
      numeral_2_eq_2)

section \<open>Variables\<close>

text \<open>Variables for classes the text never refers to (\<open>RuntimeClasses\<close> says which those are).\<close>

definition server_unused :: "string set" where
  "server_unused = {''Supplier'', ''BiFunction'', ''RSocketRpcMetrics'', ''ByteBufs''}"

definition server_known :: "string \<Rightarrow> bool" where
  "server_known n \<longleftrightarrow> n \<in> fst ` set server_vars \<and> n \<notin> server_unused \<or>
     n \<in> {''Package'', ''service_name'', ''service_field_name'', ''file_name'',
       ''server_class_name'', ''rsocket_rpc_version'', ''version''}"

lemma server_names: "fst ` set server_vars =
    {''Flowable'', ''Single'', ''Completable'', ''from'', ''flux'', ''flatMap'', ''Function'',
     ''Supplier'', ''BiFunction'', ''Override'', ''Publisher'', ''Generated'',
     ''RSocketRpcGenerated'', ''RSocket'', ''Payload'', ''DefaultPayload'',
     ''AbstractRSocketService'', ''RSocketRpcMetadata'', ''RSocketRpcMetrics'',
     ''MeterRegistry'', ''ByteBufs'', ''ByteBuf'', ''ByteBuffer'', ''ByteBufAllocator'',
     ''CodedInputStream'', ''CodedOutputStream'', ''MessageLite'', ''Parser'', ''Inject'',
     ''Unpooled'', ''Named'', ''RSocketRpcResourceType'', ''RSocketRpcTracing'', ''Tag'',
     ''SpanContext'', ''Tracer'', ''Empty'', ''StreamSplitter''}"
  by (auto simp: server_vars_def)

lemma server_known_table:
  "server_known ''Flowable''" "server_known ''Single''" "server_known ''Completable''"
  "server_known ''Publisher''" "server_known ''Generated''" "server_known ''RSocketRpcGenerated''"
  "server_known ''RSocketRpcResourceType''" "server_known ''Payload''"
  "server_known ''DefaultPayload''" "server_known ''ByteBufAllocator''"
  "server_known ''Unpooled''" "server_known ''CodedInputStream''"
  "server_known ''CodedOutputStream''" "server_known ''RSocketRpcMetadata''"
  "server_known ''MessageLite''" "server_known ''Parser''" "server_known ''RSocketRpcTracing''"
  "server_known ''Tag''" "server_known ''Tracer''" "server_known ''SpanContext''"
  "server_known ''Empty''" "server_known ''StreamSplitter''" "server_known ''Inject''"
  "server_known ''Named''" "server_known ''AbstractRSocketService''"
  "server_known ''service_name''" "server_known ''service_field_name''"
  "server_known ''file_name''" "server_known ''server_class_name''"
  "server_known ''rsocket_rpc_version''" "server_known ''version''"
  by (simp_all only: server_known_def server_names server_unused_def insert_iff empty_iff list.inject
      list.distinct char.inject simp_thms)

lemma all_defined_server_cases:
  "all_defined server_known (server_fnf_case env m)"
  "all_defined server_known (server_rr_case env m)"
  "all_defined server_known (server_rs_case env m)"
  "all_defined server_known (server_rc_case env m)"
  by (simp_all add: server_fnf_case_def server_rr_case_def server_rs_case_def server_rc_case_def
      template_eval cls_table server_known_table all_defined_append acts_simps)

lemma all_defined_server_trace:
  "all_defined server_known (server_trace_field m)"
  "all_defined server_known (server_trace_null m)"
  "all_defined server_known (server_trace_tracer m)"
  by (simp_all add: server_trace_field_def server_trace_null_def server_trace_tracer_def
      template_eval cls_table server_known_table)

lemma all_defined_server_handlers:
  "all_defined server_known (server_fnf env ms)"
  "all_defined server_known (server_rr env ms)"
  "all_defined server_known (server_rs env ms)"
  "all_defined server_known (server_rc env ms)"
  "all_defined server_known (server_rc_publisher ms)"
proof -
  have loops: "all_defined server_known (concat (map (server_fnf_case env) ms))"
    "all_defined server_known (concat (map (server_rr_case env) ms))"
    "all_defined server_known (concat (map (server_rs_case env) ms))"
    "all_defined server_known (concat (map (server_rc_case env) ms))"
    by (intro all_defined_loop all_defined_server_cases)+
  show "all_defined server_known (server_fnf env ms)"
    unfolding server_fnf_def by (intro all_defined_append_mono all_defined_if loops)
      (simp_all add: template_eval cls_table server_known_table)
  show "all_defined server_known (server_rr env ms)"
    unfolding server_rr_def by (intro all_defined_append_mono all_defined_if loops)
      (simp_all add: template_eval cls_table server_known_table)
  show "all_defined server_known (server_rs env ms)"
    unfolding server_rs_def by (intro all_defined_append_mono all_defined_if loops)
      (simp_all add: template_eval cls_table server_known_table)
  show "all_defined server_known (server_rc env ms)"
    unfolding server_rc_def by (intro all_defined_append_mono all_defined_if loops)
      (simp_all add: template_eval cls_table server_known_table)
  show "all_defined server_known (server_rc_publisher ms)"
    unfolding server_rc_publisher_def by (intro all_defined_append_mono all_defined_if)
      (simp_all add: template_eval cls_table server_known_table)
qed

lemma all_defined_server_body: "all_defined server_known (server_body env service)"
  unfolding server_body_def Let_def server_header_def server_init_def server_service_def
    server_codec_def
  by (intro all_defined_append_mono all_defined_loop all_defined_server_handlers
      all_defined_server_trace)
    (simp_all add: template_eval cls_table server_known_table)

lemma server_known_stored:
  assumes "server_known n"
  shows "known_after (\<lambda>_. False)
    (store_vars server_vars @ package_clause p t @ package_prefix f @ server_stores s
      @ server_version env d) n"
  using assms
  by (auto simp: acts_simps server_known_def server_stores_def server_version_def
      split: option.split)

lemma all_defined_GenerateServer:
  "all_defined (\<lambda>_. False) (GenerateServer env service flavor disable_version)"
proof -
  let ?pre = "store_vars server_vars
     @ package_clause (ServiceKotlinPackage env (sd_file service)) ''package $package_name$;\<newline>\<newline>''
     @ package_prefix (sd_file service) @ server_stores service
     @ server_version env disable_version"
  have "all_defined (\<lambda>_. False) ?pre"
    by (intro all_defined_append_mono acts_simps)
      (simp_all add: server_stores_def server_version_def split: option.split)
  then have "all_defined (\<lambda>_. False) (?pre @ server_body env service)"
    by (rule all_defined_after [OF _ server_known_stored all_defined_server_body])
  then show ?thesis by (simp add: GenerateServer_def PrintServer_def)
qed

section \<open>The text\<close>

lemma alex_server_trace:
  assumes "clean_method env m"
  shows "alex (LCode s) (server_trace_field m) = LCode s"
    "alex (LCode s) (server_trace_null m) = LCode s"
    "alex (LCode s) (server_trace_tracer m) = LCode s"
  using assms
  by (simp_all add: server_trace_field_def server_trace_null_def server_trace_tracer_def
      alex_eval clean_names expand_def)

lemma alex_server_cases:
  assumes "clean_method env m"
  shows "alex (LCode s) (server_fnf_case env m) = LCode s"
    "alex (LCode s) (server_rr_case env m) = LCode s"
    "alex (LCode s) (server_rs_case env m) = LCode s"
    "alex (LCode s) (server_rc_case env m) = LCode s"
  using assms
  by (simp_all add: server_fnf_case_def server_rr_case_def server_rs_case_def server_rc_case_def
      alex_eval clean_names expand_def)

lemma alex_server_handlers:
  assumes "\<forall>m\<in>set ms. clean_method env m"
  shows "alex (LCode s) (server_fnf env ms) = LCode s"
    "alex (LCode s) (server_rr env ms) = LCode s"
    "alex (LCode s) (server_rs env ms) = LCode s"
    "alex (LCode s) (server_rc env ms) = LCode s"
    "alex (LCode s) (server_rc_publisher ms) = LCode s"
proof -
  have loops: "alex (LCode k) (concat (map (server_fnf_case env) ms)) = LCode k"
    "alex (LCode k) (concat (map (server_rr_case env) ms)) = LCode k"
    "alex (LCode k) (concat (map (server_rs_case env) ms)) = LCode k"
    "alex (LCode k) (concat (map (server_rc_case env) ms)) = LCode k" for k
    using assms by (auto intro!: alex.run_loop alex_server_cases)
  show "alex (LCode s) (server_fnf env ms) = LCode s"
    by (cases "ms = []") (simp_all add: server_fnf_def loops alex_eval expand_def)
  show "alex (LCode s) (server_rr env ms) = LCode s"
    by (cases "ms = []") (simp_all add: server_rr_def loops alex_eval expand_def)
  show "alex (LCode s) (server_rs env ms) = LCode s"
    by (cases "ms = []") (simp_all add: server_rs_def loops alex_eval expand_def)
  show "alex (LCode s) (server_rc env ms) = LCode s"
    by (cases "ms = []") (simp_all add: server_rc_def loops alex_eval expand_def)
  show "alex (LCode s) (server_rc_publisher ms) = LCode s"
    by (cases "ms = []") (simp_all add: server_rc_publisher_def alex_eval expand_def)
qed

lemma alex_server_stores:
  assumes "clean_env env" "clean_service env service"
  shows "alex k (server_stores service @ server_version env disable_version) = k"
  using assms
  by (auto simp: server_stores_def server_version_def alex_eval clean_names cls_table
      split: option.split)

lemma server_vars_clean: "\<forall>(n, v)\<in>set server_vars. clean_value n v"
  by (simp add: server_vars_def clean_value_def str_only_def clean_names cls_table)

lemma alex_server_header: "alex (LCode s) server_header = LCode (Curly # s)"
  by (simp add: server_header_def alex_eval)

lemma alex_server_codec: "alex (LCode (Curly # s)) server_codec = LCode s"
  by (simp add: server_codec_def alex_eval expand_def)

lemma alex_server_body:
  assumes "clean_env env" "clean_service env service"
  shows "alex (LCode []) (server_body env service) = LCode []"
proof -
  have loops: "alex (LCode s) (concat (map server_trace_field (sd_methods service))) = LCode s"
    "alex (LCode s) (concat (map server_trace_null (sd_methods service))) = LCode s"
    "alex (LCode s) (concat (map server_trace_tracer (sd_methods service))) = LCode s" for s
    using assms by (auto intro!: alex.run_loop alex_server_trace dest: clean_service_method)
  have init: "alex (LCode s) (server_init service) = LCode s"
    "alex (LCode s) server_service = LCode s" for s
    using loops by (simp_all add: server_init_def server_service_def alex_eval expand_def)
  have clean: "\<forall>m\<in>set (filter P (sd_methods service)). clean_method env m" for P
    using assms(2) by (simp add: clean_service_def)
  show ?thesis
    by (simp add: server_body_def Let_def alex.run_append alex_server_header alex_server_codec
        loops init sort_methods_filter alex_server_handlers [OF clean])
qed

lemma alex_GenerateServer:
  assumes "clean_env env" "clean_service env service"
  shows "alex (LCode []) (GenerateServer env service flavor disable_version) = LCode []"
  using assms alex_server_stores [OF assms, of "LCode []"]
  by (simp add: GenerateServer_def PrintServer_def alex.run_append alex_server_body
      alex_store_vars server_vars_clean acts_simps clean_names)

interpretation server_generator: file_generator GenerateServer
  by unfold_locales (rule all_defined_GenerateServer, rule alex_GenerateServer)

section \<open>What is printed\<close>

lemma open_levels_unary:
  "open_levels ms = 0 \<longleftrightarrow> filter (\<lambda>m. md_client_streaming m \<or> md_server_streaming m) ms = []"
  by (auto simp: open_levels_def interaction_of_def filter_empty_conv split: if_splits)

text \<open>
  C14: printing the server outdents below the margin, which the printer reports as an error,
  exactly when no method of the service streams in either direction; a service with stream
  methods only comes back to the margin, and one with channel methods does not.
\<close>

theorem server_indentation:
  "depth_of_calls (Some 0) (calls Map.empty (GenerateServer env service flavor disable_version)) =
     (if filter (\<lambda>m. md_client_streaming m \<or> md_server_streaming m) (sd_methods service) = []
      then None
      else Some (if filter md_client_streaming (sd_methods service) = [] then 0
                 else if filter (\<lambda>m. \<not> md_client_streaming m \<and> md_server_streaming m)
                   (sd_methods service) = [] then 1
                 else 2))"
proof -
  have "open_levels ms = (if filter md_client_streaming ms = [] then 0 else 2) +
      (if filter (\<lambda>m. \<not> md_client_streaming m \<and> md_server_streaming m) ms = [] then 0 else 1)" for ms
    by (auto simp: open_levels_def interaction_of_def filter_empty_conv split: if_splits)
  then show ?thesis
    unfolding depth_calls depth_GenerateServer open_levels_unary [symmetric] by simp
qed

text \<open>
  C28: whatever layout a documented printer gives it, the server file of a service whose
  names are names, with a method that streams, is balanced Kotlin. (Without such a method
  the printer is used outside its contract.)
\<close>

theorem server_written:
  assumes "clean_env env" "clean_service env service" "documented_printer written"
    and "filter (\<lambda>m. md_client_streaming m \<or> md_server_streaming m) (sd_methods service) \<noteq> []"
  shows "kotlin_balanced
    (written (calls Map.empty (GenerateServer env service flavor disable_version)))"
proof (rule server_generator.gen_written [OF assms(1-3)])
  show "depth (Some 0) (GenerateServer env service flavor disable_version) \<noteq> None"
    using assms(4) by (simp add: depth_GenerateServer flip: open_levels_unary)
qed

theorem server_written_witness:
  "kotlin_balanced
    (indenting_printer (calls Map.empty (GenerateServer sample_env sample_service NORMAL False)))"
  by (rule server_written [OF clean_samples(1,2) documented_indenting_printer]) (simp add: sample_defs)

end
