(* ===== verification/Plugin.thy ===== *)
theory Plugin
  imports InterfaceGen ClientGen ServerGen
begin

text \<open>
  \<open>KotlinRSocketRpcGenerator\<close> of \<open>kotlin_plugin.cpp\<close>: the options of the plugin, the names of
  the files it opens and what it writes into them. \<open>ParseGeneratorParameter\<close> is part of
  protobuf and is a parameter; so is the context, of which only the order of the \<open>Open\<close>
  calls and what is written to each stream is recorded.
\<close>

section \<open>Model\<close>

text \<open>The loop over the options: the last state of \<open>flavor\<close> and \<open>disable_version\<close>.\<close>

definition option_step :: "ProtoFlavor \<times> bool \<Rightarrow> string \<times> string \<Rightarrow> ProtoFlavor \<times> bool" where
  "option_step st opt =
     (if fst opt = ''lite'' then (LITE, snd st)
      else if fst opt = ''noversion'' then (fst st, True)
      else st)"

definition plugin_options :: "(string \<times> string) list \<Rightarrow> ProtoFlavor \<times> bool" where
  "plugin_options options = foldl option_step (NORMAL, False) options"

text \<open>A file: the name given to \<open>context->Open\<close> and the actions on its printer.\<close>

type_synonym output_file = "string \<times> action list"

definition generate_service ::
  "codegen_env \<Rightarrow> string \<Rightarrow> ProtoFlavor \<Rightarrow> bool \<Rightarrow> ServiceDescriptor \<Rightarrow> output_file list" where
  "generate_service env package_filename flavor disable_version service =
     [(package_filename @ sd_name service @ ''.kt'',
         GenerateInterface env service flavor disable_version),
      (package_filename @ ClientClassName service @ ''.kt'',
         GenerateClient env service flavor disable_version),
      (package_filename @ ServerClassName service @ ''.kt'',
         GenerateServer env service flavor disable_version)]"

record plugin_result =
  pr_ok :: bool
  pr_error :: string
  pr_files :: "output_file list"

text \<open>
  \<open>services\<close> are \<open>file->service(0)\<close>, \<open>file->service(1)\<close>, and so on; \<open>error\<close> is the string the
  caller passes by pointer.
\<close>

definition reactor ::
  "(string \<Rightarrow> (string \<times> string) list) \<Rightarrow> codegen_env \<Rightarrow> FileDescriptor \<Rightarrow>
   ServiceDescriptor list \<Rightarrow> string \<Rightarrow> string \<Rightarrow> plugin_result" where
  "reactor ParseGeneratorParameter env file services parameter error =
     (let options = ParseGeneratorParameter parameter;
          (flavor, disable_version) = plugin_options options;
          package_name = ServiceKotlinPackage env file;
          package_filename = KotlinPackageToDir package_name
      in \<lparr>pr_ok = True, pr_error = error,
          pr_files = concat (map (generate_service env package_filename flavor disable_version) services)\<rparr>)"

definition Generate ::
  "(string \<Rightarrow> (string \<times> string) list) \<Rightarrow> codegen_env \<Rightarrow> FileDescriptor \<Rightarrow>
   ServiceDescriptor list \<Rightarrow> string \<Rightarrow> string \<Rightarrow> plugin_result" where
  "Generate ParseGeneratorParameter env file services parameter error =
     reactor ParseGeneratorParameter env file services parameter error"

text \<open>
  \<open>main\<close> makes a generator and hands it to \<open>PluginMain\<close> of protobuf, a parameter, which calls
  \<open>Generate\<close> and returns the exit code; \<open>argc\<close> is the length of \<open>argv\<close>.
\<close>

type_synonym code_generator =
  "FileDescriptor \<Rightarrow> ServiceDescriptor list \<Rightarrow> string \<Rightarrow> string \<Rightarrow> plugin_result"

definition KotlinRSocketRpcGenerator ::
  "(string \<Rightarrow> (string \<times> string) list) \<Rightarrow> codegen_env \<Rightarrow> code_generator" where
  "KotlinRSocketRpcGenerator ParseGeneratorParameter env = Generate ParseGeneratorParameter env"

definition main :: "(nat \<Rightarrow> string list \<Rightarrow> code_generator \<Rightarrow> 'exit) \<Rightarrow>
   (string \<Rightarrow> (string \<times> string) list) \<Rightarrow> codegen_env \<Rightarrow> string list \<Rightarrow> 'exit" where
  "main PluginMain ParseGeneratorParameter env argv =
     PluginMain (length argv) argv (KotlinRSocketRpcGenerator ParseGeneratorParameter env)"

section \<open>Options\<close>

lemma plugin_options_from:
  "foldl option_step (f, d) options =
     (if ''lite'' \<in> fst ` set options then LITE else f,
      d \<or> ''noversion'' \<in> fst ` set options)"
proof (induction options arbitrary: f d)
  case Nil
  show ?case by simp
next
  case (Cons opt options)
  have "option_step (f, d) opt =
      (if fst opt = ''lite'' then LITE else f, d \<or> fst opt = ''noversion'')"
    by (auto simp: option_step_def)
  then show ?case by (auto simp: Cons)
qed

section \<open>Files\<close>

lemma pr_files_Generate:
  "pr_files (Generate parse env file services parameter error) =
     concat (map (generate_service env (KotlinPackageToDir (ServiceKotlinPackage env file))
         (fst (plugin_options (parse parameter))) (snd (plugin_options (parse parameter))))
       services)"
  by (simp add: Generate_def reactor_def Let_def split: prod.split)

lemma generated_file_cases:
  assumes "(n, acts) \<in> set (pr_files (Generate parse env file services parameter error))"
  obtains service gen where "service \<in> set services" "file_generator gen"
    "acts = gen env service (fst (plugin_options (parse parameter)))
       (snd (plugin_options (parse parameter)))"
  using assms interface_generator.file_generator_axioms client_generator.file_generator_axioms
    server_generator.file_generator_axioms
  by (auto simp: pr_files_Generate generate_service_def)

definition file_stems :: "ServiceDescriptor \<Rightarrow> string list" where
  "file_stems service = [sd_name service, ClientClassName service, ServerClassName service]"

lemma generated_names:
  "map fst (pr_files (Generate parse env file services parameter error)) =
     map (\<lambda>stem. KotlinPackageToDir (ServiceKotlinPackage env file) @ stem @ ''.kt'')
       (concat (map file_stems services))"
  by (induction services)
    (simp_all add: pr_files_Generate generate_service_def file_stems_def)

lemma Client_not_Server: "x @ ''Client'' \<noteq> y @ ''Server''"
proof
  assume "x @ ''Client'' = y @ ''Server''"
  then have "last (x @ ''Client'') = last (y @ ''Server'')" by simp
  then show False by simp
qed

lemma distinct_file_stems: "distinct (file_stems s)"
  using Client_not_Server by (simp add: file_stems_def ClientClassName_def ServerClassName_def)

lemma file_stems_overlap:
  "set (file_stems s) \<inter> set (file_stems t) = {} \<longleftrightarrow>
     sd_name s \<noteq> sd_name t \<and> sd_name s \<noteq> ClientClassName t \<and> sd_name s \<noteq> ServerClassName t \<and>
     sd_name t \<noteq> ClientClassName s \<and> sd_name t \<noteq> ServerClassName s"
  using Client_not_Server Client_not_Server [symmetric]
  by (auto simp: file_stems_def ClientClassName_def ServerClassName_def)

lemma distinct_stems:
  "distinct (concat (map file_stems services)) \<longleftrightarrow>
     distinct (map sd_name services) \<and>
     (\<forall>s\<in>set services. \<forall>t\<in>set services.
        sd_name s \<noteq> ClientClassName t \<and> sd_name s \<noteq> ServerClassName t)"
proof (induction services)
  case Nil
  show ?case by simp
next
  case (Cons s services)
  have own: "sd_name s \<noteq> ClientClassName s" "sd_name s \<noteq> ServerClassName s"
    by (simp_all add: ClientClassName_def ServerClassName_def)
  have "distinct (concat (map file_stems (s # services))) \<longleftrightarrow>
      (\<forall>t\<in>set services. set (file_stems s) \<inter> set (file_stems t) = {}) \<and>
      distinct (concat (map file_stems services))"
    using distinct_file_stems by auto
  then show ?case unfolding Cons file_stems_overlap using own by auto
qed

section \<open>What the plugin promises\<close>

text \<open>
  Of all options the plugin reads \<open>lite\<close> and \<open>noversion\<close> only; their order, their values
  and repetitions do not matter.
\<close>

theorem plugin_options_set:
  "plugin_options options =
     (if ''lite'' \<in> fst ` set options then LITE else NORMAL, ''noversion'' \<in> fst ` set options)"
  by (simp add: plugin_options_def plugin_options_from)

lemma gradle_names:
  "java_file_class (gradle_build v env) = java_file_class env"
  "java_message_class (gradle_build v env) = java_message_class env"
  "macro_rsocket_rpc_version (gradle_build v env) = None"
  by (simp_all add: gradle_build_def)

lemma gradle_calls:
  "MessageFullKotlinName (gradle_build v env) = MessageFullKotlinName env"
  "ServiceKotlinPackage (gradle_build v env) = ServiceKotlinPackage env"
  by (auto simp: fun_eq_iff MessageFullKotlinName_def ServiceKotlinPackage_def gradle_names)

lemma gradle_methods:
  "interface_method (gradle_build v env) = interface_method env"
  "client_trace_field (gradle_build v env) = client_trace_field env"
  "client_method (gradle_build v env) = client_method env"
  "server_fnf_case (gradle_build v env) = server_fnf_case env"
  "server_rr_case (gradle_build v env) = server_rr_case env"
  "server_rs_case (gradle_build v env) = server_rs_case env"
  "server_rc_case (gradle_build v env) = server_rc_case env"
  by (simp_all only: fun_eq_iff interface_method_def client_trace_field_def client_method_def
     client_method_plain_def server_fnf_case_def server_rr_case_def server_rs_case_def
     server_rc_case_def gradle_calls simp_thms)

lemma gradle_handlers:
  "server_fnf (gradle_build v env) = server_fnf env" "server_rr (gradle_build v env) = server_rr env"
  "server_rs (gradle_build v env) = server_rs env" "server_rc (gradle_build v env) = server_rc env"
  by (simp_all only: fun_eq_iff server_fnf_def server_rr_def server_rs_def server_rc_def
      gradle_methods simp_thms)

lemma gradle_bodies:
  "interface_body (gradle_build v env) = interface_body env"
  "client_body (gradle_build v env) = client_body env"
  "server_body (gradle_build v env) = server_body env"
  by (simp_all only: fun_eq_iff interface_body_def client_body_def server_body_def
      gradle_methods gradle_handlers simp_thms)

lemma gradle_versions:
  "interface_version (gradle_build v env) d = interface_version env True"
  "client_version (gradle_build v env) d = client_version env True"
  "server_version (gradle_build v env) d = server_version env True"
  by (simp_all add: interface_version_def client_version_def server_version_def gradle_names
      split: option.split)

lemma gradle_service:
  "generate_service (gradle_build v env) path flavor d = generate_service env path NORMAL True"
  by (simp add: fun_eq_iff generate_service_def GenerateInterface_def PrintInterface_def
      GenerateClient_def PrintClient_def GenerateServer_def PrintServer_def gradle_calls
      gradle_bodies gradle_versions)

text \<open>
  C26: in the build of \<open>rsocket-rpc-protobuf/build.gradle\<close>, which defines
  \<open>RSOCKET_RPC_VERSION\<close> and not the macro the code tests, neither the options of the plugin
  nor the version the build defines change any generated file.
\<close>

theorem options_without_effect:
  "pr_files (Generate parse (gradle_build v env) file services parameter error) =
   pr_files (Generate parse' (gradle_build v' env) file services parameter' error')"
  by (simp add: pr_files_Generate gradle_service gradle_calls)

text \<open>
  A plugin of the Gradle build is one program: its exit code does not depend on the options, as
  far as \<open>PluginMain\<close> sees no more of a generator than its results.
\<close>

lemma gradle_main:
  "main PluginMain parse (gradle_build v env) argv = main PluginMain parse' (gradle_build v' env) argv"
proof -
  have "Generate parse (gradle_build v env) file services parameter error =
      Generate parse' (gradle_build v' env) file services parameter error"
    for "file" services parameter error
  proof (rule plugin_result.equality)
    show "pr_files (Generate parse (gradle_build v env) file services parameter error) =
        pr_files (Generate parse' (gradle_build v' env) file services parameter error)"
      by (simp add: pr_files_Generate gradle_service gradle_calls)
  qed (simp_all add: Generate_def reactor_def Let_def split: prod.split)
  then have "KotlinRSocketRpcGenerator parse (gradle_build v env) =
      KotlinRSocketRpcGenerator parse' (gradle_build v' env)"
    by (simp add: KotlinRSocketRpcGenerator_def fun_eq_iff)
  then show ?thesis by (simp add: main_def)
qed

text \<open>
  With the macro \<open>rsocket_rpc_version\<close> defined as \<open>v\<close>, the interface and the server
  annotate their classes with \<open>v\<close>, the client with the expansion of the other macro, or its
  name when it has none; the tracing tags of both carry \<open>v\<close>. The option \<open>noversion\<close> leaves all of them empty.
\<close>

theorem version_texts:
  assumes "macro_rsocket_rpc_version env = Some v"
  shows "stored m (interface_version env False) ''rsocket_rpc_version'' = Some ('' (version '' @ v @ '')'') \<and>
    stored m (server_version env False) ''rsocket_rpc_version'' = Some ('' (version '' @ v @ '')'') \<and>
    stored m (client_version env False) ''rsocket_rpc_version'' =
      Some ('' (version '' @ (case macro_RSOCKET_RPC_VERSION env of
        None \<Rightarrow> ''RSOCKET_RPC_VERSION'' | Some w \<Rightarrow> w) @ '')'') \<and>
    stored m (server_version env False) ''version'' = Some v \<and>
    stored m (client_version env False) ''version'' = Some v \<and>
    map (stored m (interface_version env True)) [''rsocket_rpc_version''] = [Some []] \<and>
    map (stored m (client_version env True)) [''rsocket_rpc_version'', ''version''] = [Some [], Some []] \<and>
    map (stored m (server_version env True)) [''rsocket_rpc_version'', ''version''] = [Some [], Some []]"
  using assms by (simp add: interface_version_def client_version_def server_version_def XSTR_def)

theorem version_texts_witness:
  "stored Map.empty (client_version (sample_env\<lparr>macro_rsocket_rpc_version := Some ''2''\<rparr>) False)
     ''rsocket_rpc_version'' = Some '' (version 0.1.0)''"
  using version_texts [of "sample_env\<lparr>macro_rsocket_rpc_version := Some ''2''\<rparr>" "''2''" Map.empty]
  by (simp add: sample_env_def)

text \<open>
  C16: every template the plugin prints, in every file, has a value for each of its
  variables: no file makes the printer fail on an undefined variable, whatever the
  descriptors hold.
\<close>

theorem plugin_files_defined:
  "None \<notin> set (map (\<lambda>f. raw_text (calls Map.empty (snd f)))
     (pr_files (Generate parse env file services parameter error)))"
proof -
  have "raw_text (calls Map.empty acts) \<noteq> None"
    if "(n, acts) \<in> set (pr_files (Generate parse env file services parameter error))" for n acts
    using that file_generator.gen_raw_text by (auto elim!: generated_file_cases)
  then show ?thesis by (fastforce simp: image_iff)
qed

text \<open>
  C4: when the names are names, every file the plugin writes is balanced Kotlin: each bracket
  is closed by its own kind, each string literal on its line, each comment before the file
  ends, whatever the comments of the \<open>.proto\<close> file hold.
\<close>

theorem plugin_files_balanced:
  assumes "clean_env env" "\<forall>service\<in>set services. clean_service env service"
    "(name, acts) \<in> set (pr_files (Generate parse env file services parameter error))"
  shows "\<exists>t. raw_text (calls Map.empty acts) = Some t \<and> kotlin_balanced t"
  using assms(3)
proof (rule generated_file_cases)
  fix service gen
  assume s: "service \<in> set services" and gen: "file_generator gen"
    and acts: "acts = gen env service (fst (plugin_options (parse parameter)))
       (snd (plugin_options (parse parameter)))"
  obtain t where t: "raw_text (calls Map.empty acts) = Some t"
    using file_generator.gen_raw_text [OF gen] acts by blast
  moreover have "clean_service env service" using assms(2) s by blast
  ultimately show ?thesis
    using file_generator.gen_balanced [OF gen assms(1)] acts by blast
qed

theorem plugin_files_balanced_witness:
  "\<exists>t. raw_text (calls Map.empty (GenerateServer sample_env sample_service NORMAL False)) = Some t
     \<and> kotlin_balanced t"
proof (rule plugin_files_balanced)
  show "clean_env sample_env" by (rule clean_samples)
  show "\<forall>service\<in>set [sample_service]. clean_service sample_env service"
    using clean_samples by simp
  show "(KotlinPackageToDir (ServiceKotlinPackage sample_env sample_file)
        @ ServerClassName sample_service @ ''.kt'',
      GenerateServer sample_env sample_service NORMAL False)
    \<in> set (pr_files (Generate sample_generator_parameter sample_env sample_file [sample_service] [] []))"
    by (simp add: pr_files_Generate generate_service_def plugin_options_def sample_generator_parameter_def)
qed

text \<open>
  The plugin always succeeds, leaves the error string alone, and opens for each service,
  in order, three files in the directory of the package: the interface, the client and the
  server.
\<close>

theorem plugin_files_named:
  "pr_ok (Generate parse env file services parameter error) \<and>
   pr_error (Generate parse env file services parameter error) = error \<and>
   map fst (pr_files (Generate parse env file services parameter error)) =
     concat (map (\<lambda>service.
       map (\<lambda>stem. KotlinPackageToDir (ServiceKotlinPackage env file) @ stem @ ''.kt'')
         [sd_name service, sd_name service @ ''Client'', sd_name service @ ''Server'']) services)"
proof (intro conjI)
  show "map fst (pr_files (Generate parse env file services parameter error)) =
     concat (map (\<lambda>service.
       map (\<lambda>stem. KotlinPackageToDir (ServiceKotlinPackage env file) @ stem @ ''.kt'')
         [sd_name service, sd_name service @ ''Client'', sd_name service @ ''Server'']) services)"
    by (simp add: generated_names file_stems_def ClientClassName_def ServerClassName_def
        map_concat comp_def)
qed (simp_all add: Generate_def reactor_def Let_def split: prod.split)

text \<open>
  C31: no file is opened twice exactly when the services have distinct names and none is
  named like the client or the server of another.
\<close>

theorem plugin_files_distinct:
  "distinct (map fst (pr_files (Generate parse env file services parameter error))) \<longleftrightarrow>
     distinct (map sd_name services) \<and>
     set (map ClientClassName services) \<inter> set (map sd_name services) = {} \<and>
     set (map ServerClassName services) \<inter> set (map sd_name services) = {}"
proof -
  have "distinct (map (\<lambda>stem. d @ stem @ ''.kt'') stems) \<longleftrightarrow> distinct stems" for d and stems :: "string list"
    by (simp add: distinct_map inj_on_def)
  moreover have "(\<forall>s\<in>set services. \<forall>t\<in>set services.
        sd_name s \<noteq> ClientClassName t \<and> sd_name s \<noteq> ServerClassName t) \<longleftrightarrow>
      set (map ClientClassName services) \<inter> set (map sd_name services) = {} \<and>
      set (map ServerClassName services) \<inter> set (map sd_name services) = {}"
    by (simp add: disjoint_iff image_iff) metis
  ultimately show ?thesis by (simp only: generated_names distinct_stems)
qed

end
