(* ===== verification/CallReading.thy ===== *)
theory CallReading
  imports Descriptors PrinterCalls GeneratorCommon
begin

text \<open>
  The three generated files work together: a function of the client sends a request that
  names a constant of the interface, and a handler of the server compares what it receives
  with the constants of the interface and calls the implementation. This theory reads that
  out of the printer's calls of the three files - which template was printed, under which
  variables. The theories of the three files evaluate these readings, and \<open>Routing\<close> follows
  a call from the client's function to the implementation's.
\<close>

section \<open>Reading the printer's calls\<close>

fun starts :: "string \<Rightarrow> string \<Rightarrow> bool" where
  "starts [] s = True"
| "starts (a # p) [] = False"
| "starts (a # p) (c # cs) = (if a = c then starts p cs else False)"

fun occurs :: "string \<Rightarrow> string \<Rightarrow> bool" where
  "occurs p [] = (p = [])"
| "occurs p (c # cs) = (if starts p (c # cs) then True else occurs p cs)"

fun template_of :: "call \<Rightarrow> string" where
  "template_of (CallPrint m t) = t"
| "template_of _ = []"

fun vars_of :: "call \<Rightarrow> vars" where
  "vars_of (CallPrint m t) = m"
| "vars_of _ = Map.empty"

text \<open>What follows each occurrence of \<open>p\<close> in a text.\<close>

fun after_prefix :: "string \<Rightarrow> string \<Rightarrow> string list" where
  "after_prefix [] s = [s]"
| "after_prefix (a # p) [] = []"
| "after_prefix (a # p) (c # cs) = (if a = c then after_prefix p cs else [])"

fun afters :: "string \<Rightarrow> string \<Rightarrow> string list" where
  "afters p [] = after_prefix p []"
| "afters p (c # cs) = after_prefix p (c # cs) @ afters p cs"

text \<open>The values a variable has at the calls whose template contains \<open>p\<close>.\<close>

definition uses :: "string \<Rightarrow> string \<Rightarrow> call list \<Rightarrow> string list" where
  "uses p k cs =
     concat (map (\<lambda>c. if occurs p (template_of c)
                      then (case vars_of c k of None \<Rightarrow> [] | Some v \<Rightarrow> [v]) else []) cs)"

text \<open>The calls after the first that satisfies \<open>P\<close>, up to the next that satisfies \<open>Q\<close>.\<close>

definition section_of :: "(call \<Rightarrow> bool) \<Rightarrow> (call \<Rightarrow> bool) \<Rightarrow> call list \<Rightarrow> call list" where
  "section_of P Q cs = takeWhile (\<lambda>c. \<not> Q c) (tl (dropWhile (\<lambda>c. \<not> P c) cs))"

section \<open>What the three files say\<close>

text \<open>The functions of an RSocket, one per interaction.\<close>

fun request_name :: "interaction \<Rightarrow> string" where
  "request_name FireAndForget = ''fireAndForget''"
| "request_name RequestResponse = ''requestResponse''"
| "request_name RequestStream = ''requestStream''"
| "request_name RequestChannel = ''requestChannel''"

definition interactions :: "interaction list" where
  "interactions = [FireAndForget, RequestResponse, RequestStream, RequestChannel]"

text \<open>The interface: its constants with their values.\<close>

definition declared :: "call list \<Rightarrow> (string \<times> string) list" where
  "declared cs =
     (let decl = ''const val $method_field_name$ = \"$method_name$\"''
      in zip (uses decl ''method_field_name'' cs) (uses decl ''method_name'' cs))"

text \<open>
  The client: the function of a name that overrides one of the interface, the requests in
  it and the constants it encodes into the metadata.
\<close>

definition overrides :: "string \<Rightarrow> call \<Rightarrow> bool" where
  "overrides name c \<longleftrightarrow> occurs ''override fun $lower_method_name$'' (template_of c)
     \<and> vars_of c ''lower_method_name'' = Some name"

definition function_mark :: "call \<Rightarrow> bool" where
  "function_mark c \<longleftrightarrow> occurs ''@$RSocketRpcGeneratedMethod$'' (template_of c)"

definition client_function :: "string \<Rightarrow> call list \<Rightarrow> call list" where
  "client_function name cs = section_of (overrides name) function_mark cs"

definition requests_in :: "string \<Rightarrow> interaction list" where
  "requests_in t =
     concat (map (\<lambda>rest. filter (\<lambda>i. starts (request_name i @ ''('') rest) interactions)
       (afters ''rSocket.'' t))"

definition requested :: "call list \<Rightarrow> interaction list" where
  "requested cs = concat (map (\<lambda>c. requests_in (template_of c)) cs)"

definition encode_text :: string where
  "encode_text = ''$RSocketRpcMetadata$.encode($ByteBufAllocator$.DEFAULT, '' @
     ''$service_name$.$service_field_name$, $service_name$.$method_field_name$, ''"

definition sent_services :: "call list \<Rightarrow> string list" where
  "sent_services cs = uses encode_text ''service_field_name'' cs"

definition sent_constants :: "call list \<Rightarrow> string list" where
  "sent_constants cs = uses encode_text ''method_field_name'' cs"

text \<open>
  The server: the handler of an interaction and its arms: the constant an arm is for, the
  function of the implementation it calls, and the type it parses the request as.
\<close>

definition handler :: "interaction \<Rightarrow> call list \<Rightarrow> call list" where
  "handler i cs =
     section_of (\<lambda>c. occurs (''override fun '' @ request_name i @ ''(payload: '') (template_of c))
       (\<lambda>c. occurs ''override fun '' (template_of c)) cs"

definition arms :: "call list \<Rightarrow> (string \<times> string \<times> string) list" where
  "arms cs =
     zip (uses ''$service_name$.$method_field_name$ -> {'' ''method_field_name'' cs)
       (zip (uses ''serviceImpl.$lower_method_name$('' ''lower_method_name'' cs)
            (uses ''serviceImpl.$lower_method_name$('' ''input_type'' cs))"

section \<open>Lemmas on reading\<close>

lemma uses_simps:
  "uses p k [] = []"
  "uses p k (CallIndent # cs) = uses p k cs"
  "uses p k (CallOutdent # cs) = uses p k cs"
  "uses p k (CallPrint m t # cs) =
     (if occurs p t then (case m k of None \<Rightarrow> [] | Some v \<Rightarrow> [v]) else []) @ uses p k cs"
  by (simp_all add: uses_def)

lemma requested_simps:
  "requested [] = []"
  "requested (CallIndent # cs) = requested cs"
  "requested (CallOutdent # cs) = requested cs"
  "requested (CallPrint m t # cs) = requests_in t @ requested cs"
  by (simp_all add: requested_def requests_in_def)

lemma uses_append: "uses p k (xs @ ys) = uses p k xs @ uses p k ys"
  by (simp add: uses_def)

lemma requested_append: "requested (xs @ ys) = requested xs @ requested ys"
  by (simp add: requested_def)

text \<open>A loop whose body contributes the same whatever the variables before it.\<close>

lemma uses_loop:
  assumes "\<And>m x. x \<in> set xs \<Longrightarrow> uses p k (calls m (body x)) = g x"
  shows "uses p k (calls m (concat (map body xs))) = concat (map g xs)"
  using assms by (induction xs arbitrary: m) (simp_all add: calls_append uses_append uses_simps)

lemma Ball_calls_loop:
  assumes "\<And>m x. x \<in> set xs \<Longrightarrow> \<forall>c\<in>set (calls m (body x)). P c"
  shows "\<forall>c\<in>set (calls m (concat (map body xs))). P c"
  using assms
proof (induction xs arbitrary: m)
  case Nil
  show ?case by simp
next
  case (Cons x xs)
  have "\<forall>c\<in>set (calls m (body x)). P c"
    "\<forall>c\<in>set (calls (stored m (body x)) (concat (map body xs))). P c"
    using Cons by (metis list.set_intros)+
  then show ?case by (simp add: calls_append ball_Un)
qed

lemma section_cut:
  assumes "\<forall>c\<in>set xs. \<not> P c" "P h" "\<forall>c\<in>set ys. \<not> Q c"
  shows "section_of P Q (xs @ h # ys @ zs) = ys @ takeWhile (\<lambda>c. \<not> Q c) zs"
proof -
  have "dropWhile (\<lambda>c. \<not> P c) (xs @ h # ys @ zs) = h # ys @ zs"
    using assms(1,2) by (simp add: dropWhile_append)
  then show ?thesis using assms(3) by (simp add: section_of_def takeWhile_append)
qed

text \<open>What the templates of an action list say holds for its calls under any variables.\<close>

fun template_of_action :: "action \<Rightarrow> string" where
  "template_of_action (Print t) = t"
| "template_of_action (PrintWith args t) = t"
| "template_of_action _ = []"

definition silent :: "string \<Rightarrow> action list \<Rightarrow> bool" where
  "silent p acts \<longleftrightarrow> (\<forall>a\<in>set acts. \<not> occurs p (template_of_action a))"

lemma silent_calls_iff:
  assumes "p \<noteq> []"
  shows "silent p acts \<longleftrightarrow> (\<forall>c\<in>set (calls m acts). \<not> occurs p (template_of c))"
  using assms by (induction m acts rule: calls.induct) (simp_all add: silent_def)

lemma silent_calls:
  assumes "silent p acts" "p \<noteq> []"
  shows "\<forall>c\<in>set (calls m acts). \<not> occurs p (template_of c)"
  using assms silent_calls_iff by blast

lemma silent_uses:
  assumes "silent p acts" "p \<noteq> []"
  shows "uses p k (calls m acts) = []"
  using silent_calls [OF assms, of m] by (simp add: uses_def)

lemma after_prefix_starts: "after_prefix p s = [] \<longleftrightarrow> \<not> starts p s"
  by (induction p s rule: starts.induct) simp_all

lemma afters_silent: "p \<noteq> [] \<Longrightarrow> \<not> occurs p t \<Longrightarrow> afters p t = []"
  by (induction t) (simp_all add: after_prefix_starts split: if_splits, cases p, simp_all)

lemma silent_requested:
  assumes "silent ''rSocket.'' acts"
  shows "requested (calls m acts) = []"
  using silent_calls [OF assms, of m] by (simp add: requested_def requests_in_def afters_silent)

lemma silent_append: "silent p (xs @ ys) \<longleftrightarrow> silent p xs \<and> silent p ys"
  by (simp add: silent_def ball_Un)

lemma silent_Cons: "silent p (a # acts) \<longleftrightarrow> \<not> occurs p (template_of_action a) \<and> silent p acts"
  by (simp add: silent_def)

lemma silent_Nil: "silent p []"
  by (simp add: silent_def)

lemma silent_if:
  "silent p (if b then xs else ys) \<longleftrightarrow> (if b then silent p xs else silent p ys)"
  by simp

lemmas occurs_eval = occurs.simps starts.simps char.inject simp_thms if_True if_False
  list.distinct append.simps if_cancel

lemmas silent_eval = silent_append silent_Cons silent_Nil silent_if template_of_action.simps
  occurs_eval

lemmas requests_in_eval = requests_in_def afters.simps after_prefix.simps request_name.simps
  interactions_def filter.simps list.map concat.simps occurs_eval

lemma calls_if: "calls m (if b then xs else ys) = (if b then calls m xs else calls m ys)"
  by simp

lemma uses_if: "uses p k (if b then xs else ys) = (if b then uses p k xs else uses p k ys)"
  by simp

lemma requested_if:
  "requested (if b then xs else ys) = (if b then requested xs else requested ys)"
  by simp

lemmas calls_eval = calls_append calls_if calls.simps fun_upd_apply list.inject option.case
  uses_append uses_if uses_simps append_Nil2 occurs_eval

lemma silent_loop: "(\<And>x. x \<in> set xs \<Longrightarrow> silent p (body x)) \<Longrightarrow> silent p (concat (map body xs))"
  by (auto simp: silent_def)

lemma silent_store_vars: "p \<noteq> [] \<Longrightarrow> silent p (store_vars kvs)"
  by (induction kvs) (auto simp: silent_def store_vars_def)

lemma concat_singletons: "concat (map (\<lambda>x. [f x]) xs) = map f xs"
  by (induction xs) simp_all

text \<open>A longer pattern occurs only where a prefix of it does.\<close>

lemma starts_append: "starts (p @ q) s \<Longrightarrow> starts p s"
  by (induction p s rule: starts.induct) (auto split: if_splits)

lemma occurs_append: "p \<noteq> [] \<Longrightarrow> occurs (p @ q) s \<Longrightarrow> occurs p s"
  by (induction s) (auto dest: starts_append [of p q] split: if_splits)

lemma silent_longer: "p \<noteq> [] \<Longrightarrow> silent p acts \<Longrightarrow> silent (p @ q) acts"
  using occurs_append by (auto simp: silent_def)

section \<open>Variables that a stretch of actions keeps\<close>

fun keeps_action :: "string \<Rightarrow> action \<Rightarrow> bool" where
  "keeps_action k (Store k' v) = (k' \<noteq> k)"
| "keeps_action k _ = True"

definition keeps :: "string \<Rightarrow> action list \<Rightarrow> bool" where
  "keeps k acts = list_all (keeps_action k) acts"

lemma keeps_simps:
  "keeps k []" "keeps k (a # acts) \<longleftrightarrow> keeps_action k a \<and> keeps k acts"
  "keeps k (as @ bs) \<longleftrightarrow> keeps k as \<and> keeps k bs"
  "keeps k (if b then as else bs) \<longleftrightarrow> (if b then keeps k as else keeps k bs)"
  by (simp_all add: keeps_def)

lemma keeps_loop: "(\<And>x. keeps k (body x)) \<Longrightarrow> keeps k (concat (map body xs))"
  by (induction xs) (simp_all add: keeps_simps)

lemma keeps_prints: "(\<And>x. keeps_action k (f x)) \<Longrightarrow> keeps k (map f xs)"
  by (induction xs) (simp_all add: keeps_simps)

lemma stored_kept: "keeps k acts \<Longrightarrow> stored m acts k = m k"
  by (induction m acts rule: stored.induct) (auto simp: keeps_simps)

lemmas keeps_eval = keeps_simps keeps_action.simps if_cancel list.inject char.inject simp_thms
  list.distinct

text \<open>The one call whose template holds \<open>p\<close>.\<close>

lemma uses_single:
  assumes "acts = pre @ Print t # post" "silent p pre" "silent p post" "occurs p t" "p \<noteq> []"
  shows "uses p k (calls m acts) = (case stored m pre k of None \<Rightarrow> [] | Some v \<Rightarrow> [v])"
  using assms(4) unfolding assms(1) calls_append uses_append silent_uses [OF assms(2,5)]
  by (simp add: uses_simps silent_uses [OF assms(3,5)])

end
