(* ===== verification/InterfaceReading.thy ===== *)
theory InterfaceReading
  imports CallReading InterfaceGen
begin

text \<open>The constants the interface file declares, read out of the calls of \<open>GenerateInterface\<close>.\<close>

abbreviation constant_text :: string where
  "constant_text \<equiv> ''const val $method_field_name$ = \"$method_name$\"''"

lemma silent_doc_lines:
  "silent constant_text (map print_doc_line lines)"
  by (auto simp: silent_def print_doc_line_def)

lemma silent_interface_parts:
  "silent constant_text (package_clause p ''package $package_name$\<newline>\<newline>'')"
  "silent constant_text (package_prefix f)"
  "silent constant_text (interface_stores service)"
  "silent constant_text (interface_version env d)"
  "silent constant_text (WriteServiceDocComment service)"
  "silent constant_text (WriteMethodDocComment m)"
  by (simp_all add: package_clause_def package_prefix_def interface_stores_def
      interface_version_def WriteServiceDocComment_def WriteMethodDocComment_def
      WriteDocCommentBody_def silent_append silent_Cons silent_Nil silent_doc_lines
      split: option.split)

lemma silent_interface_method: "silent constant_text (interface_method env m)"
  by (simp only: interface_method_def silent_interface_parts silent_eval)

lemma uses_interface_constant:
  "uses constant_text ''method_field_name'' (calls m (interface_constant x)) = [MethodFieldName x]"
  "uses constant_text ''method_name'' (calls m (interface_constant x)) = [md_name x]"
  by (simp_all only: interface_constant_def calls_eval)

lemma declared_GenerateInterface:
  "declared (calls m (GenerateInterface env service flavor d)) =
     map (\<lambda>x. (MethodFieldName x, md_name x)) (sd_methods service)"
proof -
  have methods: "silent constant_text (concat (map (interface_method env) (sd_methods service)))"
    by (intro silent_loop silent_interface_method)
  have "uses constant_text k (calls m (GenerateInterface env service flavor d)) =
      concat (map g (sd_methods service))"
    if "\<And>m x. uses constant_text k (calls m (interface_constant x)) = g x" for k g
    by (simp add: GenerateInterface_def PrintInterface_def interface_body_def calls_append
        uses_append silent_uses silent_store_vars silent_interface_parts methods
        uses_loop [OF that] uses_simps)
  from this [OF uses_interface_constant(1)] this [OF uses_interface_constant(2)]
  show ?thesis by (simp add: declared_def zip_map_map zip_same_conv_map)
qed

end
