(* ===== verification/ClientReading.thy ===== *)
theory ClientReading
  imports CallReading ClientGen
begin

text \<open>
  The functions of the client file: which request each makes and with which constant, read
  out of the calls of \<open>GenerateClient\<close>.
\<close>

abbreviation override_text :: string where
  "override_text \<equiv> ''override fun $lower_method_name$''"

abbreviation mark_text :: string where
  "mark_text \<equiv> ''@$RSocketRpcGeneratedMethod$''"

section \<open>One method\<close>

lemma silent_client_method_plain: "silent override_text (client_method_plain env x)"
  by (simp only: client_method_plain_def silent_eval)

lemma silent_client_method_body:
  "silent override_text (client_method_body x)" "silent mark_text (client_method_body x)"
  by (simp_all only: client_method_body_def silent_eval)

lemma silent_client_signature:
  "silent override_text (tl (client_method_signature x))"
  "silent mark_text (tl (client_method_signature x))"
  by (simp_all only: client_method_signature_def if_cancel append.simps list.sel silent_eval)

lemma client_signature_calls:
  "calls m (client_method_signature x) =
     CallPrint m (''@$RSocketRpcGeneratedMethod$(returnTypeClass = $output_type$::class)\<newline>'' @
          ''override fun $lower_method_name$'') # calls m (tl (client_method_signature x))"
  by (simp add: client_method_signature_def)

lemma client_plain_stored:
  "stored m (client_method_plain env x) ''lower_method_name'' = Some (LowerMethodName x)"
  "stored m (client_method_plain env x) ''method_field_name'' = Some (MethodFieldName x)"
  by (simp_all add: client_method_plain_def stored_append)

lemma client_signature_stored: "stored m (client_method_signature x) = m"
  by (simp add: client_method_signature_def stored_append)

lemma client_plain_mark:
  "\<exists>v t cs. calls m (client_method_plain env x) = CallPrint v t # cs \<and> occurs mark_text t"
  by (simp add: client_method_plain_def)

lemma requested_client_body: "requested (calls m (client_method_body x)) = [interaction_of x]"
proof -
  have "requested (calls m (client_method_body x)) =
     (if md_client_streaming x then [RequestChannel]
      else if md_server_streaming x then [RequestStream]
      else if fire_and_forget (md_options x) then [FireAndForget] else [RequestResponse])"
    by (simp only: client_method_body_def calls_append calls_if calls.simps requested_append
        requested_if requested_simps requests_in_eval append_Nil2)
  then show ?thesis by (simp add: interaction_of_def)
qed

lemma encode_text_nonempty: "encode_text \<noteq> []"
  by (simp add: encode_text_def)

lemma sent_client_body:
  assumes "m ''method_field_name'' = Some k"
  shows "uses encode_text ''method_field_name'' (calls m (client_method_body x)) = [k]"
  by (simp only: client_method_body_def encode_text_def calls_append calls_if calls.simps uses_append uses_if
      uses_simps assms option.case occurs_eval append_Nil2)

lemma silent_client_tail:
  "silent ''rSocket.'' (tl (client_method_signature x))"
  "silent encode_text (tl (client_method_signature x))"
  "silent ''rSocket.'' client_codec" "silent encode_text client_codec" "silent mark_text client_codec"
  by (simp_all only: client_method_signature_def client_codec_def encode_text_def if_cancel
      append.simps list.sel silent_eval)

lemma silent_client_start:
  "silent override_text (package_clause p ''package $package_name$\<newline>\<newline>'')"
  "silent override_text (package_prefix f)"
  "silent override_text (client_stores service)"
  "silent override_text (client_version env d)"
  "silent override_text client_header"
  "silent override_text (client_trace_field env x)"
  "silent override_text (client_trace_null x)"
  "silent override_text (client_trace_tracer x)"
  by (simp_all only: package_clause_def package_prefix_def client_stores_def client_version_def
      client_header_def client_trace_field_def client_trace_null_def client_trace_tracer_def
      silent_eval split: option.split)

lemma silent_client_init: "silent override_text (client_init service)"
proof -
  have "silent override_text (concat (map client_trace_null ms))"
    "silent override_text (concat (map client_trace_tracer ms))" for ms
    by (intro silent_loop silent_client_start)+
  then show ?thesis by (simp add: client_init_def silent_append silent_Cons silent_Nil)
qed

section \<open>The service constant\<close>

lemma keeps_client:
  "keeps ''service_field_name'' (client_version env d)"
  "keeps ''service_field_name'' client_header"
  "keeps ''service_field_name'' (client_trace_field env x)"
  "keeps ''service_field_name'' (client_trace_null x)"
  "keeps ''service_field_name'' (client_trace_tracer x)"
  "keeps ''service_field_name'' (client_method_plain env x)"
  "keeps ''service_field_name'' (client_method_signature x)"
  "keeps ''service_field_name'' (client_method_body x)"
  by (simp_all add: client_version_def client_header_def client_trace_field_def
      client_trace_null_def client_trace_tracer_def client_method_plain_def
      client_method_signature_def client_method_body_def keeps_simps split: option.split)

lemma keeps_client_init: "keeps ''service_field_name'' (client_init service)"
proof -
  have "keeps ''service_field_name'' (concat (map client_trace_null ms))"
    "keeps ''service_field_name'' (concat (map client_trace_tracer ms))" for ms
    by (intro keeps_loop keeps_client)+
  then show ?thesis by (simp add: client_init_def keeps_simps)
qed

lemma keeps_client_method: "keeps ''service_field_name'' (client_method env x)"
  by (simp only: client_method_def keeps_simps keeps_client simp_thms)

lemma sent_service_body:
  assumes "m ''service_field_name'' = Some k"
  shows "uses encode_text ''service_field_name'' (calls m (client_method_body x)) = [k]"
  by (simp only: client_method_body_def encode_text_def calls_append calls_if calls.simps uses_append uses_if
      uses_simps assms option.case occurs_eval append_Nil2)

section \<open>The functions of the file\<close>

text \<open>
  The calls of one method: annotated plain function, then the head of the overriding
  function, then its body.
\<close>

definition client_function_calls :: "vars \<Rightarrow> MethodDescriptor \<Rightarrow> call list" where
  "client_function_calls m x = calls m (tl (client_method_signature x)) @ calls m (client_method_body x)"

lemma client_method_calls:
  "calls m (client_method env x) =
     calls m (client_method_plain env x)
     @ CallPrint (stored m (client_method_plain env x))
         (''@$RSocketRpcGeneratedMethod$(returnTypeClass = $output_type$::class)\<newline>'' @
          ''override fun $lower_method_name$'')
     # client_function_calls (stored m (client_method_plain env x)) x"
  unfolding client_method_def calls_append client_signature_stored client_signature_calls [of _ x]
    client_function_calls_def by simp

lemma not_overrides: "\<not> occurs override_text (template_of c) \<Longrightarrow> \<not> overrides n c"
  by (simp add: overrides_def)

lemma quiet_client_function:
  "\<forall>c\<in>set (client_function_calls m x). \<not> overrides n c"
  "\<forall>c\<in>set (client_function_calls m x). \<not> function_mark c"
  using silent_client_signature [of x] silent_client_method_body [of x]
  by (auto simp: client_function_calls_def overrides_def function_mark_def dest!: silent_calls)

lemma other_client_method:
  assumes "LowerMethodName x \<noteq> n"
  shows "\<forall>c\<in>set (calls m (client_method env x)). \<not> overrides n c"
proof -
  have "\<forall>c\<in>set (calls m (client_method_plain env x)). \<not> overrides n c"
    using silent_calls [OF silent_client_method_plain, of m env x] by (simp add: overrides_def)
  then show ?thesis
    using assms quiet_client_function(1)
    unfolding client_method_calls
    by (auto simp: ball_Un overrides_def client_plain_stored simp del: append.simps)
qed

text \<open>
  The rest of the file after a method: no request is made before the next mark.
\<close>

lemma after_client_method:
  "requested (takeWhile (\<lambda>c. \<not> function_mark c)
     (calls m (concat (map (client_method env) ms) @ client_codec))) = []"
  "uses encode_text k (takeWhile (\<lambda>c. \<not> function_mark c)
     (calls m (concat (map (client_method env) ms) @ client_codec))) = []"
proof (atomize (full), cases ms)
  case Nil
  have "takeWhile (\<lambda>c. \<not> function_mark c) (calls m client_codec) = calls m client_codec"
    using silent_calls [OF silent_client_tail(5), of m]
    by (simp add: function_mark_def takeWhile_eq_all_conv)
  then show "requested (takeWhile (\<lambda>c. \<not> function_mark c)
      (calls m (concat (map (client_method env) ms) @ client_codec))) = [] \<and>
    uses encode_text k (takeWhile (\<lambda>c. \<not> function_mark c)
      (calls m (concat (map (client_method env) ms) @ client_codec))) = []"
    unfolding Nil list.map concat.simps append_Nil
    by (simp only: silent_requested [OF silent_client_tail(3)]) (simp add: silent_uses [OF silent_client_tail(4) encode_text_nonempty])
next
  case (Cons y ys)
  obtain v t cs where "calls m (client_method_plain env y) = CallPrint v t # cs" "occurs mark_text t"
    using client_plain_mark by blast
  then have "takeWhile (\<lambda>c. \<not> function_mark c)
      (calls m (concat (map (client_method env) ms) @ client_codec)) = []"
    by (simp add: Cons calls_append client_method_calls function_mark_def del: append.simps(1))
  then show "requested (takeWhile (\<lambda>c. \<not> function_mark c)
      (calls m (concat (map (client_method env) ms) @ client_codec))) = [] \<and>
    uses encode_text k (takeWhile (\<lambda>c. \<not> function_mark c)
      (calls m (concat (map (client_method env) ms) @ client_codec))) = []"
    by (simp add: uses_simps requested_simps)
qed

lemma client_function_GenerateClient:
  assumes "x \<in> set (sd_methods service)"
    "distinct (map LowerMethodName (sd_methods service))"
  obtains m zs where
    "client_function (LowerMethodName x) (calls Map.empty (GenerateClient env service flavor d)) =
       client_function_calls m x @ zs"
    "m ''method_field_name'' = Some (MethodFieldName x)"
    "m ''service_field_name'' = Some ''SERVICE''"
    "requested zs = []" "\<And>k. uses encode_text k zs = []"
proof -
  obtain as bs where ms: "sd_methods service = as @ x # bs" using assms(1) by (meson split_list)
  let ?start = "store_vars client_vars
     @ package_clause (ServiceKotlinPackage env (sd_file service)) ''package $package_name$\<newline>\<newline>''
     @ package_prefix (sd_file service) @ client_stores service @ client_version env d
     @ client_header @ concat (map (client_trace_field env) (sd_methods service))
     @ client_init service"
  have "silent override_text ?start"
    unfolding silent_append
    by (intro conjI silent_client_start silent_client_init silent_loop silent_store_vars) simp
  then have "\<forall>c\<in>set (calls Map.empty ?start). \<not> overrides (LowerMethodName x) c"
    using silent_calls not_overrides by fastforce
  moreover have "\<forall>c\<in>set (calls m1 (concat (map (client_method env) as))).
      \<not> overrides (LowerMethodName x) c" for m1
    using assms(2) ms by (intro Ball_calls_loop other_client_method) (force simp: image_iff)
  moreover have "\<forall>c\<in>set (calls m2 (client_method_plain env x)). \<not> overrides (LowerMethodName x) c" for m2
    using silent_calls [OF silent_client_method_plain, of m2 env x] by (simp add: overrides_def)
  moreover define m2 where "m2 = stored Map.empty (?start @ concat (map (client_method env) as))"
  moreover define m3 where "m3 = stored m2 (client_method_plain env x)"
  moreover define m4 where "m4 = stored m2 (client_method env x)"
  moreover have "calls Map.empty (GenerateClient env service flavor d) =
      (calls Map.empty ?start
       @ calls (stored Map.empty ?start) (concat (map (client_method env) as))
       @ calls m2 (client_method_plain env x))
      @ CallPrint m3 (''@$RSocketRpcGeneratedMethod$(returnTypeClass = $output_type$::class)\<newline>'' @
          ''override fun $lower_method_name$'')
      # client_function_calls m3 x
      @ calls m4 (concat (map (client_method env) bs) @ client_codec)"
  proof -
    have "GenerateClient env service flavor d = ?start @ concat (map (client_method env) as)
        @ client_method env x @ (concat (map (client_method env) bs) @ client_codec)"
      by (simp add: GenerateClient_def PrintClient_def client_body_def ms)
    then show ?thesis
      by (simp only: calls_append client_method_calls stored_append m2_def m3_def m4_def
          append_assoc append_Cons)
  qed
  moreover have "overrides (LowerMethodName x) (CallPrint m3
      (''@$RSocketRpcGeneratedMethod$(returnTypeClass = $output_type$::class)\<newline>'' @
          ''override fun $lower_method_name$''))"
    by (simp add: overrides_def m3_def client_plain_stored)
  ultimately have cut: "client_function (LowerMethodName x)
      (calls Map.empty (GenerateClient env service flavor d)) =
      client_function_calls m3 x @ takeWhile (\<lambda>c. \<not> function_mark c)
        (calls m4 (concat (map (client_method env) bs) @ client_codec))"
    unfolding client_function_def
    by (simp only:) (rule section_cut, auto simp: quiet_client_function)
  have field: "m3 ''service_field_name'' = Some ''SERVICE''"
  proof -
    let ?kept = "client_version env d @ client_header
      @ concat (map (client_trace_field env) (sd_methods service)) @ client_init service
      @ concat (map (client_method env) as) @ client_method_plain env x"
    let ?first = "store_vars client_vars
      @ package_clause (ServiceKotlinPackage env (sd_file service)) ''package $package_name$\<newline>\<newline>''
      @ package_prefix (sd_file service)"
    have "keeps ''service_field_name'' ?kept"
      unfolding keeps_simps
      by (intro conjI keeps_client keeps_client_init keeps_client_method keeps_loop)
    then have "stored (stored n (client_stores service)) ?kept ''service_field_name'' = Some ''SERVICE''" for n
      by (simp only: stored_kept) (simp add: client_stores_def ServiceFieldName_def)
    moreover have "m3 = stored Map.empty (?first @ client_stores service @ ?kept)"
      by (simp only: m3_def m2_def append_assoc flip: stored_append)
    ultimately show ?thesis
      by (simp only: stored_append [of Map.empty ?first] stored_append [of _ "client_stores service"])
  qed
  show ?thesis
    by (rule that [OF cut _ field]) (simp_all add: m3_def client_plain_stored after_client_method)
qed

lemma client_requests:
  assumes "x \<in> set (sd_methods service)"
    "distinct (map LowerMethodName (sd_methods service))"
  shows "requested (client_function (LowerMethodName x)
      (calls Map.empty (GenerateClient env service flavor d))) = [interaction_of x]"
    "sent_constants (client_function (LowerMethodName x)
      (calls Map.empty (GenerateClient env service flavor d))) = [MethodFieldName x]"
    "sent_services (client_function (LowerMethodName x)
      (calls Map.empty (GenerateClient env service flavor d))) = [''SERVICE'']"
proof -
  obtain m zs where *: "client_function (LowerMethodName x)
      (calls Map.empty (GenerateClient env service flavor d)) = client_function_calls m x @ zs"
    "m ''method_field_name'' = Some (MethodFieldName x)"
    "m ''service_field_name'' = Some ''SERVICE''"
    "requested zs = []" "\<And>k. uses encode_text k zs = []"
    using client_function_GenerateClient [OF assms] by metis
  show "requested (client_function (LowerMethodName x)
      (calls Map.empty (GenerateClient env service flavor d))) = [interaction_of x]"
    by (simp add: * client_function_calls_def requested_append requested_client_body
        silent_requested [OF silent_client_tail(1)])
  show "sent_constants (client_function (LowerMethodName x)
      (calls Map.empty (GenerateClient env service flavor d))) = [MethodFieldName x]"
    unfolding sent_constants_def * client_function_calls_def uses_append sent_client_body [where m = m, OF *(2)]
    by (simp add: silent_uses [OF silent_client_tail(2) encode_text_nonempty] *(5))
  show "sent_services (client_function (LowerMethodName x)
      (calls Map.empty (GenerateClient env service flavor d))) = [''SERVICE'']"
    unfolding sent_services_def * client_function_calls_def uses_append sent_service_body [where m = m, OF *(3)]
    by (simp add: silent_uses [OF silent_client_tail(2) encode_text_nonempty] *(5))
qed

end
