(* ===== verification/ServerReading.thy ===== *)
theory ServerReading
  imports CallReading ServerGen "HOL-Library.Multiset"
begin

text \<open>
  The handlers of the server file and their arms, read out of the calls of \<open>GenerateServer\<close>.
\<close>

abbreviation function_text :: string where
  "function_text \<equiv> ''override fun ''"

abbreviation arm_text :: string where
  "arm_text \<equiv> ''$service_name$.$method_field_name$ -> {''"

abbreviation target_text :: string where
  "target_text \<equiv> ''serviceImpl.$lower_method_name$(''"

lemma uses_server_cases:
  "uses arm_text ''method_field_name'' (calls m (server_fnf_case env x)) = [MethodFieldName x]"
  "uses arm_text ''method_field_name'' (calls m (server_rr_case env x)) = [MethodFieldName x]"
  "uses arm_text ''method_field_name'' (calls m (server_rs_case env x)) = [MethodFieldName x]"
  "uses arm_text ''method_field_name'' (calls m (server_rc_case env x)) = [MethodFieldName x]"
  "uses target_text ''lower_method_name'' (calls m (server_fnf_case env x)) = [LowerMethodName x]"
  "uses target_text ''lower_method_name'' (calls m (server_rr_case env x)) = [LowerMethodName x]"
  "uses target_text ''lower_method_name'' (calls m (server_rs_case env x)) = [LowerMethodName x]"
  "uses target_text ''lower_method_name'' (calls m (server_rc_case env x)) = [LowerMethodName x]"
  "uses target_text ''input_type'' (calls m (server_fnf_case env x)) = [MessageFullKotlinName env (md_input_type x)]"
  "uses target_text ''input_type'' (calls m (server_rr_case env x)) = [MessageFullKotlinName env (md_input_type x)]"
  "uses target_text ''input_type'' (calls m (server_rs_case env x)) = [MessageFullKotlinName env (md_input_type x)]"
  "uses target_text ''input_type'' (calls m (server_rc_case env x)) = [MessageFullKotlinName env (md_input_type x)]"
  by (simp_all only: server_fnf_case_def server_rr_case_def server_rs_case_def server_rc_case_def
      calls_eval)

text \<open>
  A handler of the server: its first call prints the head, no other function begins in the
  rest, and the arms are those of its methods.
\<close>

definition arms_of :: "codegen_env \<Rightarrow> MethodDescriptor list \<Rightarrow> (string \<times> string \<times> string) list" where
  "arms_of env ms =
     map (\<lambda>x. (MethodFieldName x, LowerMethodName x, MessageFullKotlinName env (md_input_type x))) ms"

lemma arms_of_uses:
  assumes "uses arm_text ''method_field_name'' cs = map MethodFieldName ms"
    "uses target_text ''lower_method_name'' cs = map LowerMethodName ms"
    "uses target_text ''input_type'' cs = map (\<lambda>x. MessageFullKotlinName env (md_input_type x)) ms"
  shows "arms cs = arms_of env ms"
  using assms by (simp add: arms_def arms_of_def zip_map_map zip_same_conv_map)

lemma silent_server_cases:
  "silent function_text (server_fnf_case env x)" "silent function_text (server_rr_case env x)"
  "silent function_text (server_rs_case env x)" "silent function_text (server_rc_case env x)"
  by (simp_all only: server_fnf_case_def server_rr_case_def server_rs_case_def server_rc_case_def
      silent_eval)

lemma silent_server_loops:
  "silent function_text (concat (map (server_fnf_case env) ms))"
  "silent function_text (concat (map (server_rr_case env) ms))"
  "silent function_text (concat (map (server_rs_case env) ms))"
  "silent function_text (concat (map (server_rc_case env) ms))"
  by (intro silent_loop silent_server_cases)+

lemma silent_server_start:
  "silent function_text (store_vars kvs)"
  "silent function_text (package_clause p ''package $package_name$;\<newline>\<newline>'')"
  "silent function_text (package_prefix f)"
  "silent function_text (server_stores service)"
  "silent function_text (server_version env d)"
  "silent function_text server_header"
  "silent function_text (server_trace_field x)"
  "silent function_text (server_trace_null x)"
  "silent function_text (server_trace_tracer x)"
  "silent function_text server_service"
  "silent function_text server_codec"
  by (rule silent_store_vars, simp)
    (simp_all only: package_clause_def package_prefix_def server_stores_def
      server_version_def server_header_def server_trace_field_def server_trace_null_def
      server_trace_tracer_def server_service_def server_codec_def silent_eval split: option.split)

lemma silent_server_init: "silent function_text (server_init service)"
proof -
  have "silent function_text (concat (map server_trace_null ms))"
    "silent function_text (concat (map server_trace_tracer ms))" for ms
    by (intro silent_loop silent_server_start)+
  then show ?thesis by (simp add: server_init_def silent_append silent_Cons silent_Nil)
qed

lemma server_handler_calls:
  "calls m (server_fnf env ms) =
     CallPrint m ''override fun fireAndForget(payload: $Payload$):$Completable$ {\<newline>''
       # calls m (tl (server_fnf env ms))"
  "calls m (server_rr env ms) =
     CallPrint m ''override fun requestResponse(payload: $Payload$): $Single$<$Payload$> {\<newline>''
       # calls m (tl (server_rr env ms))"
  "calls m (server_rs env ms) =
     CallPrint m ''override fun requestStream(payload: $Payload$): $Flowable$<$Payload$> {\<newline>''
       # calls m (tl (server_rs env ms))"
  "calls m (server_rc env ms) =
     CallPrint m ''override fun requestChannel(payload: $Payload$, publisher: $Flowable$<$Payload$>): $Flowable$<$Payload$> {\<newline>''
       # calls m (tl (server_rc env ms))"
  "calls m (server_rc_publisher ms) =
     CallPrint m ''override fun requestChannel(payloads: $Publisher$<$Payload$>): $Flowable$<$Payload$> {\<newline>''
       # calls m (tl (server_rc_publisher ms))"
  by (simp_all add: server_fnf_def server_rr_def server_rs_def server_rc_def server_rc_publisher_def)

lemma silent_handlers:
  "silent function_text (tl (server_fnf env ms))" "silent function_text (tl (server_rr env ms))"
  "silent function_text (tl (server_rs env ms))" "silent function_text (tl (server_rc env ms))"
  "silent function_text (tl (server_rc_publisher ms))"
  by (simp_all only: server_fnf_def server_rr_def server_rs_def server_rc_def server_rc_publisher_def
      append.simps list.sel silent_server_loops silent_eval)

lemma arms_server_fnf: "arms (calls m (tl (server_fnf env ms))) = arms_of env ms"
  by (rule arms_of_uses)
    (cases "ms = []"; simp only: server_fnf_def calls_eval list.sel if_not_P if_P list.map
      uses_loop [OF uses_server_cases(1)] uses_loop [OF uses_server_cases(5)]
      uses_loop [OF uses_server_cases(9)] concat_singletons)+

lemma arms_server_rr: "arms (calls m (tl (server_rr env ms))) = arms_of env ms"
  by (rule arms_of_uses)
    (cases "ms = []"; simp only: server_rr_def calls_eval list.sel if_not_P if_P list.map
      uses_loop [OF uses_server_cases(2)] uses_loop [OF uses_server_cases(6)]
      uses_loop [OF uses_server_cases(10)] concat_singletons)+

lemma arms_server_rs: "arms (calls m (tl (server_rs env ms))) = arms_of env ms"
  by (rule arms_of_uses)
    (cases "ms = []"; simp only: server_rs_def calls_eval list.sel if_not_P if_P list.map
      uses_loop [OF uses_server_cases(3)] uses_loop [OF uses_server_cases(7)]
      uses_loop [OF uses_server_cases(11)] concat_singletons)+

lemma arms_server_rc: "arms (calls m (tl (server_rc env ms))) = arms_of env ms"
  by (rule arms_of_uses)
    (cases "ms = []"; simp only: server_rc_def calls_eval list.sel if_not_P if_P list.map
      uses_loop [OF uses_server_cases(4)] uses_loop [OF uses_server_cases(8)]
      uses_loop [OF uses_server_cases(12)] concat_singletons)+

text \<open>The handlers in the order they are printed: each begins with its own head.\<close>

lemma server_calls_shape:
  obtains pre m1 m2 m3 m4 m5 post where
    "calls m (GenerateServer env service flavor d) =
       pre @ calls m1 (server_fnf env (vec_fire_and_forget (sort_methods (sd_methods service))))
         @ calls m2 (server_rr env (vec_request_response (sort_methods (sd_methods service))))
         @ calls m3 (server_rs env (vec_request_stream (sort_methods (sd_methods service))))
         @ calls m4 (server_rc env (vec_request_channel (sort_methods (sd_methods service))))
         @ calls m5 (server_rc_publisher (vec_request_channel (sort_methods (sd_methods service))))
         @ post"
    "\<forall>c\<in>set pre. \<not> occurs function_text (template_of c)"
proof -
  let ?start = "store_vars server_vars
     @ package_clause (ServiceKotlinPackage env (sd_file service)) ''package $package_name$;\<newline>\<newline>''
     @ package_prefix (sd_file service) @ server_stores service @ server_version env d
     @ server_header @ concat (map server_trace_field (sd_methods service))
     @ server_init service @ server_service"
  have "silent function_text ?start"
    unfolding silent_append
    by (intro conjI silent_server_start silent_server_init silent_loop)
  then have "\<forall>c\<in>set (calls m ?start). \<not> occurs function_text (template_of c)"
    by (rule silent_calls) simp
  moreover have "GenerateServer env service flavor d = ?start
       @ server_fnf env (vec_fire_and_forget (sort_methods (sd_methods service)))
       @ server_rr env (vec_request_response (sort_methods (sd_methods service)))
       @ server_rs env (vec_request_stream (sort_methods (sd_methods service)))
       @ server_rc env (vec_request_channel (sort_methods (sd_methods service)))
       @ server_rc_publisher (vec_request_channel (sort_methods (sd_methods service)))
       @ server_codec"
    by (simp add: GenerateServer_def PrintServer_def server_body_def Let_def)
  ultimately show ?thesis by (intro that [of "calls m ?start"]) (simp only: calls_append append_assoc)
qed

definition methods_of :: "interaction \<Rightarrow> ServiceDescriptor \<Rightarrow> MethodDescriptor list" where
  "methods_of i service = filter (\<lambda>m. interaction_of m = i) (sd_methods service)"

lemma handler_cut:
  assumes "\<forall>c\<in>set xs. \<not> occurs (''override fun '' @ request_name i @ ''(payload: '') (template_of c)"
    "occurs (''override fun '' @ request_name i @ ''(payload: '') t"
    "\<forall>c\<in>set ys. \<not> occurs function_text (template_of c)"
    "occurs function_text t'"
  shows "handler i (xs @ CallPrint v t # ys @ CallPrint v' t' # zs) = ys"
  using assms by (simp add: handler_def section_cut)

lemma quiet_longer:
  "\<forall>c\<in>set xs. \<not> occurs function_text (template_of c) \<Longrightarrow>
   \<forall>c\<in>set xs. \<not> occurs (''override fun '' @ q) (template_of c)"
  using occurs_append [of "''override fun ''" q] by fastforce

text \<open>The calls of the handler of an interaction are those of one stretch of \<open>PrintServer\<close>.\<close>

fun handler_actions :: "interaction \<Rightarrow> codegen_env \<Rightarrow> MethodDescriptor list \<Rightarrow> action list" where
  "handler_actions FireAndForget env ms = server_fnf env ms"
| "handler_actions RequestResponse env ms = server_rr env ms"
| "handler_actions RequestStream env ms = server_rs env ms"
| "handler_actions RequestChannel env ms = server_rc env ms"

lemma handler_GenerateServer:
  "\<exists>v. handler i (calls m (GenerateServer env service flavor d)) =
     calls v (tl (handler_actions i env (methods_of i service)))"
proof -
  let ?v = "sort_methods (sd_methods service)"
  obtain pre m1 m2 m3 m4 m5 post where
    shape: "calls m (GenerateServer env service flavor d) =
       pre @ calls m1 (server_fnf env (vec_fire_and_forget ?v))
         @ calls m2 (server_rr env (vec_request_response ?v))
         @ calls m3 (server_rs env (vec_request_stream ?v))
         @ calls m4 (server_rc env (vec_request_channel ?v))
         @ calls m5 (server_rc_publisher (vec_request_channel ?v)) @ post"
    and pre: "\<forall>c\<in>set pre. \<not> occurs function_text (template_of c)"
    by (rule server_calls_shape)
  have q: "\<forall>c\<in>set (calls n (tl (server_fnf env ms))). \<not> occurs function_text (template_of c)"
    "\<forall>c\<in>set (calls n (tl (server_rr env ms))). \<not> occurs function_text (template_of c)"
    "\<forall>c\<in>set (calls n (tl (server_rs env ms))). \<not> occurs function_text (template_of c)"
    "\<forall>c\<in>set (calls n (tl (server_rc env ms))). \<not> occurs function_text (template_of c)" for n ms
    by (rule silent_calls, rule silent_handlers, simp)+
  note q' = pre [THEN quiet_longer] q [THEN quiet_longer]
  show ?thesis
  proof (cases i)
    case FireAndForget
    have "handler i (calls m (GenerateServer env service flavor d)) =
        calls m1 (tl (server_fnf env (vec_fire_and_forget ?v)))"
      unfolding shape server_handler_calls append_Cons
      by (rule handler_cut) (use pre q q' in \<open>simp_all add: FireAndForget\<close>)
    then show ?thesis unfolding FireAndForget handler_actions.simps methods_of_def
      sort_methods_filter by blast
  next
    case RequestResponse
    have "handler i ((pre @ calls m1 (server_fnf env (vec_fire_and_forget ?v)))
         @ calls m2 (server_rr env (vec_request_response ?v))
         @ calls m3 (server_rs env (vec_request_stream ?v)) @ zs) =
        calls m2 (tl (server_rr env (vec_request_response ?v)))" for zs
      unfolding server_handler_calls append_Cons
      by (rule handler_cut) (use q q' in \<open>simp_all add: RequestResponse ball_Un\<close>)
    then show ?thesis
      unfolding shape append_assoc RequestResponse handler_actions.simps methods_of_def sort_methods_filter by blast
  next
    case RequestStream
    have "handler i ((pre @ calls m1 (server_fnf env (vec_fire_and_forget ?v))
         @ calls m2 (server_rr env (vec_request_response ?v)))
         @ calls m3 (server_rs env (vec_request_stream ?v))
         @ calls m4 (server_rc env (vec_request_channel ?v)) @ zs) =
        calls m3 (tl (server_rs env (vec_request_stream ?v)))" for zs
      unfolding server_handler_calls append_Cons
      by (rule handler_cut) (use q q' in \<open>simp_all add: RequestStream ball_Un\<close>)
    then show ?thesis
      unfolding shape append_assoc RequestStream handler_actions.simps methods_of_def sort_methods_filter by blast
  next
    case RequestChannel
    have "handler i ((pre @ calls m1 (server_fnf env (vec_fire_and_forget ?v))
         @ calls m2 (server_rr env (vec_request_response ?v))
         @ calls m3 (server_rs env (vec_request_stream ?v)))
         @ calls m4 (server_rc env (vec_request_channel ?v))
         @ calls m5 (server_rc_publisher (vec_request_channel ?v)) @ zs) =
        calls m4 (tl (server_rc env (vec_request_channel ?v)))" for zs
      unfolding server_handler_calls append_Cons
      by (rule handler_cut) (use q q' in \<open>simp_all add: RequestChannel ball_Un\<close>)
    then show ?thesis
      unfolding shape append_assoc RequestChannel handler_actions.simps methods_of_def sort_methods_filter by blast
  qed
qed
lemma arms_handler_actions: "arms (calls m (tl (handler_actions i env ms))) = arms_of env ms"
  by (cases i) (simp_all add: arms_server_fnf arms_server_rr arms_server_rs arms_server_rc)

lemma arms_handler:
  "arms (handler i (calls m (GenerateServer env service flavor d))) = arms_of env (methods_of i service)"
  using handler_GenerateServer [of i m env service flavor d] arms_handler_actions by metis

section \<open>What the server dispatches\<close>

text \<open>
  C11: in the server file, the handler of an interaction has one arm for each method of this
  interaction, in the order of the service, and no other; over the four interactions every
  method of the service has exactly one arm.
\<close>

theorem server_handler_arms:
  "arms (handler i (calls Map.empty (GenerateServer env service flavor disable_version))) =
     map (\<lambda>x. (MethodFieldName x, LowerMethodName x, MessageFullKotlinName env (md_input_type x)))
       (filter (\<lambda>x. interaction_of x = i) (sd_methods service)) \<and>
   mset (concat (map (\<lambda>j. arms (handler j (calls Map.empty
        (GenerateServer env service flavor disable_version)))) interactions)) =
     mset (map (\<lambda>x. (MethodFieldName x, LowerMethodName x,
        MessageFullKotlinName env (md_input_type x))) (sd_methods service))"
proof -
  have partition: "mset (concat (map (\<lambda>j. map f (filter (\<lambda>x. interaction_of x = j) ms)) interactions)) =
      mset (map f ms)" for f :: "MethodDescriptor \<Rightarrow> string \<times> string \<times> string" and ms
  proof (induction ms)
    case Nil
    show ?case by (simp add: interactions_def)
  next
    case (Cons x ms)
    then show ?case by (cases "interaction_of x") (auto simp: interactions_def)
  qed
  show ?thesis
    by (simp only: arms_handler arms_of_def methods_of_def partition simp_thms)
qed

text \<open>The text that refuses an interaction no method has.\<close>

lemma refusal_server_cases:
  "silent ''not implemented.'' (server_fnf_case env x)" "silent ''not implemented.'' (server_rr_case env x)"
  "silent ''not implemented.'' (server_rs_case env x)" "silent ''not implemented.'' (server_rc_case env x)"
  by (simp_all only: server_fnf_case_def server_rr_case_def server_rs_case_def server_rc_case_def
      silent_eval)

lemma refusal_handler_actions:
  "silent ''not implemented.'' (tl (handler_actions i env ms)) \<longleftrightarrow> ms \<noteq> []"
proof -
  have loops: "silent ''not implemented.'' (concat (map (server_fnf_case env) ms))"
    "silent ''not implemented.'' (concat (map (server_rr_case env) ms))"
    "silent ''not implemented.'' (concat (map (server_rs_case env) ms))"
    "silent ''not implemented.'' (concat (map (server_rc_case env) ms))"
    by (intro silent_loop refusal_server_cases)+
  show ?thesis
    by (cases i; cases "ms = []";
        simp only: handler_actions.simps server_fnf_def server_rr_def server_rs_def server_rc_def
          append.simps list.sel if_P if_not_P loops silent_eval)
qed

text \<open>
  C39: the handler of an interaction answers that it is not implemented exactly when no
  method of the service has this interaction.
\<close>

theorem server_refuses_unused:
  "list_ex (\<lambda>c. occurs ''not implemented.'' (template_of c))
     (handler i (calls Map.empty (GenerateServer env service flavor disable_version))) \<longleftrightarrow>
   i \<notin> interaction_of ` set (sd_methods service)"
proof -
  obtain v where "handler i (calls Map.empty (GenerateServer env service flavor disable_version)) =
      calls v (tl (handler_actions i env (methods_of i service)))"
    using handler_GenerateServer by blast
  then have "list_ex (\<lambda>c. occurs ''not implemented.'' (template_of c))
      (handler i (calls Map.empty (GenerateServer env service flavor disable_version))) \<longleftrightarrow>
    \<not> silent ''not implemented.'' (tl (handler_actions i env (methods_of i service)))"
    by (simp add: silent_calls_iff [where m = v] list_ex_iff)
  also have "\<dots> \<longleftrightarrow> methods_of i service = []" by (simp add: refusal_handler_actions)
  also have "\<dots> \<longleftrightarrow> i \<notin> interaction_of ` set (sd_methods service)"
    by (auto simp: methods_of_def filter_empty_conv)
  finally show ?thesis .
qed

end
