(* ===== verification/Routing.thy ===== *)
theory Routing
  imports InterfaceReading ClientReading ServerReading Samples
begin

text \<open>
  From a call of the client to the implementation's function: the request the client makes,
  the constant it sends, the value the interface gives the constant, and the arm of the
  server's handler that compares equal.
\<close>

section \<open>Routes\<close>


section \<open>Lemmas\<close>





section \<open>Every call reaches its implementation\<close>



end
