(* ===== verification/Signatures.thy ===== *)
theory Signatures
  imports InterfaceGen ClientGen Samples
begin

text \<open>
  The Kotlin signature of a method, and that the interface file and the client file print
  the same one: what the client declares with \<open>override\<close> overrides a function of the
  interface.
\<close>

section \<open>The signature of a method\<close>

definition kotlin_parameters :: "codegen_env \<Rightarrow> MethodDescriptor \<Rightarrow> string" where
  "kotlin_parameters env m =
     ''(message: '' @ (if md_client_streaming m
         then ''org.reactivestreams.Publisher<'' @ MessageFullKotlinName env (md_input_type m) @ ''>''
         else MessageFullKotlinName env (md_input_type m))
     @ '', metadata: io.netty.buffer.ByteBuf)''"

definition kotlin_result :: "codegen_env \<Rightarrow> MethodDescriptor \<Rightarrow> string" where
  "kotlin_result env m =
     (if md_server_streaming m
      then ''io.reactivex.Flowable<'' @ MessageFullKotlinName env (md_output_type m) @ ''>''
      else if interaction_of m = FireAndForget then ''io.reactivex.Completable''
      else ''io.reactivex.Single<'' @ MessageFullKotlinName env (md_output_type m) @ ''>'')"

text \<open>The variables of a list of stores hold their values in \<open>v\<close>.\<close>

definition sets_all :: "(string \<times> string) list \<Rightarrow> vars \<Rightarrow> bool" where
  "sets_all kvs v \<longleftrightarrow> (\<forall>(k, x)\<in>set kvs. v k = Some x)"

section \<open>Lemmas\<close>

lemma interface_vars_lookup:
  assumes "sets_all interface_vars v"
  shows "v ''Flowable'' = Some ''io.reactivex.Flowable''" "v ''Single'' = Some ''io.reactivex.Single''"
    "v ''Publisher'' = Some ''org.reactivestreams.Publisher''"
    "v ''ByteBuf'' = Some ''io.netty.buffer.ByteBuf''"
    "v ''Completable'' = Some ''io.reactivex.Completable''"
  using assms by (simp_all add: sets_all_def interface_vars_def)

lemma client_vars_lookup:
  assumes "sets_all client_vars v"
  shows "v ''Flowable'' = Some ''io.reactivex.Flowable''" "v ''Single'' = Some ''io.reactivex.Single''"
    "v ''Publisher'' = Some ''org.reactivestreams.Publisher''"
    "v ''ByteBuf'' = Some ''io.netty.buffer.ByteBuf''"
    "v ''Completable'' = Some ''io.reactivex.Completable''"
    "v ''RSocketRpcGeneratedMethod'' = Some ''io.rsocket.rpc.kotlin.annotations.GeneratedMethod''"
  using assms by (simp_all add: sets_all_def client_vars_def)

lemma raw_text_method_doc:
  "raw_text (calls m (WriteMethodDocComment x)) = Some (doc_text True (GetDocLinesForDescriptor (md_location x)))"
  unfolding WriteMethodDocComment_def GetDocLinesForDescriptor_def by (rule raw_text_doc_comment)

lemma stored_method_doc: "stored m (WriteMethodDocComment x) = m"
  by (simp add: WriteMethodDocComment_def WriteDocCommentBody_def stored_append stored_doc_lines)

lemma interface_method_text:
  assumes "sets_all interface_vars v"
  shows "\<exists>rest. raw_text (calls v (interface_method env m)) =
    Some ([newline] @ doc_text True (GetDocLinesForDescriptor (md_location m))
      @ ''fun '' @ LowerMethodName m @ kotlin_parameters env m @ [newline]
      @ '':'' @ kotlin_result env m @ '' = '' @ rest)"
  using interface_vars_lookup [OF assms]
  by (cases "md_client_streaming m"; cases "md_server_streaming m";
      cases "fire_and_forget (md_options m)")
    (simp_all add: interface_method_def calls_append raw_text_method_doc stored_method_doc
      raw_text_append expand_def kotlin_parameters_def kotlin_result_def
      interaction_of_def)

lemma client_signature_text:
  assumes "sets_all client_vars v"
  shows "raw_text (calls (stored v (client_method_plain env m)) (client_method_signature m)) =
    Some (''@io.rsocket.rpc.kotlin.annotations.GeneratedMethod(returnTypeClass = ''
      @ MessageFullKotlinName env (md_output_type m) @ ''::class)\<newline>override fun ''
      @ LowerMethodName m @ kotlin_parameters env m @ [newline]
      @ '': '' @ kotlin_result env m @ '' {\<newline>'')"
  using client_vars_lookup [OF assms]
  by (cases "md_client_streaming m"; cases "md_server_streaming m";
      cases "fire_and_forget (md_options m)")
    (simp_all add: client_method_plain_def client_method_signature_def calls_append stored_append
      raw_text_append expand_def kotlin_parameters_def kotlin_result_def
      interaction_of_def)

lemma sets_all_code: "sets_all kvs v \<longleftrightarrow> list_all (\<lambda>(k, x). v k = Some x) kvs"
  by (simp add: sets_all_def list_all_iff)

lemma sets_all_vars: "sets_all interface_vars (map_of interface_vars)" "sets_all client_vars (map_of client_vars)"
  unfolding sets_all_code by code_simp+

section \<open>The client overrides the interface\<close>

text \<open>
  C8: after its doc comment, the interface declares for a method a function of a name, a
  parameter list and a result type, and the client overrides a function of exactly this
  name, parameter list and result type, whatever the streaming flags and the option.
\<close>

theorem client_overrides_interface:
  assumes "sets_all interface_vars v" "sets_all client_vars w"
  shows "\<exists>default. raw_text (calls v (interface_method env m)) =
      Some ([newline] @ doc_text True (GetDocLinesForDescriptor (md_location m))
        @ ''fun '' @ LowerMethodName m @ kotlin_parameters env m @ [newline]
        @ '':'' @ kotlin_result env m @ '' = '' @ default) \<and>
    raw_text (calls (stored w (client_method_plain env m)) (client_method_signature m)) =
      Some (''@io.rsocket.rpc.kotlin.annotations.GeneratedMethod(returnTypeClass = ''
        @ MessageFullKotlinName env (md_output_type m) @ ''::class)\<newline>override fun ''
        @ LowerMethodName m @ kotlin_parameters env m @ [newline]
        @ '': '' @ kotlin_result env m @ '' {\<newline>'')"
  using interface_method_text [OF assms(1)] client_signature_text [OF assms(2)] by blast

theorem client_overrides_interface_witness:
  "raw_text (calls (stored (map_of client_vars)
       (client_method_plain sample_env (sample_method ''watch'' False True False)))
     (client_method_signature (sample_method ''watch'' False True False))) =
   Some (''@io.rsocket.rpc.kotlin.annotations.GeneratedMethod(returnTypeClass = test.Response'' @
     ''::class)\<newline>override fun watch(message: test.Request, metadata: '' @
     ''io.netty.buffer.ByteBuf)\<newline>: io.reactivex.Flowable<test.Response> {\<newline>'')"
proof -
  have "LowerMethodName (sample_method ''watch'' False True False) = ''watch''" by code_simp
  then show ?thesis
    using client_overrides_interface [OF sets_all_vars, of sample_env "sample_method ''watch'' False True False"]
    by (simp add: sample_defs kotlin_parameters_def kotlin_result_def interaction_of_def
        MessageFullKotlinName_def)
qed

section \<open>Keywords\<close>

text \<open>The hard keywords of Kotlin: none of them can be the name of a function unless quoted.\<close>

definition kotlin_keywords :: "string list" where
  "kotlin_keywords =
     [''as'', ''break'', ''class'', ''continue'', ''do'', ''else'', ''false'', ''for'', ''fun'',
      ''if'', ''in'', ''interface'', ''is'', ''null'', ''object'', ''package'', ''return'',
      ''super'', ''this'', ''throw'', ''true'', ''try'', ''typealias'', ''typeof'', ''val'',
      ''var'', ''when'', ''while'']"

definition capitalised :: "string \<Rightarrow> string" where
  "capitalised word = (case word of [] \<Rightarrow> [] | c # cs \<Rightarrow> toupper c # cs)"

lemma keyword_names:
  "list_all (\<lambda>k. MixedLower k = k \<and> MixedLower (capitalised k) = k) kotlin_keywords"
  by code_simp

lemma declares:
  assumes "x = Some (b @ f @ k @ kotlin_parameters env m @ r)"
  shows "\<exists>before after. x = Some (before @ f @ k @ ''('' @ after)"
  using assms by (auto simp: kotlin_parameters_def)

text \<open>
  C30: names are not checked against Kotlin's keywords: a method whose name is a keyword, also
  one written with a capital, as is usual for methods of a service, is declared as a function
  of that name, without quotes, by the interface and by the client.
\<close>

theorem keywords_declared:
  assumes "sets_all interface_vars v" "sets_all client_vars w"
    and "k \<in> set kotlin_keywords" "md_name m \<in> {k, capitalised k}"
  shows "\<exists>before after before' after'.
    raw_text (calls v (interface_method env m)) = Some (before @ ''fun '' @ k @ ''('' @ after) \<and>
    raw_text (calls (stored w (client_method_plain env m)) (client_method_signature m)) =
      Some (before' @ ''override fun '' @ k @ ''('' @ after')"
proof -
  have "LowerMethodName m = k"
    using keyword_names assms(3,4) by (auto simp: LowerMethodName_def list_all_iff)
  moreover obtain rest where "raw_text (calls v (interface_method env m)) =
      Some (([newline] @ doc_text True (GetDocLinesForDescriptor (md_location m)))
        @ ''fun '' @ LowerMethodName m @ kotlin_parameters env m @ [newline]
        @ '':'' @ kotlin_result env m @ '' = '' @ rest)"
    using interface_method_text [OF assms(1), of env m] by auto
  note interface = declares [OF this]
  have "raw_text (calls (stored w (client_method_plain env m)) (client_method_signature m)) =
      Some ((''@io.rsocket.rpc.kotlin.annotations.GeneratedMethod(returnTypeClass = ''
        @ MessageFullKotlinName env (md_output_type m) @ ''::class)\<newline>'') @ ''override fun ''
        @ LowerMethodName m @ kotlin_parameters env m @ [newline]
        @ '': '' @ kotlin_result env m @ '' {\<newline>'')"
    by (simp add: client_signature_text [OF assms(2)])
  note client = declares [OF this]
  ultimately show ?thesis using interface client by blast
qed

theorem keywords_declared_witness:
  "\<exists>before after before' after'.
    raw_text (calls (map_of interface_vars) (interface_method sample_env (sample_method ''Object'' False False False))) =
      Some (before @ ''fun '' @ ''object'' @ ''('' @ after) \<and>
    raw_text (calls (stored (map_of client_vars) (client_method_plain sample_env (sample_method ''Object'' False False False)))
        (client_method_signature (sample_method ''Object'' False False False))) =
      Some (before' @ ''override fun '' @ ''object'' @ ''('' @ after')"
proof -
  have "''object'' \<in> set kotlin_keywords" by (simp add: kotlin_keywords_def)
  moreover have "capitalised ''object'' = ''Object''" by code_simp
  then have "md_name (sample_method ''Object'' False False False) \<in> {''object'', capitalised ''object''}"
    by (simp add: sample_method_def)
  ultimately show ?thesis by (rule keywords_declared [OF sets_all_vars])
qed

end
