(* ===== verification/ServiceReading.thy ===== *)
theory ServiceReading
  imports InterfaceReading ClientReading ServerReading
begin

text \<open>
  The service's own constant, read out of the printer's calls: the interface declares it, every
  request of the client names it, and the server returns it as the name it is registered under.
\<close>

section \<open>Readings\<close>

abbreviation service_constant_text :: string where
  "service_constant_text \<equiv> ''const val $service_field_name$ = \"$Package$$service_name$\"''"

abbreviation service_property_text :: string where
  "service_property_text \<equiv> ''override val service: String = $service_name$.$service_field_name$''"

definition declared_services :: "call list \<Rightarrow> (string \<times> string) list" where
  "declared_services cs =
     zip (uses service_constant_text ''service_field_name'' cs)
       (map2 (@) (uses service_constant_text ''Package'' cs)
                 (uses service_constant_text ''service_name'' cs))"

definition registered_services :: "call list \<Rightarrow> string list" where
  "registered_services cs = uses service_property_text ''service_field_name'' cs"

definition service_full_name :: "ServiceDescriptor \<Rightarrow> string" where
  "service_full_name service =
     (let package = fd_package (sd_file service)
      in (if package \<noteq> [] then package @ ''.'' else []) @ sd_name service)"

section \<open>The interface\<close>

lemma silent_service_doc_lines: "silent service_constant_text (map print_doc_line lines)"
  by (auto simp: silent_def print_doc_line_def)

lemma silent_service_constant:
  "silent service_constant_text (interface_constant x)"
  "silent service_constant_text (package_clause p ''package $package_name$\<newline>\<newline>'')"
  "silent service_constant_text (package_prefix f)"
  "silent service_constant_text (interface_stores service)"
  "silent service_constant_text (interface_version env d)"
  "silent service_constant_text (WriteServiceDocComment service)"
  "silent service_constant_text (WriteMethodDocComment m)"
  by (simp_all add: package_clause_def package_prefix_def interface_stores_def
      interface_constant_def interface_version_def WriteServiceDocComment_def
      WriteMethodDocComment_def WriteDocCommentBody_def silent_append silent_Cons silent_Nil
      silent_service_doc_lines split: option.split)

lemma silent_service_method: "silent service_constant_text (interface_method env m)"
  by (simp only: interface_method_def silent_service_constant silent_eval)

lemma interface_service_variables:
  fixes v :: vars
  assumes "s = stored v (package_prefix f @ interface_stores service @ interface_version env d
      @ WriteServiceDocComment service)"
  shows "s ''service_field_name'' = Some ''SERVICE''" "s ''service_name'' = Some (sd_name service)"
    "s ''Package'' = Some (if fd_package f \<noteq> [] then fd_package f @ ''.'' else [])"
  unfolding assms
  by (simp_all add: stored_append package_prefix_def interface_stores_def interface_version_def
      WriteServiceDocComment_def WriteDocCommentBody_def stored_doc_lines ServiceFieldName_def
      split: option.split)

lemma interface_service:
  "uses service_constant_text k (calls Map.empty (GenerateInterface env service flavor d)) =
     (case stored (stored Map.empty (store_vars interface_vars
         @ package_clause (ServiceKotlinPackage env (sd_file service)) ''package $package_name$\<newline>\<newline>''))
        (package_prefix (sd_file service) @ interface_stores service @ interface_version env d
         @ WriteServiceDocComment service) k
      of None \<Rightarrow> [] | Some v \<Rightarrow> [v])"
proof -
  have loops: "silent service_constant_text (concat (map interface_constant ms))"
    "silent service_constant_text (concat (map (interface_method env) ms))" for ms
    by (intro silent_loop silent_service_constant silent_service_method)+
  let ?before = "store_vars interface_vars
     @ package_clause (ServiceKotlinPackage env (sd_file service)) ''package $package_name$\<newline>\<newline>''
     @ package_prefix (sd_file service) @ interface_stores service @ interface_version env d
     @ WriteServiceDocComment service"
  let ?head = "[Print (''@$Generated$(\<newline>'' @
      ''    value = [\"by RSocket RPC proto compiler$rsocket_rpc_version$\"],\<newline>'' @
      ''    comments = \"Source: $file_name$\")\<newline>'' @
      ''interface $service_name$ {\<newline>\<newline>''),
   Indent,
   PrintText ''companion object {\<newline>'',
   Indent]"
  let ?rest = "concat (map interface_constant (sd_methods service))
    @ [Outdent, PrintText ''}\<newline>''] @ concat (map (interface_method env) (sd_methods service))
    @ [Outdent, PrintText ''}\<newline>'']"
  have shape: "GenerateInterface env service flavor d = (?before @ ?head)
      @ Print ''const val $service_field_name$ = \"$Package$$service_name$\"\<newline>'' # ?rest"
    by (simp add: GenerateInterface_def PrintInterface_def interface_body_def)
  have "silent service_constant_text ?before"
    unfolding silent_append
    by (intro conjI silent_service_constant silent_store_vars) simp
  then have "silent service_constant_text (?before @ ?head)" by (simp only: silent_eval)
  moreover have "silent service_constant_text ?rest"
    by (simp only: silent_append loops silent_eval)
  ultimately show ?thesis
    by (subst uses_single [OF shape]) (simp_all add: stored_append)
qed

lemma declared_services_interface:
  "declared_services (calls Map.empty (GenerateInterface env service flavor d)) =
     [(''SERVICE'', service_full_name service)]"
  by (simp only: declared_services_def interface_service interface_service_variables [OF refl]
      option.case) (simp add: service_full_name_def Let_def)

section \<open>The server\<close>

lemma silent_property_cases:
  "silent service_property_text (server_fnf_case env x)" "silent service_property_text (server_rr_case env x)"
  "silent service_property_text (server_rs_case env x)" "silent service_property_text (server_rc_case env x)"
  by (simp_all only: server_fnf_case_def server_rr_case_def server_rs_case_def server_rc_case_def
      silent_eval)

lemma silent_property_handlers:
  "silent service_property_text (server_fnf env ms)" "silent service_property_text (server_rr env ms)"
  "silent service_property_text (server_rs env ms)" "silent service_property_text (server_rc env ms)"
  "silent service_property_text (server_rc_publisher ms)" "silent service_property_text server_codec"
proof -
  have "silent service_property_text (concat (map (server_fnf_case env) ms))"
    "silent service_property_text (concat (map (server_rr_case env) ms))"
    "silent service_property_text (concat (map (server_rs_case env) ms))"
    "silent service_property_text (concat (map (server_rc_case env) ms))"
    by (intro silent_loop silent_property_cases)+
  then show "silent service_property_text (server_fnf env ms)" "silent service_property_text (server_rr env ms)"
    "silent service_property_text (server_rs env ms)" "silent service_property_text (server_rc env ms)"
    "silent service_property_text (server_rc_publisher ms)" "silent service_property_text server_codec"
    by (simp_all only: server_fnf_def server_rr_def server_rs_def server_rc_def
        server_rc_publisher_def server_codec_def silent_eval)
qed

lemma silent_property_start:
  "silent service_property_text (package_clause p ''package $package_name$;\<newline>\<newline>'')"
  "silent service_property_text (package_prefix f)"
  "silent service_property_text (server_stores service)"
  "silent service_property_text (server_version env d)"
  "silent service_property_text server_header"
  "silent service_property_text (server_trace_field x)"
  "silent service_property_text (server_trace_null x)"
  "silent service_property_text (server_trace_tracer x)"
  by (simp_all only: package_clause_def package_prefix_def server_stores_def
      server_version_def server_header_def server_trace_field_def server_trace_null_def
      server_trace_tracer_def silent_eval split: option.split)

lemma silent_property_init: "silent service_property_text (server_init service)"
proof -
  have "silent service_property_text (concat (map server_trace_null ms))"
    "silent service_property_text (concat (map server_trace_tracer ms))" for ms
    by (intro silent_loop silent_property_start)+
  then show ?thesis by (simp add: server_init_def silent_append silent_Cons silent_Nil)
qed

lemma keeps_server:
  "keeps ''service_field_name'' (server_version env d)"
  "keeps ''service_field_name'' server_header"
  "keeps ''service_field_name'' (server_trace_field x)"
  "keeps ''service_field_name'' (server_trace_null x)"
  "keeps ''service_field_name'' (server_trace_tracer x)"
  by (simp_all add: server_version_def server_header_def server_trace_field_def
      server_trace_null_def server_trace_tracer_def keeps_simps split: option.split)

lemma keeps_server_init: "keeps ''service_field_name'' (server_init service)"
proof -
  have "keeps ''service_field_name'' (concat (map server_trace_null ms))"
    "keeps ''service_field_name'' (concat (map server_trace_tracer ms))" for ms
    by (intro keeps_loop keeps_server)+
  then show ?thesis by (simp add: server_init_def keeps_simps)
qed

lemma registered_services_server:
  "registered_services (calls Map.empty (GenerateServer env service flavor d)) = [''SERVICE'']"
proof -
  let ?v = "sort_methods (sd_methods service)"
  let ?first = "store_vars server_vars
     @ package_clause (ServiceKotlinPackage env (sd_file service)) ''package $package_name$;\<newline>\<newline>''
     @ package_prefix (sd_file service)"
  let ?kept = "server_version env d
     @ server_header @ concat (map server_trace_field (sd_methods service)) @ server_init service"
  let ?after = "[PrintText ''\<newline>'',
   Print ''override val serviceClass = serviceImpl.javaClass\<newline>'',
   PrintText ''\<newline>''] @ server_fnf env (vec_fire_and_forget ?v)
     @ server_rr env (vec_request_response ?v) @ server_rs env (vec_request_stream ?v)
     @ server_rc env (vec_request_channel ?v) @ server_rc_publisher (vec_request_channel ?v)
     @ server_codec"
  let ?before = "?first @ server_stores service @ ?kept"
  have shape: "GenerateServer env service flavor d = ?before
     @ Print ''override val service: String = $service_name$.$service_field_name$\<newline>'' # ?after"
    by (simp add: GenerateServer_def PrintServer_def server_body_def server_service_def Let_def)
  have before: "silent service_property_text ?before"
    unfolding silent_append
    by (intro conjI silent_property_start silent_property_init silent_loop silent_store_vars) simp
  have after: "silent service_property_text ?after"
    by (simp only: silent_property_handlers silent_eval)
  have kept: "keeps ''service_field_name'' ?kept"
    unfolding keeps_simps by (intro conjI keeps_server keeps_server_init keeps_loop)
  have "stored (stored n (server_stores service)) ?kept ''service_field_name'' = Some ''SERVICE''" for n
    unfolding stored_kept [OF kept] by (simp add: server_stores_def ServiceFieldName_def)
  then have "stored Map.empty ?before ''service_field_name'' = Some ''SERVICE''"
    by (simp only: stored_append [of Map.empty ?first] stored_append [of _ "server_stores service"])
  then show ?thesis
    unfolding registered_services_def
    by (subst uses_single [OF shape before after]) simp_all
qed

end
