(* ===== verification/KotlinRuntime.thy ===== *)
theory KotlinRuntime
  imports Prelude "HOL-Library.Word"
begin

text \<open>
  What the Kotlin runtime (\<open>rsocket-rpc-core\<close>) is modelled with: results that may be
  exceptions, and Netty's buffers. A \<open>ByteBuf\<close> is represented by its readable bytes; the
  operations of Netty and of the Java library the code calls on it are a parameter, and
  \<open>documented_netty\<close> states what their documentation says.
\<close>

unbundle bit_operations_syntax

section \<open>Exceptions as values\<close>

datatype exception =
  IndexOutOfBounds | IllegalArgument | ServiceNotFound string | UnsupportedOperation
  | IllegalState | OtherThrowable

type_synonym 'a result = "exception + 'a"

definition res_bind :: "'a result \<Rightarrow> ('a \<Rightarrow> 'b result) \<Rightarrow> 'b result" where
  "res_bind r f = (case r of Inl e \<Rightarrow> Inl e | Inr x \<Rightarrow> f x)"

lemma res_bind_simps [simp]:
  "res_bind (Inl e) f = Inl e" "res_bind (Inr x) f = f x"
  by (simp_all add: res_bind_def)

section \<open>Buffers\<close>

type_synonym buf = "8 word list"

text \<open>
  \<open>getShort\<close>, \<open>toUtf8\<close> (\<open>toString(index, length, UTF_8)\<close>) and \<open>slice\<close> read at an absolute
  index; \<open>readShort\<close> and \<open>readCharSequence\<close> read at the beginning and return the bytes left;
  \<open>writeShort\<close> and \<open>reserveAndWriteUtf8\<close> append; \<open>utf8Bytes\<close> is the encoded length.
  Kotlin's \<open>Int\<close> is represented by its value: no sum below leaves the range of 32 bits.
\<close>

record netty =
  getShort :: "buf \<Rightarrow> int \<Rightarrow> (16 word) result"
  toUtf8 :: "buf \<Rightarrow> int \<Rightarrow> int \<Rightarrow> string result"
  slice :: "buf \<Rightarrow> int \<Rightarrow> int \<Rightarrow> buf result"
  readShort :: "buf \<Rightarrow> (16 word \<times> buf) result"
  readCharSequence :: "buf \<Rightarrow> int \<Rightarrow> (string \<times> buf) result"
  writeShort :: "buf \<Rightarrow> int \<Rightarrow> buf"
  reserveAndWriteUtf8 :: "buf \<Rightarrow> string \<Rightarrow> int \<Rightarrow> buf result"
  utf8Bytes :: "string \<Rightarrow> int"

text \<open>Big-endian encoding of a 16-bit value, and a part of a buffer.\<close>

definition short_bytes :: "16 word \<Rightarrow> buf" where
  "short_bytes w = [ucast (drop_bit 8 w), ucast w]"

definition bytes_short :: "8 word \<Rightarrow> 8 word \<Rightarrow> 16 word" where
  "bytes_short hi lo = push_bit 8 (ucast hi) OR ucast lo"

definition part :: "buf \<Rightarrow> int \<Rightarrow> int \<Rightarrow> buf result" where
  "part b i n =
     (if 0 \<le> i \<and> 0 \<le> n \<and> i + n \<le> int (length b) then Inr (take (nat n) (drop (nat i) b))
      else Inl IndexOutOfBounds)"

definition short_at :: "buf \<Rightarrow> int \<Rightarrow> (16 word) result" where
  "short_at b i = res_bind (part b i 2) (\<lambda>p. Inr (bytes_short (p ! 0) (p ! 1)))"

text \<open>An operation agrees with a result, or fails, with whatever exception, where that fails.\<close>

definition agrees :: "'a result \<Rightarrow> 'a result \<Rightarrow> bool" where
  "agrees r spec = (case spec of Inr x \<Rightarrow> r = Inr x | Inl _ \<Rightarrow> isl r)"

text \<open>
  The documented behaviour: reading outside of the buffer or with a negative length fails;
  \<open>writeShort\<close> ignores the high-order bits; \<open>reserveAndWriteUtf8\<close> writes the whole encoding
  when it returns, and does return when the room it is told to reserve is enough; UTF-8 decoding
  undoes encoding.
\<close>

definition documented_netty :: "netty \<Rightarrow> (string \<Rightarrow> buf) \<Rightarrow> (buf \<Rightarrow> string) \<Rightarrow> bool" where
  "documented_netty lib utf8 decode \<longleftrightarrow>
     (\<forall>s. decode (utf8 s) = s) \<and>
     (\<forall>s. utf8Bytes lib s = int (length (utf8 s))) \<and>
     (\<forall>b i. agrees (getShort lib b i) (short_at b i)) \<and>
     (\<forall>b i n. agrees (toUtf8 lib b i n) (res_bind (part b i n) (\<lambda>p. Inr (decode p)))) \<and>
     (\<forall>b i n. agrees (slice lib b i n) (part b i n)) \<and>
     (\<forall>b. agrees (readShort lib b) (res_bind (short_at b 0) (\<lambda>w. Inr (w, drop 2 b)))) \<and>
     (\<forall>b n. agrees (readCharSequence lib b n)
        (res_bind (part b 0 n) (\<lambda>p. Inr (decode p, drop (nat n) b)))) \<and>
     (\<forall>b i. writeShort lib b i = b @ short_bytes (word_of_int i)) \<and>
     (\<forall>b s n. reserveAndWriteUtf8 lib b s n = Inr (b @ utf8 s) \<or>
        isl (reserveAndWriteUtf8 lib b s n) \<and> n < int (length (utf8 s)))"

text \<open>An instance for strings whose characters are one byte each.\<close>

definition latin_bytes :: "string \<Rightarrow> buf" where
  "latin_bytes s = map (\<lambda>c. word_of_nat (of_char c)) s"

definition latin_string :: "buf \<Rightarrow> string" where
  "latin_string b = map (\<lambda>w. char_of (unat w)) b"

definition latin_netty :: netty where
  "latin_netty =
     \<lparr>getShort = short_at,
      toUtf8 = (\<lambda>b i n. res_bind (part b i n) (\<lambda>p. Inr (latin_string p))),
      slice = part,
      readShort = (\<lambda>b. res_bind (short_at b 0) (\<lambda>w. Inr (w, drop 2 b))),
      readCharSequence = (\<lambda>b n. res_bind (part b 0 n) (\<lambda>p. Inr (latin_string p, drop (nat n) b))),
      writeShort = (\<lambda>b i. b @ short_bytes (word_of_int i)),
      reserveAndWriteUtf8 = (\<lambda>b s n.
        if int (length s) \<le> n then Inr (b @ latin_bytes s) else Inl IndexOutOfBounds),
      utf8Bytes = (\<lambda>s. int (length s))\<rparr>"

lemma agrees_simps [simp]:
  "agrees r (Inr x) \<longleftrightarrow> r = Inr x" "agrees r (Inl e) \<longleftrightarrow> isl r" "agrees r r"
  by (auto simp: agrees_def split: sum.split)

lemma latin_netty_documented: "documented_netty latin_netty latin_bytes latin_string"
proof -
  have "char_of (unat (word_of_nat (of_char c) :: 8 word)) = c" for c
  proof -
    have "of_char c < (256 :: nat)" by (rule nat_of_char_less_256)
    then have "unat (word_of_nat (of_char c) :: 8 word) = of_char c" by (simp add: unat_of_nat)
    then show ?thesis by simp
  qed
  then show ?thesis
    by (auto simp: documented_netty_def latin_netty_def latin_bytes_def latin_string_def comp_def)
qed

lemma bytes_short_bytes [simp]:
  "bytes_short (ucast (drop_bit 8 w)) (ucast w) = w"
proof (rule bit_word_eqI)
  fix n assume "n < LENGTH(16)"
  then show "bit (bytes_short (ucast (drop_bit 8 w)) (ucast w)) n = bit w n"
    by (auto simp: bytes_short_def bit_simps)
qed

section \<open>Reading what was written\<close>

lemma part_append:
  assumes "i = int (length a)" "n = int (length m)"
  shows "part (a @ m @ z) i n = Inr m"
  using assms by (simp add: part_def)

lemma part_end:
  assumes "i = int (length a)" "n = int (length m)"
  shows "part (a @ m) i n = Inr m"
  using part_append [OF assms, of "[]"] by simp

lemma part_negative: "n < 0 \<Longrightarrow> part b i n = Inl IndexOutOfBounds"
  by (simp add: part_def)

text \<open>The laws, in the form the readers and writers use.\<close>

lemma netty_laws:
  assumes "documented_netty lib utf8 decode"
  shows "decode (utf8 s) = s" "utf8Bytes lib s = int (length (utf8 s))"
    "writeShort lib b i = b @ short_bytes (word_of_int i)"
    "int (length (utf8 s)) \<le> n \<Longrightarrow> reserveAndWriteUtf8 lib b s n = Inr (b @ utf8 s)"
    "reserveAndWriteUtf8 lib b s n = Inr c \<Longrightarrow> c = b @ utf8 s"
    "part b i n = Inr p \<Longrightarrow> toUtf8 lib b i n = Inr (decode p)"
    "n < 0 \<Longrightarrow> isl (toUtf8 lib b i n)"
    "part b i n = Inr p \<Longrightarrow> slice lib b i n = Inr p"
    "part b 0 n = Inr p \<Longrightarrow> readCharSequence lib b n = Inr (decode p, drop (nat n) b)"
    "n < 0 \<Longrightarrow> isl (readCharSequence lib b n)"
proof -
  note laws = assms [unfolded documented_netty_def]
  from laws show "decode (utf8 s) = s" "utf8Bytes lib s = int (length (utf8 s))"
    "writeShort lib b i = b @ short_bytes (word_of_int i)" by blast+
  from laws have writes: "reserveAndWriteUtf8 lib b s n = Inr (b @ utf8 s) \<or>
        isl (reserveAndWriteUtf8 lib b s n) \<and> n < int (length (utf8 s))" by blast
  then show "int (length (utf8 s)) \<le> n \<Longrightarrow> reserveAndWriteUtf8 lib b s n = Inr (b @ utf8 s)"
    "reserveAndWriteUtf8 lib b s n = Inr c \<Longrightarrow> c = b @ utf8 s" by auto
  from laws have decoded: "agrees (toUtf8 lib b i n) (res_bind (part b i n) (\<lambda>p. Inr (decode p)))"
    by blast
  then show "part b i n = Inr p \<Longrightarrow> toUtf8 lib b i n = Inr (decode p)"
    "n < 0 \<Longrightarrow> isl (toUtf8 lib b i n)" by (simp_all add: part_negative)
  from laws have "agrees (slice lib b i n) (part b i n)" by blast
  then show "part b i n = Inr p \<Longrightarrow> slice lib b i n = Inr p" by simp
  from laws have "agrees (readCharSequence lib b n)
        (res_bind (part b 0 n) (\<lambda>p. Inr (decode p, drop (nat n) b)))" by blast
  then show "part b 0 n = Inr p \<Longrightarrow> readCharSequence lib b n = Inr (decode p, drop (nat n) b)"
    "n < 0 \<Longrightarrow> isl (readCharSequence lib b n)" by (simp_all add: part_negative)
qed

lemma short_at_append:
  assumes "i = int (length a)"
  shows "short_at (a @ short_bytes w @ z) i = Inr w"
proof -
  have "part (a @ short_bytes w @ z) i 2 = Inr (short_bytes w)"
    using assms by (intro part_append) (simp_all add: short_bytes_def)
  then show ?thesis by (simp add: short_at_def) (simp add: short_bytes_def)
qed

lemma getShort_at:
  assumes "documented_netty lib utf8 decode" "i = int (length a)"
  shows "getShort lib (a @ short_bytes w @ z) i = Inr w"
proof -
  from assms(1) have "agrees (getShort lib b i) (short_at b i)" for b
    unfolding documented_netty_def by blast
  from this [of "a @ short_bytes w @ z"] show ?thesis
    by (simp only: short_at_append [OF assms(2)] agrees_simps)
qed

lemma readShort_at:
  assumes "documented_netty lib utf8 decode"
  shows "readShort lib (short_bytes w @ z) = Inr (w, z)"
proof -
  have "short_at (short_bytes w @ z) 0 = Inr w" using short_at_append [of 0 "[]" w z] by simp
  moreover from assms have
    "agrees (readShort lib b) (res_bind (short_at b 0) (\<lambda>w. Inr (w, drop 2 b)))" for b
    unfolding documented_netty_def by blast
  from this [of "short_bytes w @ z"] calculation show ?thesis by (simp add: short_bytes_def)
qed

text \<open>Reading consumes bytes.\<close>

lemma readShort_shorter:
  assumes "documented_netty lib utf8 decode" "readShort lib b = Inr (w, c)"
  shows "length c < length b"
proof -
  from assms(1) have "agrees (readShort lib b) (res_bind (short_at b 0) (\<lambda>w. Inr (w, drop 2 b)))"
    unfolding documented_netty_def by blast
  with assms(2) have "c = drop 2 b" "2 \<le> length b"
    by (auto simp: short_at_def part_def split: if_splits)
  then show ?thesis by simp
qed

lemma readCharSequence_shorter:
  assumes "documented_netty lib utf8 decode" "readCharSequence lib b n = Inr (x, c)"
  shows "length c \<le> length b"
proof -
  from assms(1) have "agrees (readCharSequence lib b n)
      (res_bind (part b 0 n) (\<lambda>p. Inr (decode p, drop (nat n) b)))"
    unfolding documented_netty_def by blast
  with assms(2) have "c = drop (nat n) b" by (auto simp: part_def split: if_splits)
  then show ?thesis by simp
qed

lemma length_short_bytes [simp]: "length (short_bytes w) = 2"
  by (simp add: short_bytes_def)

lemma centred_mod:
  fixes x :: int
  shows "(x + 32768) mod 65536 - 32768 =
    (if x mod 65536 < 32768 then x mod 65536 else x mod 65536 - 65536)"
proof -
  define r where "r = x mod 65536"
  have r: "0 \<le> r" "r < 65536" "(x + 32768) mod 65536 = (r + 32768) mod 65536"
    by (simp_all add: r_def mod_add_left_eq)
  show ?thesis
  proof (cases "r < 32768")
    case True
    with r show ?thesis by (simp flip: r_def)
  next
    case False
    have "r + 32768 = r - 32768 + 65536" by simp
    then have "(r + 32768) mod 65536 = (r - 32768) mod 65536" by (simp only: mod_add_self2)
    also have "\<dots> = r - 32768" using r False by simp
    finally show ?thesis using r(3) False by (simp flip: r_def)
  qed
qed

text \<open>A length written as a short reads back as itself up to 32767, negative from 32768 to 65535.\<close>

lemma sint_short:
  "sint (word_of_nat n :: 16 word) =
     (if n mod 65536 < 32768 then int (n mod 65536) else int (n mod 65536) - 65536)"
proof -
  have "sint (word_of_nat n :: 16 word) = signed_take_bit 15 (int n)"
    by (simp add: signed_of_nat)
  also have "\<dots> = (int n + 32768) mod 65536 - 32768"
    by (simp add: signed_take_bit_eq_take_bit_shift take_bit_eq_mod)
  also have "\<dots> = (if n mod 65536 < 32768 then int (n mod 65536) else int (n mod 65536) - 65536)"
  proof -
    have "(x + 32768) mod 65536 - 32768 =
        (if x mod 65536 < 32768 then x mod 65536 else x mod 65536 - 65536)" for x :: int
      by (rule centred_mod)
    moreover have "int (n mod 65536) = int n mod 65536" by (simp add: zmod_int)
    moreover from this have "n mod 65536 < 32768 \<longleftrightarrow> int n mod 65536 < 32768" by linarith
    ultimately show ?thesis by simp
  qed
  finally show ?thesis .
qed

lemma sint_short_small: "n < 32768 \<Longrightarrow> sint (word_of_nat n :: 16 word) = int n"
  by (simp add: sint_short)

lemma sint_short_large:
  "32768 \<le> n \<Longrightarrow> n < 65536 \<Longrightarrow> sint (word_of_nat n :: 16 word) < 0"
  by (simp add: sint_short)

lemma sint_short_le: "sint (word_of_nat n :: 16 word) \<le> int n"
proof -
  have "n mod 65536 \<le> n" by simp
  then have "int (n mod 65536) \<le> int n" by (simp only: of_nat_le_iff)
  then show ?thesis unfolding sint_short by (split if_split) linarith
qed

end
