(* ===== verification/Frames.thy ===== *)
theory Frames
  imports KotlinRuntime
begin

text \<open>
  \<open>frames/Metadata.kt\<close>: the metadata frame a generated client sends with a request: version,
  service, method, tracing metadata, each but the first with its length as a short, and the
  caller's metadata up to the end. Lengths are written as unsigned shorts and read as signed
  ones.
\<close>

section \<open>Model\<close>

definition requireUnsignedShort :: "int \<Rightarrow> int result" where
  "requireUnsignedShort i = (if i > 65535 then Inl IllegalArgument else Inr i)"

definition encode :: "netty \<Rightarrow> string \<Rightarrow> string \<Rightarrow> buf \<Rightarrow> buf \<Rightarrow> buf result" where
  "encode lib service method tracing metadata =
     (let byteBuf = writeShort lib [] 1
      in res_bind (requireUnsignedShort (utf8Bytes lib service)) (\<lambda>serviceLength.
         res_bind (reserveAndWriteUtf8 lib (writeShort lib byteBuf serviceLength) service serviceLength) (\<lambda>byteBuf.
         res_bind (requireUnsignedShort (utf8Bytes lib method)) (\<lambda>methodLength.
         res_bind (reserveAndWriteUtf8 lib (writeShort lib byteBuf methodLength) method methodLength) (\<lambda>byteBuf.
         (let byteBuf = writeShort lib byteBuf (int (length tracing)) @ tracing
          in Inr (byteBuf @ metadata)))))))"

text \<open>The overload without tracing metadata.\<close>

definition encode_untraced :: "netty \<Rightarrow> string \<Rightarrow> string \<Rightarrow> buf \<Rightarrow> buf result" where
  "encode_untraced lib service method metadata = encode lib service method [] metadata"

definition getVersion :: "netty \<Rightarrow> buf \<Rightarrow> int result" where
  "getVersion lib byteBuf = res_bind (getShort lib byteBuf 0) (\<lambda>v. Inr (sint v AND 0x7FFF))"

definition getService :: "netty \<Rightarrow> buf \<Rightarrow> string result" where
  "getService lib byteBuf =
     (let offset = 2
      in res_bind (getShort lib byteBuf offset) (\<lambda>serviceLength.
         let offset = offset + 2
         in toUtf8 lib byteBuf offset (sint serviceLength)))"

definition getMethod :: "netty \<Rightarrow> buf \<Rightarrow> string result" where
  "getMethod lib byteBuf =
     (let offset = 2
      in res_bind (getShort lib byteBuf offset) (\<lambda>serviceLength.
         let offset = offset + (2 + sint serviceLength)
         in res_bind (getShort lib byteBuf offset) (\<lambda>methodLength.
            let offset = offset + 2
            in toUtf8 lib byteBuf offset (sint methodLength))))"

definition getTracing :: "netty \<Rightarrow> buf \<Rightarrow> buf result" where
  "getTracing lib byteBuf =
     (let offset = 2
      in res_bind (getShort lib byteBuf offset) (\<lambda>serviceLength.
         let offset = offset + (2 + sint serviceLength)
         in res_bind (getShort lib byteBuf offset) (\<lambda>methodLength.
            let offset = offset + (2 + sint methodLength)
            in res_bind (getShort lib byteBuf offset) (\<lambda>tracingLength.
               let offset = offset + 2
               in if sint tracingLength > 0 then slice lib byteBuf offset (sint tracingLength)
                  else Inr []))))"

definition getMetadata :: "netty \<Rightarrow> buf \<Rightarrow> buf result" where
  "getMetadata lib byteBuf =
     (let offset = 2
      in res_bind (getShort lib byteBuf offset) (\<lambda>serviceLength.
         let offset = offset + (2 + sint serviceLength)
         in res_bind (getShort lib byteBuf offset) (\<lambda>methodLength.
            let offset = offset + (2 + sint methodLength)
            in res_bind (getShort lib byteBuf offset) (\<lambda>tracingLength.
               let offset = offset + (2 + sint tracingLength);
                   metadataLength = int (length byteBuf) - offset
               in if metadataLength > 0 then slice lib byteBuf offset metadataLength
                  else Inr []))))"

section \<open>The layout of a frame\<close>

definition frame_bytes :: "buf \<Rightarrow> buf \<Rightarrow> buf \<Rightarrow> buf \<Rightarrow> buf" where
  "frame_bytes service method tracing metadata =
     short_bytes 1 @ short_bytes (word_of_nat (length service)) @ service
     @ short_bytes (word_of_nat (length method)) @ method
     @ short_bytes (word_of_nat (length tracing)) @ tracing @ metadata"

lemma encode_frame:
  assumes "documented_netty lib utf8 decode"
  shows "encode lib service method tracing metadata =
    (if length (utf8 service) > 65535 \<or> length (utf8 method) > 65535 then Inl IllegalArgument
     else Inr (frame_bytes (utf8 service) (utf8 method) tracing metadata))"
  by (auto simp: encode_def Let_def requireUnsignedShort_def netty_laws [OF assms] frame_bytes_def)

text \<open>The reads of the getters on a frame, in the order the getters make them.\<close>

lemma frame_reads:
  assumes "documented_netty lib utf8 decode"
  shows "getShort lib (frame_bytes s m t d) 0 = Inr 1"
    "getShort lib (frame_bytes s m t d) 2 = Inr (word_of_nat (length s))"
    "getShort lib (frame_bytes s m t d) (4 + int (length s)) = Inr (word_of_nat (length m))"
    "getShort lib (frame_bytes s m t d) (6 + (int (length s) + int (length m))) =
       Inr (word_of_nat (length t))"
proof -
  show "getShort lib (frame_bytes s m t d) 0 = Inr 1"
    using getShort_at [OF assms, of 0 "[]"] by (simp add: frame_bytes_def)
  show "getShort lib (frame_bytes s m t d) 2 = Inr (word_of_nat (length s))"
    unfolding frame_bytes_def by (rule getShort_at [OF assms]) simp
  show "getShort lib (frame_bytes s m t d) (4 + int (length s)) = Inr (word_of_nat (length m))"
    using getShort_at [OF assms, of "4 + int (length s)"
        "short_bytes 1 @ short_bytes (word_of_nat (length s)) @ s"]
    by (simp add: frame_bytes_def)
  show "getShort lib (frame_bytes s m t d) (6 + (int (length s) + int (length m))) =
      Inr (word_of_nat (length t))"
    using getShort_at [OF assms, of "6 + (int (length s) + int (length m))"
        "short_bytes 1 @ short_bytes (word_of_nat (length s)) @ s
          @ short_bytes (word_of_nat (length m)) @ m"]
    by (simp add: frame_bytes_def)
qed

lemma frame_parts:
  "part (frame_bytes s m t d) 4 (int (length s)) = Inr s"
  "part (frame_bytes s m t d) (6 + int (length s)) (int (length m)) = Inr m"
  "k \<le> length (t @ d) \<Longrightarrow>
     part (frame_bytes s m t d) (8 + (int (length s) + int (length m))) (int k) = Inr (take k (t @ d))"
  "part (frame_bytes s m t d) (8 + (int (length s) + (int (length m) + int (length t))))
     (int (length d)) = Inr d"
proof -
  let ?a = "short_bytes 1 @ short_bytes (word_of_nat (length s))"
  let ?b = "?a @ s @ short_bytes (word_of_nat (length m))"
  let ?c = "?b @ m @ short_bytes (word_of_nat (length t))"
  show "part (frame_bytes s m t d) 4 (int (length s)) = Inr s"
    using part_append [of 4 ?a _ s] by (simp add: frame_bytes_def)
  show "part (frame_bytes s m t d) (6 + int (length s)) (int (length m)) = Inr m"
    using part_append [of "6 + int (length s)" ?b _ m] by (simp add: frame_bytes_def)
  show "part (frame_bytes s m t d) (8 + (int (length s) + (int (length m) + int (length t))))
     (int (length d)) = Inr d"
    using part_end [of "8 + (int (length s) + (int (length m) + int (length t)))" "?c @ t" _ d]
    by (simp add: frame_bytes_def)
  assume k: "k \<le> length (t @ d)"
  have "frame_bytes s m t d = ?c @ take k (t @ d) @ drop k (t @ d)"
    by (simp only: append_take_drop_id frame_bytes_def append_assoc)
  moreover have "part (?c @ take k (t @ d) @ drop k (t @ d)) (8 + (int (length s) + int (length m)))
      (int k) = Inr (take k (t @ d))"
    using k by (intro part_append) simp_all
  ultimately show "part (frame_bytes s m t d) (8 + (int (length s) + int (length m))) (int k) =
      Inr (take k (t @ d))"
    by (simp only:)
qed

section \<open>What a reader gets\<close>

lemma getVersion_frame:
  assumes "documented_netty lib utf8 decode"
  shows "getVersion lib (frame_bytes s m t d) = Inr 1"
  by (simp add: getVersion_def frame_reads [OF assms])

lemma getService_frame:
  assumes "documented_netty lib utf8 decode"
  shows "length s < 32768 \<Longrightarrow> getService lib (frame_bytes s m t d) = Inr (decode s)"
    "32768 \<le> length s \<Longrightarrow> length s < 65536 \<Longrightarrow> isl (getService lib (frame_bytes s m t d))"
  by (simp_all add: getService_def frame_reads [OF assms] netty_laws(6,7) [OF assms]
      sint_short_small sint_short_large frame_parts)

lemma getMethod_frame:
  assumes "documented_netty lib utf8 decode" "length s < 32768" "length m < 32768"
  shows "getMethod lib (frame_bytes s m t d) = Inr (decode m)"
  using assms(2,3)
  by (simp add: getMethod_def frame_reads [OF assms(1)] netty_laws(6) [OF assms(1)]
      sint_short_small frame_parts)

lemma getTracing_frame:
  assumes "documented_netty lib utf8 decode" "length s < 32768" "length m < 32768"
  shows "getTracing lib (frame_bytes s m t d) =
    Inr (take (nat (sint (word_of_nat (length t) :: 16 word))) t)"
proof -
  define k where "k = sint (word_of_nat (length t) :: 16 word)"
  have k: "k \<le> int (length t)" by (simp add: k_def sint_short_le)
  have parts: "part (frame_bytes s m t d) (8 + (int (length s) + int (length m))) k =
      Inr (take (nat k) t)" if "k > 0"
    using frame_parts(3) [of "nat k" t d s m] that k by simp
  show ?thesis
    using assms(2,3)
    by (simp add: getTracing_def Let_def frame_reads [OF assms(1)] netty_laws(8) [OF assms(1)]
        sint_short_small add.assoc parts flip: k_def)
qed

lemma getMetadata_frame:
  assumes "documented_netty lib utf8 decode" "length s < 32768" "length m < 32768"
    "sint (word_of_nat (length t) :: 16 word) = int k"
  shows "getMetadata lib (frame_bytes s m t d) = Inr (drop k t @ d)"
proof -
  have k: "k \<le> length t" using sint_short_le [of "length t"] assms(4) by simp
  have len: "length (frame_bytes s m t d) = 8 + length s + length m + length t + length d"
    by (simp add: frame_bytes_def)
  let ?a = "short_bytes 1 @ short_bytes (word_of_nat (length s)) @ s
    @ short_bytes (word_of_nat (length m)) @ m @ short_bytes (word_of_nat (length t)) @ take k t"
  have "frame_bytes s m t d = ?a @ drop k t @ d" by (simp add: frame_bytes_def)
  moreover have "part (?a @ drop k t @ d) (8 + (int (length s) + (int (length m) + int k)))
      (int (length (drop k t @ d))) = Inr (drop k t @ d)"
    using k by (intro part_end) simp_all
  ultimately have "part (frame_bytes s m t d) (8 + (int (length s) + (int (length m) + int k)))
      (int (length (frame_bytes s m t d)) - (8 + (int (length s) + (int (length m) + int k)))) =
      Inr (drop k t @ d)"
    using k by (simp add: len add.assoc)
  moreover have "drop k t @ d = []"
    if "\<not> 8 + (int (length s) + (int (length m) + int k)) < int (length (frame_bytes s m t d))"
  proof -
    have "length d = 0" using that k unfolding len by linarith
    moreover have "length t \<le> k" using that k unfolding len by linarith
    ultimately show ?thesis by simp
  qed
  ultimately show ?thesis
    using assms(2,3,4)
    by (auto simp: getMetadata_def Let_def frame_reads [OF assms(1)] netty_laws(8) [OF assms(1)]
        sint_short_small add.assoc)
qed

section \<open>Properties\<close>

text \<open>
  C5: What a client encodes with \<open>Metadata.encode\<close> is what the getters of a server read back:
  the version, the service, the method, the tracing metadata and the caller's metadata, for
  names and tracing metadata of up to 32767 encoded bytes each and metadata of any length.
\<close>

theorem frame_roundtrip:
  assumes "documented_netty lib utf8 decode"
    "length (utf8 service) \<le> 32767" "length (utf8 method) \<le> 32767" "length tracing \<le> 32767"
  shows "\<exists>frame. encode lib service method tracing metadata = Inr frame
    \<and> getVersion lib frame = Inr 1
    \<and> getService lib frame = Inr service
    \<and> getMethod lib frame = Inr method
    \<and> getTracing lib frame = Inr tracing
    \<and> getMetadata lib frame = Inr metadata"
proof -
  note lib = assms(1)
  have small: "length (utf8 service) < 32768" "length (utf8 method) < 32768"
    "length tracing < 32768"
    using assms(2-4) by simp_all
  let ?f = "frame_bytes (utf8 service) (utf8 method) tracing metadata"
  have "encode lib service method tracing metadata = Inr ?f"
    using small by (simp add: encode_frame [OF lib])
  moreover have "getVersion lib ?f = Inr 1" by (rule getVersion_frame [OF lib])
  moreover have "getService lib ?f = Inr service"
    using small by (simp add: getService_frame [OF lib] netty_laws(1) [OF lib])
  moreover have "getMethod lib ?f = Inr method"
    using small by (simp add: getMethod_frame [OF lib] netty_laws(1) [OF lib])
  moreover have "getTracing lib ?f = Inr tracing"
    using small by (simp add: getTracing_frame [OF lib] sint_short_small)
  moreover have "getMetadata lib ?f = Inr metadata"
    using small getMetadata_frame [OF lib small(1,2), of tracing "length tracing" metadata]
    by (simp add: sint_short_small)
  ultimately show ?thesis by blast
qed

theorem frame_roundtrip_witness:
  "\<exists>frame. encode latin_netty ''io.Greeter'' ''SayHello'' [7] [1, 2, 3] = Inr frame
    \<and> getVersion latin_netty frame = Inr 1
    \<and> getService latin_netty frame = Inr ''io.Greeter''
    \<and> getMethod latin_netty frame = Inr ''SayHello''
    \<and> getTracing latin_netty frame = Inr [7]
    \<and> getMetadata latin_netty frame = Inr [1, 2, 3]"
  by (rule frame_roundtrip [OF latin_netty_documented]) (simp_all add: latin_bytes_def)

text \<open>
  C19: What becomes of a service name of any length: longer than 65535 encoded bytes it is
  refused when the frame is written, and from 32768 to 65535 the frame is written but reading
  the name fails, because its length is read as a signed short.
\<close>

theorem frame_service_name:
  assumes "documented_netty lib utf8 decode" "length (utf8 method) \<le> 65535"
  shows "let read = res_bind (encode lib service method tracing metadata) (getService lib)
    in if length (utf8 service) > 65535 then read = Inl IllegalArgument
       else if length (utf8 service) > 32767 then isl read
       else read = Inr service"
  using assms(2)
  by (simp add: encode_frame [OF assms(1)] getService_frame [OF assms(1)] Let_def
      netty_laws(1) [OF assms(1)])

theorem frame_service_name_witness:
  "isl (res_bind (encode latin_netty (replicate 32768 CHR ''s'') ''m'' [] [])
      (getService latin_netty))"
  using frame_service_name [OF latin_netty_documented, of "''m''" "replicate 32768 CHR ''s''" "[]" "[]"]
  by (simp add: latin_bytes_def Let_def)



end
