(* ===== verification/TracingMaps.thy ===== *)
theory TracingMaps
  imports Frames "HOL-Library.AList"
begin

text \<open>
  \<open>tracing/Tracing.kt\<close>: the map of strings a tracer writes into a frame and reads from it. A map
  is the list of its entries, in the order in which it is iterated when written and in the order
  of insertion when read (a \<open>HashMap\<close> iterates in an order of its own, so the tracer's \<open>extract\<close>,
  a parameter, is given the map only).
\<close>

section \<open>Model\<close>

fun writeEntries :: "netty \<Rightarrow> buf \<Rightarrow> (string \<times> string) list \<Rightarrow> buf result" where
  "writeEntries lib byteBuf [] = Inr byteBuf"
| "writeEntries lib byteBuf ((key, value) # entries) =
     res_bind (requireUnsignedShort (utf8Bytes lib key)) (\<lambda>keyLength.
     res_bind (reserveAndWriteUtf8 lib (writeShort lib byteBuf keyLength) key keyLength) (\<lambda>byteBuf.
     res_bind (requireUnsignedShort (utf8Bytes lib value)) (\<lambda>valueLength.
     res_bind (reserveAndWriteUtf8 lib (writeShort lib byteBuf valueLength) value keyLength) (\<lambda>byteBuf.
     writeEntries lib byteBuf entries))))"

definition mapToByteBuf :: "netty \<Rightarrow> (string \<times> string) list option \<Rightarrow> buf result" where
  "mapToByteBuf lib m =
     (case m of None \<Rightarrow> Inr []
      | Some entries \<Rightarrow> if entries = [] then Inr [] else writeEntries lib [] entries)"

text \<open>The loop of \<open>byteBufToMap\<close>: \<open>None\<close> where it would not end.\<close>

partial_function (option) readEntries ::
    "netty \<Rightarrow> (string \<times> string) list \<Rightarrow> buf \<Rightarrow> (string \<times> string) list result option" where
  [code]: "readEntries lib m byteBuf =
     (if int (length byteBuf) > 0 then
        case readShort lib byteBuf of Inl e \<Rightarrow> Some (Inl e) | Inr (keyLength, byteBuf) \<Rightarrow>
        (case readCharSequence lib byteBuf (sint keyLength) of Inl e \<Rightarrow> Some (Inl e) | Inr (key, byteBuf) \<Rightarrow>
        (case readShort lib byteBuf of Inl e \<Rightarrow> Some (Inl e) | Inr (valueLength, byteBuf) \<Rightarrow>
        (case readCharSequence lib byteBuf (sint valueLength) of Inl e \<Rightarrow> Some (Inl e) | Inr (value, byteBuf) \<Rightarrow>
         readEntries lib (AList.update key value m) byteBuf)))
      else Some (Inr m))"

definition byteBufToMap :: "netty \<Rightarrow> buf \<Rightarrow> (string \<times> string) list result option" where
  "byteBufToMap lib byteBuf = readEntries lib [] byteBuf"

text \<open>A platform value that is null where a \<open>SpanContext\<close> is declared fails the compiler's check.\<close>

definition extract_context :: "((string \<Rightarrow> string option) \<Rightarrow> 'c option) \<Rightarrow> (string \<times> string) list \<Rightarrow> 'c result" where
  "extract_context tracer metadata =
     (case tracer (map_of metadata) of None \<Rightarrow> Inl IllegalState | Some context \<Rightarrow> Inr context)"

definition deserializeTracingMetadata ::
    "netty \<Rightarrow> ((string \<Rightarrow> string option) \<Rightarrow> 'c option) option \<Rightarrow> buf \<Rightarrow> 'c option result option" where
  "deserializeTracingMetadata lib tracer metadata =
     (case tracer of None \<Rightarrow> Some (Inr None)
      | Some extract \<Rightarrow>
        (case getTracing lib metadata of Inl e \<Rightarrow> Some (Inl e)
         | Inr tracing \<Rightarrow>
           if int (length tracing) < 0 then Some (Inr None)
           else (case byteBufToMap lib tracing of None \<Rightarrow> None
             | Some (Inl e) \<Rightarrow> Some (Inl e)
             | Some (Inr metadataMap) \<Rightarrow>
               if metadataMap = [] then Some (Inr None)
               else Some (res_bind (extract_context extract metadataMap) (\<lambda>c. Inr (Some c))))))"

section \<open>The layout of a map\<close>

definition entry_bytes :: "(string \<Rightarrow> buf) \<Rightarrow> string \<times> string \<Rightarrow> buf" where
  "entry_bytes utf8 e =
     short_bytes (word_of_nat (length (utf8 (fst e)))) @ utf8 (fst e)
     @ short_bytes (word_of_nat (length (utf8 (snd e)))) @ utf8 (snd e)"

definition entries_fit :: "(string \<Rightarrow> buf) \<Rightarrow> (string \<times> string) list \<Rightarrow> bool" where
  "entries_fit utf8 entries =
     list_all (\<lambda>e. length (utf8 (fst e)) \<le> 32767 \<and> length (utf8 (snd e)) \<le> 32767) entries"


lemma writeEntries_Cons:
  assumes "documented_netty lib utf8 decode"
  shows "writeEntries lib b ((key, value) # entries) =
    (if length (utf8 key) > 65535 \<or> length (utf8 value) > 65535 then Inl IllegalArgument
     else res_bind (reserveAndWriteUtf8 lib
         (b @ short_bytes (word_of_nat (length (utf8 key))) @ utf8 key
            @ short_bytes (word_of_nat (length (utf8 value)))) value (int (length (utf8 key))))
       (\<lambda>c. writeEntries lib c entries))"
  by (simp add: requireUnsignedShort_def netty_laws(2-4) [OF assms])

lemma writeEntries_bytes:
  assumes "documented_netty lib utf8 decode"
  shows "writeEntries lib b entries = Inr c \<Longrightarrow> c = b @ concat (map (entry_bytes utf8) entries)"
proof (induction entries arbitrary: b)
  case (Cons e entries)
  obtain key val where e: "e = (key, val)" by (cases e)
  from Cons.prems obtain d where
    d: "reserveAndWriteUtf8 lib
         (b @ short_bytes (word_of_nat (length (utf8 key))) @ utf8 key
            @ short_bytes (word_of_nat (length (utf8 val)))) val (int (length (utf8 key))) = Inr d"
    and rest: "writeEntries lib d entries = Inr c"
    unfolding e writeEntries_Cons [OF assms]
    by (auto simp: res_bind_def split: if_splits sum.splits)
  from netty_laws(5) [OF assms d] Cons.IH [OF rest] show ?case by (simp add: e entry_bytes_def)
qed simp


lemma readCharSequence_at:
  assumes "documented_netty lib utf8 decode" "length x < 32768"
  shows "readCharSequence lib (x @ z) (sint (word_of_nat (length x) :: 16 word)) = Inr (decode x, z)"
  using netty_laws(9) [OF assms(1), of "x @ z" "int (length x)" x] part_append [of 0 "[]" _ x z]
    assms(2)
  by (simp add: sint_short_small)

lemma readEntries_entry:
  assumes "documented_netty lib utf8 decode"
    "length (utf8 (fst e)) < 32768" "length (utf8 (snd e)) < 32768"
  shows "readEntries lib m (entry_bytes utf8 e @ z) = readEntries lib (AList.update (fst e) (snd e) m) z"
proof -
  have "length (entry_bytes utf8 e @ z) > 0" by (simp add: entry_bytes_def)
  then show ?thesis
    using assms(2,3)
    by (subst readEntries.simps)
       (simp add: entry_bytes_def readShort_at [OF assms(1)] readCharSequence_at [OF assms(1)]
          netty_laws(1) [OF assms(1)])
qed

lemma update_new: "k \<notin> fst ` set m \<Longrightarrow> AList.update k v m = m @ [(k, v)]"
  by (induction m) auto

lemma readEntries_bytes:
  assumes "documented_netty lib utf8 decode"
  shows "entries_fit utf8 entries \<Longrightarrow> distinct (map fst (m @ entries)) \<Longrightarrow>
    readEntries lib m (concat (map (entry_bytes utf8) entries)) = Some (Inr (m @ entries))"
proof (induction entries arbitrary: m)
  case Nil
  then show ?case by (subst readEntries.simps) simp
next
  case (Cons e entries)
  then have "AList.update (fst e) (snd e) m = m @ [e]" by (subst update_new) auto
  moreover have "length (utf8 (fst e)) < 32768" "length (utf8 (snd e)) < 32768"
    "entries_fit utf8 entries"
    using Cons.prems(1) by (simp_all add: entries_fit_def)
  ultimately show ?case
    using Cons.IH [of "m @ [e]"] Cons.prems(2) by (simp add: readEntries_entry [OF assms])
qed

lemma readEntries_ends:
  assumes "documented_netty lib utf8 decode"
  shows "\<exists>r. readEntries lib m b = Some r"
proof (induction b arbitrary: m rule: measure_induct_rule [of length])
  case (less b)
  have "\<exists>r. readEntries lib (AList.update key val m) e = Some r"
    if "readShort lib b = Inr (k, c)" "readCharSequence lib c (sint k) = Inr (key, d)"
      "readShort lib d = Inr (v, d')" "readCharSequence lib d' (sint v) = Inr (val, e)"
    for k c key d v d' val e
  proof (rule less)
    show "length e < length b"
      using readShort_shorter [OF assms that(1)] readCharSequence_shorter [OF assms that(2)]
        readShort_shorter [OF assms that(3)] readCharSequence_shorter [OF assms that(4)] by linarith
  qed
  then show ?case by (subst readEntries.simps) (auto split: sum.split)
qed

lemma map_buffer:
  assumes "documented_netty lib utf8 decode" "mapToByteBuf lib (Some entries) = Inr b"
  shows "b = concat (map (entry_bytes utf8) entries)"
  using assms(2) writeEntries_bytes [OF assms(1), of "[]" entries b]
  by (auto simp: mapToByteBuf_def split: if_splits)

lemma no_tracer: "deserializeTracingMetadata lib None frame = Some (Inr None)"
  by (simp add: deserializeTracingMetadata_def)

lemma deserialize_frame:
  assumes "documented_netty lib utf8 decode"
    "length (utf8 service) \<le> 32767" "length (utf8 method) \<le> 32767"
    "entries_fit utf8 entries" "distinct (map fst entries)"
    "mapToByteBuf lib (Some entries) = Inr tracing" "length tracing \<le> 32767"
  shows "deserializeTracingMetadata lib (Some extract)
      (frame_bytes (utf8 service) (utf8 method) tracing metadata) =
    Some (if entries = [] then Inr None
          else case extract (map_of entries) of None \<Rightarrow> Inl IllegalState | Some c \<Rightarrow> Inr (Some c))"
proof -
  note lib = assms(1)
  have small: "length (utf8 service) < 32768" "length (utf8 method) < 32768"
    using assms(2,3) by simp_all
  have "getTracing lib (frame_bytes (utf8 service) (utf8 method) tracing metadata) = Inr tracing"
    using assms(7) by (simp add: getTracing_frame [OF lib small] sint_short_small)
  moreover have "byteBufToMap lib tracing = Some (Inr entries)"
    using readEntries_bytes [OF lib assms(4), of "[]"] assms(5)
    by (simp add: map_buffer [OF lib assms(6)] byteBufToMap_def)
  ultimately show ?thesis
    by (simp add: deserializeTracingMetadata_def extract_context_def split: option.split)
qed

section \<open>Properties\<close>



text \<open>
  C22: Reading a tracing map ends on every buffer, malformed ones included: with the entries or
  with an exception.
\<close>

theorem tracing_map_ends:
  assumes "documented_netty lib utf8 decode"
  shows "\<exists>r. byteBufToMap lib byteBuf = Some r"
  unfolding byteBufToMap_def by (rule readEntries_ends [OF assms])

theorem tracing_map_ends_witness: "\<exists>r. byteBufToMap latin_netty [255, 255, 1] = Some r"
  by (rule tracing_map_ends [OF latin_netty_documented])

text \<open>
  The span context a server's tracer extracts from a request is the one for the map the
  client's tracer had injected: through \<open>mapToByteBuf\<close>, the frame and back; without entries, or
  without a tracer, there is no context.
\<close>

theorem tracing_context:
  assumes "documented_netty lib utf8 decode"
    "length (utf8 service) \<le> 32767" "length (utf8 method) \<le> 32767"
    "entries_fit utf8 entries" "distinct (map fst entries)"
    "mapToByteBuf lib (Some entries) = Inr tracing" "length tracing \<le> 32767"
    "encode lib service method tracing metadata = Inr frame"
  shows "deserializeTracingMetadata lib None frame = Some (Inr None)
    \<and> deserializeTracingMetadata lib (Some extract) frame =
      Some (if entries = [] then Inr None
            else case extract (map_of entries) of None \<Rightarrow> Inl IllegalState | Some c \<Rightarrow> Inr (Some c))"
  using deserialize_frame [OF assms(1-7), of "extract" "metadata"] assms(2,3,8)
  by (simp add: encode_frame [OF assms(1)] no_tracer split: if_splits)

theorem tracing_context_witness:
  "\<exists>tracing frame. mapToByteBuf latin_netty (Some [(''id'', ''7'')]) = Inr tracing
     \<and> encode latin_netty ''s'' ''m'' tracing [] = Inr frame
     \<and> deserializeTracingMetadata latin_netty (Some (\<lambda>m. m ''id'')) frame =
         Some (Inr (Some ''7''))"
proof -
  have entries: "mapToByteBuf latin_netty (Some [(''id'', ''7'')]) =
      Inr [0, 2, 105, 100, 0, 1, 55]"
    by code_simp
  have frame: "encode latin_netty ''s'' ''m'' [0, 2, 105, 100, 0, 1, 55] [] =
      Inr [0, 1, 0, 1, 115, 0, 1, 109, 0, 7, 0, 2, 105, 100, 0, 1, 55]"
    by code_simp
  have "deserializeTracingMetadata latin_netty (Some (\<lambda>m. m ''id''))
        [0, 1, 0, 1, 115, 0, 1, 109, 0, 7, 0, 2, 105, 100, 0, 1, 55] =
      Some (if [(''id'', ''7'')] = [] then Inr None
        else case map_of [(''id'', ''7'')] ''id'' of None \<Rightarrow> Inl IllegalState
          | Some c \<Rightarrow> Inr (Some c))"
    by (rule tracing_context [OF latin_netty_documented _ _ _ _ entries _ frame, THEN conjunct2])
       (simp_all add: entries_fit_def latin_bytes_def)
  with entries frame show ?thesis by simp
qed

end
