(* ===== verification/StreamSplitter.thy ===== *)
theory StreamSplitter
  imports KotlinRuntime
begin

text \<open>
  \<open>util/StreamSplitter.kt\<close>: the flow of a channel's requests, split into its first payload and
  the flow of the rest. A flow is the list of the signals it delivers; \<open>rest\<close> is the
  \<open>UnicastProcessor\<close> and keeps, in order, the signals it was given, which it delivers to its
  subscriber. Flows are RxJava's: \<open>doOnComplete\<close>, \<open>doOnError\<close>, \<open>map\<close> and \<open>filter\<close> act on each
  signal in the order they are chained.
\<close>

section \<open>Model\<close>

datatype 'p signal = OnNext 'p | OnComplete | OnError exception

fun terminal :: "'p signal \<Rightarrow> bool" where
  "terminal (OnNext _) = False"
| "terminal _ = True"

text \<open>\<open>Split\<close> with its head; its tail is always \<open>rest\<close>. \<open>noopSplit\<close> is told apart by identity.\<close>

datatype 'p splitting = Split (head: 'p) | noopSplit

record 'p splitter =
  first :: bool
  rest :: "'p signal list"

definition new_splitter :: "'p splitter" where
  "new_splitter = \<lparr>first = True, rest = []\<rparr>"

definition doOnComplete :: "'p signal \<Rightarrow> 'p splitter \<Rightarrow> 'p splitter" where
  "doOnComplete s st = (if s = OnComplete then st\<lparr>rest := rest st @ [OnComplete]\<rparr> else st)"

definition doOnError :: "'p signal \<Rightarrow> 'p splitter \<Rightarrow> 'p splitter" where
  "doOnError s st = (case s of OnError t \<Rightarrow> st\<lparr>rest := rest st @ [OnError t]\<rparr> | _ \<Rightarrow> st)"

definition map_split :: "'p signal \<Rightarrow> 'p splitter \<Rightarrow> 'p splitting signal \<times> 'p splitter" where
  "map_split s st =
     (case s of
        OnNext payload \<Rightarrow>
          if first st then (OnNext (Split payload), st\<lparr>first := False\<rparr>)
          else (OnNext noopSplit, st\<lparr>rest := rest st @ [OnNext payload]\<rparr>)
      | OnComplete \<Rightarrow> (OnComplete, st)
      | OnError t \<Rightarrow> (OnError t, st))"

definition filter_split :: "'p splitting signal \<Rightarrow> 'p splitting signal list" where
  "filter_split s = (case s of OnNext noopSplit \<Rightarrow> [] | _ \<Rightarrow> [s])"

text \<open>What one signal of the source delivers downstream.\<close>

definition split_signal :: "'p signal \<Rightarrow> 'p splitter \<Rightarrow> 'p splitting signal list \<times> 'p splitter" where
  "split_signal s st =
     (let (s', st) = map_split s (doOnError s (doOnComplete s st)) in (filter_split s', st))"

fun split_signals :: "'p signal list \<Rightarrow> 'p splitter \<Rightarrow> 'p splitting signal list \<times> 'p splitter" where
  "split_signals [] st = ([], st)"
| "split_signals (s # ss) st =
     (let (out, st) = split_signal s st; (outs, st) = split_signals ss st in (out @ outs, st))"

definition split :: "'p signal list \<Rightarrow> 'p splitting signal list \<times> 'p splitter" where
  "split source = split_signals source new_splitter"

section \<open>Lemmas\<close>

lemma split_signal_simps [simp]:
  "split_signal (OnNext p) \<lparr>first = True, rest = r\<rparr> = ([OnNext (Split p)], \<lparr>first = False, rest = r\<rparr>)"
  "split_signal (OnNext p) \<lparr>first = False, rest = r\<rparr> = ([], \<lparr>first = False, rest = r @ [OnNext p]\<rparr>)"
  "split_signal OnComplete st = ([OnComplete], st\<lparr>rest := rest st @ [OnComplete]\<rparr>)"
  "split_signal (OnError t) st = ([OnError t], st\<lparr>rest := rest st @ [OnError t]\<rparr>)"
  by (simp_all add: split_signal_def map_split_def doOnComplete_def doOnError_def filter_split_def)

text \<open>After the first payload: terminal signals go on, and every signal goes to the rest.\<close>

lemma split_signals_rest:
  "split_signals ss \<lparr>first = False, rest = r\<rparr> =
     (map (map_signal (\<lambda>_. noopSplit)) (filter terminal ss), \<lparr>first = False, rest = r @ ss\<rparr>)"
proof (induction ss arbitrary: r)
  case (Cons s ss)
  then show ?case by (cases s) simp_all
qed simp

section \<open>Properties\<close>

text \<open>
  Splitting loses and reorders nothing: of a source that delivers a payload and then any
  signals, the first payload becomes the head of the only split delivered, the rest delivers
  exactly the remaining signals in their order, and a terminal signal reaches both.
\<close>

theorem split_first_and_rest:
  "split (OnNext p # ss) =
    (OnNext (Split p) # map (map_signal (\<lambda>_. noopSplit)) (filter terminal ss),
     \<lparr>first = False, rest = ss\<rparr>)"
  by (simp add: split_def new_splitter_def split_signals_rest)

end
