(* ===== verification/RequestHandling.thy ===== *)
theory RequestHandling
  imports Frames StreamSplitter
begin

text \<open>
  \<open>rsocket/RequestHandlingRSocket.kt\<close>: the responder of a connection. It reads the service's
  name from a request's metadata and hands the request to the service registered under it.
  Each function returns its flow and how often it released the payload. The services are
  parameters (\<open>RSocketRpcService.kt\<close>): each of their functions returns a flow or throws.
\<close>

section \<open>Model\<close>

record payload =
  data_of :: buf
  metadata_of :: "buf result"

text \<open>A flow: what a service returned, or one that fails with an exception (\<open>Single.error(t)\<close>).\<close>

datatype 'f flow = Fails exception | Runs 'f

record 'f rpc_service =
  service_name :: string
  on_fireAndForget :: "payload \<Rightarrow> 'f flow result"
  on_requestResponse :: "payload \<Rightarrow> 'f flow result"
  on_requestStream :: "payload \<Rightarrow> 'f flow result"
  on_requestChannel :: "payload \<Rightarrow> payload signal list \<Rightarrow> 'f flow result"

type_synonym 'f registry = "string \<Rightarrow> 'f rpc_service option"

definition addService :: "'f registry \<Rightarrow> 'f rpc_service \<Rightarrow> 'f registry" where
  "addService registeredServices rSocketRpcService =
     registeredServices(service_name rSocketRpcService \<mapsto> rSocketRpcService)"

definition RequestHandlingRSocket :: "'f rpc_service list \<Rightarrow> 'f registry" where
  "RequestHandlingRSocket services =
     foldl (\<lambda>registeredServices s. registeredServices(service_name s \<mapsto> s)) Map.empty services"

text \<open>The \<open>catch\<close> of every function: release the payload, return a flow that fails.\<close>

definition catching :: "('f flow \<times> nat) result \<Rightarrow> 'f flow \<times> nat" where
  "catching r = (case r of Inl t \<Rightarrow> (Fails t, 1) | Inr x \<Rightarrow> x)"

definition handle_fireAndForget :: "netty \<Rightarrow> 'f registry \<Rightarrow> payload \<Rightarrow> 'f flow \<times> nat" where
  "handle_fireAndForget lib registeredServices payload =
     catching (res_bind (metadata_of payload) (\<lambda>metadata.
       res_bind (getService lib metadata) (\<lambda>service.
         case registeredServices service of
           None \<Rightarrow> Inr (Fails (ServiceNotFound service), 1)
         | Some rSocketRpcService \<Rightarrow>
             res_bind (on_fireAndForget rSocketRpcService payload) (\<lambda>flow. Inr (flow, 0)))))"

definition handle_requestResponse :: "netty \<Rightarrow> 'f registry \<Rightarrow> payload \<Rightarrow> 'f flow \<times> nat" where
  "handle_requestResponse lib registeredServices payload =
     catching (res_bind (metadata_of payload) (\<lambda>metadata.
       res_bind (getService lib metadata) (\<lambda>service.
         case registeredServices service of
           None \<Rightarrow> Inr (Fails (ServiceNotFound service), 1)
         | Some rSocketRpcService \<Rightarrow>
             res_bind (on_requestResponse rSocketRpcService payload) (\<lambda>flow. Inr (flow, 0)))))"

definition handle_requestStream :: "netty \<Rightarrow> 'f registry \<Rightarrow> payload \<Rightarrow> 'f flow \<times> nat" where
  "handle_requestStream lib registeredServices payload =
     catching (res_bind (metadata_of payload) (\<lambda>metadata.
       res_bind (getService lib metadata) (\<lambda>service.
         case registeredServices service of
           None \<Rightarrow> Inr (Fails (ServiceNotFound service), 1)
         | Some rSocketRpcService \<Rightarrow>
             res_bind (on_requestStream rSocketRpcService payload) (\<lambda>flow. Inr (flow, 0)))))"

text \<open>The function \<open>requestChannel\<close> maps a split to, given its head and its tail.\<close>

definition handle_split :: "netty \<Rightarrow> 'f registry \<Rightarrow> payload \<Rightarrow> payload signal list \<Rightarrow> 'f flow \<times> nat" where
  "handle_split lib registeredServices payload flow =
     catching (res_bind (metadata_of payload) (\<lambda>metadata.
       res_bind (getService lib metadata) (\<lambda>service.
         case registeredServices service of
           None \<Rightarrow> Inr (Fails (ServiceNotFound service), 1)
         | Some rSocketRpcService \<Rightarrow>
             res_bind (on_requestChannel rSocketRpcService payload flow) (\<lambda>flow. Inr (flow, 0)))))"

text \<open>
  \<open>flatMap\<close>: one flow per split, merged, and the terminal signal of the splits. The tail is the
  processor, which delivers what the whole source gives it.
\<close>

definition handle_requestChannel ::
    "netty \<Rightarrow> 'f registry \<Rightarrow> payload signal list \<Rightarrow> ('f flow \<times> nat) signal list" where
  "handle_requestChannel lib registeredServices payloads =
     (let (splits, st) = split payloads
      in map (map_signal (\<lambda>s. handle_split lib registeredServices (head s) (rest st))) splits)"

text \<open>\<open>AbstractRSocketService.kt\<close>: the default of \<open>requestChannel\<close>.\<close>

definition default_requestChannel :: "payload \<Rightarrow> payload signal list \<Rightarrow> 'f flow result" where
  "default_requestChannel payload publisher = Inr (Fails UnsupportedOperation)"

section \<open>Specification\<close>

text \<open>
  What the responder promises for a function \<open>f\<close> of the services: the service that was last
  registered under the request's service name answers and becomes the owner of the payload;
  otherwise the payload is released once and the flow fails.
\<close>

definition answers :: "netty \<Rightarrow> 'f registry \<Rightarrow> ('f rpc_service \<Rightarrow> 'f flow result) \<Rightarrow> payload
    \<Rightarrow> 'f flow \<times> nat" where
  "answers lib services f payload =
     (case res_bind (metadata_of payload) (getService lib) of
        Inl t \<Rightarrow> (Fails t, 1)
      | Inr name \<Rightarrow>
          (case services name of
             None \<Rightarrow> (Fails (ServiceNotFound name), 1)
           | Some s \<Rightarrow> (case f s of Inl t \<Rightarrow> (Fails t, 1) | Inr flow \<Rightarrow> (flow, 0))))"

lemmas handlers = handle_fireAndForget_def handle_requestResponse_def handle_requestStream_def
  handle_split_def

lemma handlers_answer:
  "handle_fireAndForget lib reg p = answers lib reg (\<lambda>s. on_fireAndForget s p) p"
  "handle_requestResponse lib reg p = answers lib reg (\<lambda>s. on_requestResponse s p) p"
  "handle_requestStream lib reg p = answers lib reg (\<lambda>s. on_requestStream s p) p"
  "handle_split lib reg p flow = answers lib reg (\<lambda>s. on_requestChannel s p flow) p"
  by (simp_all add: handlers answers_def catching_def res_bind_def split: sum.split option.split)

lemma registry_last:
  "RequestHandlingRSocket services name = List.find (\<lambda>s. service_name s = name) (rev services)"
  by (induction services rule: rev_induct) (simp_all add: RequestHandlingRSocket_def)

lemma answers_registered:
  "answers lib (RequestHandlingRSocket services) f p =
     answers lib (\<lambda>name. List.find (\<lambda>s. service_name s = name) (rev services)) f p"
  unfolding answers_def registry_last ..

lemma released: "snd (answers lib services f p) = 1 \<or> snd (answers lib services f p) = 0"
  by (simp add: answers_def split: sum.split option.split)

lemma released_iff:
  "snd (answers lib services f p) = 1 \<longleftrightarrow>
     \<not> (\<exists>name s flow. res_bind (metadata_of p) (getService lib) = Inr name
         \<and> services name = Some s \<and> f s = Inr flow)"
  by (simp add: answers_def split: sum.split option.split)

section \<open>Properties\<close>

text \<open>
  C20: Whatever services a responder is given, each of its functions hands a request to the same
  function of the service that was given last under the name in the request's metadata; with
  unreadable metadata or an unknown name it releases the payload and returns a flow that fails
  with the exception. A service added later counts as given last.
\<close>

theorem requests_answered:
  "let reg = RequestHandlingRSocket services;
       last_named = (\<lambda>name. List.find (\<lambda>s. service_name s = name) (rev services))
   in handle_fireAndForget lib reg p = answers lib last_named (\<lambda>s. on_fireAndForget s p) p
      \<and> handle_requestResponse lib reg p = answers lib last_named (\<lambda>s. on_requestResponse s p) p
      \<and> handle_requestStream lib reg p = answers lib last_named (\<lambda>s. on_requestStream s p) p
      \<and> handle_split lib reg p flow = answers lib last_named (\<lambda>s. on_requestChannel s p flow) p
      \<and> addService reg new = RequestHandlingRSocket (services @ [new])"
  by (simp add: Let_def handlers_answer answers_registered addService_def)
     (simp add: RequestHandlingRSocket_def)

text \<open>
  C10: A payload has one owner: the responder releases it once when no function of a service
  returned a flow for it - the flow then fails - and leaves it to the service otherwise.
\<close>

theorem request_released_once:
  "list_all (\<lambda>(result, call).
      snd result = (if \<exists>name s flow. res_bind (metadata_of p) (getService lib) = Inr name
                         \<and> reg name = Some s \<and> call s = Inr flow then 0 else 1)
      \<and> (snd result = 0 \<or> (\<exists>t. fst result = Fails t)))
    [(handle_fireAndForget lib reg p, \<lambda>s. on_fireAndForget s p),
     (handle_requestResponse lib reg p, \<lambda>s. on_requestResponse s p),
     (handle_requestStream lib reg p, \<lambda>s. on_requestStream s p),
     (handle_split lib reg p flow, \<lambda>s. on_requestChannel s p flow)]"
proof -
  have "snd (answers lib reg f p) = (if \<exists>name s flow. res_bind (metadata_of p) (getService lib) =
        Inr name \<and> reg name = Some s \<and> f s = Inr flow then 0 else 1)" for f
    using released_iff [of lib reg f p] released [of lib reg f p] by auto
  moreover have "snd (answers lib reg f p) = 0 \<or> (\<exists>t. fst (answers lib reg f p) = Fails t)" for f
    by (simp add: answers_def split: sum.split option.split)
  ultimately show ?thesis by (simp add: handlers_answer)
qed

text \<open>
  C24: On a channel the first payload decides: it is looked up and handed to the service with
  the flow of all the signals that follow it, once; the channel's own flow then ends as the
  requests do. Without a first payload no service is asked.
\<close>

theorem channel_answered:
  "handle_requestChannel lib reg (OnNext p # signals) =
     OnNext (answers lib reg (\<lambda>s. on_requestChannel s p signals) p)
       # map (map_signal (\<lambda>_. answers lib reg (\<lambda>s. on_requestChannel s p signals) p))
           (filter terminal signals)
   \<and> handle_requestChannel lib reg [OnComplete] = [OnComplete]
   \<and> handle_requestChannel lib reg [OnError t] = [OnError t]"
proof -
  have ends: "map (map_signal f) (map (map_signal g) (filter terminal signals)) =
      map (map_signal h) (filter terminal signals)" for f g h
    by (auto elim: terminal.elims)
  have start: "split (OnNext p # signals) =
      (OnNext (Split p) # map (map_signal (\<lambda>_. noopSplit)) (filter terminal signals),
       \<lparr>first = False, rest = signals\<rparr>)"
    by (simp add: split_def new_splitter_def split_signals_rest)
  show ?thesis
    by (simp only: handle_requestChannel_def start) (simp add: handlers_answer split_def new_splitter_def ends del: map_map)
qed

end
