(* ===== verification/EndToEnd.thy ===== *)
theory EndToEnd
  imports Routing ServiceReading TracingMaps RequestHandling
begin

text \<open>
  The generated files and the runtime together: the frame a function of the generated client
  sends, the responder that looks the service up by it, and the arm of the generated server's
  handler. The files enter as the printer's calls of the generators, read as in \<open>CallReading\<close>
  and \<open>ServiceReading\<close>; frames, tracing maps and the responder are those of the runtime.
\<close>

section \<open>Model\<close>







section \<open>Lemmas\<close>









section \<open>From the client's call to the implementation's\<close>



end
