(* ===== verification/RpcServer.thy ===== *)
theory RpcServer
  imports EndToEnd
begin

text \<open>
  What a connection promises that has generated servers registered, for every request it may
  receive: the specification \<open>rpc_answer\<close>, without files, arms, constants or handlers, and that
  the generated files and the runtime refine it.
\<close>

section \<open>Specification\<close>



section \<open>Refinement\<close>








end
