(* ===== verification/FrameShape.thy ===== *)
theory FrameShape
  imports Frames
begin

text \<open>
  Which buffers the getters of \<open>frames/Metadata.kt\<close> read: a request's metadata may hold any
  bytes, and the names are read exactly from those that begin like a frame.
\<close>

section \<open>Reading is finding the bytes\<close>

lemma agrees_Inr: "agrees r spec \<Longrightarrow> r = Inr x \<longleftrightarrow> spec = Inr x"
  by (cases spec) (auto simp: agrees_def)

lemma part_iff:
  "part b (int n) k = Inr p \<longleftrightarrow>
     (\<exists>v rest. length v = n \<and> int (length p) = k \<and> b = v @ p @ rest)"
proof
  assume "part b (int n) k = Inr p"
  then have range: "0 \<le> k" "int n + k \<le> int (length b)" and p: "p = take (nat k) (drop n b)"
    by (auto simp: part_def split: if_splits)
  have "b = take n b @ p @ drop (nat k) (drop n b)"
    unfolding p by (simp only: append_take_drop_id)
  moreover have "length (take n b) = n" "int (length p) = k" using range by (simp_all add: p)
  ultimately show "\<exists>v rest. length v = n \<and> int (length p) = k \<and> b = v @ p @ rest" by blast
qed (auto intro: part_append)

lemma short_bytes_pair: "short_bytes (bytes_short hi lo) = [hi, lo]"
proof -
  have "ucast (drop_bit 8 (bytes_short hi lo)) = hi"
    by (rule bit_word_eqI) (auto simp: bytes_short_def bit_simps dest: bit_imp_le_length)
  moreover have "ucast (bytes_short hi lo) = lo"
    by (rule bit_word_eqI) (auto simp: bytes_short_def bit_simps dest: bit_imp_le_length)
  ultimately show ?thesis by (simp add: short_bytes_def)
qed

lemma short_at_iff:
  "short_at b (int n) = Inr w \<longleftrightarrow> (\<exists>v rest. length v = n \<and> b = v @ short_bytes w @ rest)"
proof
  assume "short_at b (int n) = Inr w"
  then obtain p where p: "part b (int n) 2 = Inr p" and w: "w = bytes_short (p ! 0) (p ! 1)"
    by (cases "part b (int n) 2") (auto simp: short_at_def)
  from p obtain v rest where v: "length v = n" "length p = 2" "b = v @ p @ rest"
    by (auto simp: part_iff)
  from v(2) obtain hi lo where "p = [hi, lo]"
    by (auto simp: numeral_2_eq_2 length_Suc_conv)
  with w have "p = short_bytes w" by (simp add: short_bytes_pair)
  with v show "\<exists>v rest. length v = n \<and> b = v @ short_bytes w @ rest" by blast
qed (auto intro: short_at_append)

lemma reads_iff:
  assumes "documented_netty lib utf8 decode"
  shows "getShort lib b (int n) = Inr w \<longleftrightarrow>
      (\<exists>v rest. length v = n \<and> b = v @ short_bytes w @ rest)"
    and "toUtf8 lib b (int n) k = Inr x \<longleftrightarrow>
      (\<exists>v p rest. length v = n \<and> int (length p) = k \<and> b = v @ p @ rest \<and> x = decode p)"
proof -
  from assms have "agrees (getShort lib b (int n)) (short_at b (int n))"
    "agrees (toUtf8 lib b (int n) k) (res_bind (part b (int n) k) (\<lambda>p. Inr (decode p)))"
    unfolding documented_netty_def by blast+
  note * = this [THEN agrees_Inr]
  show "getShort lib b (int n) = Inr w \<longleftrightarrow>
      (\<exists>v rest. length v = n \<and> b = v @ short_bytes w @ rest)"
    unfolding * short_at_iff ..
  have "res_bind (part b (int n) k) (\<lambda>p. Inr (decode p)) = Inr x \<longleftrightarrow>
      (\<exists>p. part b (int n) k = Inr p \<and> x = decode p)"
    by (cases "part b (int n) k") auto
  then show "toUtf8 lib b (int n) k = Inr x \<longleftrightarrow>
      (\<exists>v p rest. length v = n \<and> int (length p) = k \<and> b = v @ p @ rest \<and> x = decode p)"
    unfolding * by (simp add: part_iff) blast
qed

text \<open>The same, after a part of the buffer that is known.\<close>

lemma reads_after:
  assumes "documented_netty lib utf8 decode" "length a = n"
  shows "getShort lib (a @ t) (int n) = Inr w \<longleftrightarrow> (\<exists>rest. t = short_bytes w @ rest)"
    and "toUtf8 lib (a @ t) (int n) k = Inr x \<longleftrightarrow>
      (\<exists>p rest. int (length p) = k \<and> t = p @ rest \<and> x = decode p)"
proof -
  have cut: "a @ t = v @ r \<longleftrightarrow> v = a \<and> t = r" if "length v = n" for v r
    using that assms(2) by auto
  show "getShort lib (a @ t) (int n) = Inr w \<longleftrightarrow> (\<exists>rest. t = short_bytes w @ rest)"
    unfolding reads_iff(1) [OF assms(1)] using cut assms(2) by blast
  show "toUtf8 lib (a @ t) (int n) k = Inr x \<longleftrightarrow>
      (\<exists>p rest. int (length p) = k \<and> t = p @ rest \<and> x = decode p)"
    unfolding reads_iff(2) [OF assms(1)] using cut assms(2) by blast
qed

text \<open>A length read as a signed short is the one that was written.\<close>

lemma sint_length:
  "sint (w :: 16 word) = int n \<longleftrightarrow> n \<le> 32767 \<and> w = word_of_nat n"
proof
  assume *: "sint w = int n"
  moreover have "sint w < 2 ^ 15" using sint_less [of w] by simp
  moreover have "w = word_of_int (sint w)" by simp
  ultimately show "n \<le> 32767 \<and> w = word_of_nat n" by simp
qed (auto simp: sint_short_small)

lemma length_sint: "int n = sint (w :: 16 word) \<longleftrightarrow> n \<le> 32767 \<and> w = word_of_nat n"
  using sint_length by metis

section \<open>The names\<close>

lemma getService_iff:
  assumes "documented_netty lib utf8 decode"
  shows "getService lib b = Inr x \<longleftrightarrow>
    (\<exists>version s rest. length version = 2 \<and> length s \<le> 32767 \<and> x = decode s
       \<and> b = version @ short_bytes (word_of_nat (length s)) @ s @ rest)"
proof -
  have unfold: "getService lib b = Inr x \<longleftrightarrow>
      (\<exists>w. getShort lib b (int 2) = Inr w \<and> toUtf8 lib b (int 4) (sint w) = Inr x)"
    by (cases "getShort lib b 2") (simp_all add: getService_def)
  have after: "toUtf8 lib (version @ short_bytes w @ t) (int 4) (sint w) = Inr x \<longleftrightarrow>
      (\<exists>s rest. length s \<le> 32767 \<and> w = word_of_nat (length s) \<and> t = s @ rest \<and> x = decode s)"
    if "length version = 2" for version w t
  proof -
    have "length (version @ short_bytes w) = 4" using that by simp
    from reads_after(2) [OF assms this, of t "sint w" x] show ?thesis
      by (simp only: append_assoc length_sint conj_assoc)
  qed
  show ?thesis
  proof
    assume "getService lib b = Inr x"
    then obtain w v t where w: "length v = 2" "b = v @ short_bytes w @ t"
      "toUtf8 lib b (int 4) (sint w) = Inr x"
      unfolding unfold reads_iff(1) [OF assms] by blast
    then obtain s rest where "length s \<le> 32767" "w = word_of_nat (length s)" "t = s @ rest" "x = decode s"
      using after [OF w(1), of w t] by blast
    then show "\<exists>version s rest. length version = 2 \<and> length s \<le> 32767 \<and> x = decode s
        \<and> b = version @ short_bytes (word_of_nat (length s)) @ s @ rest"
      using w(1,2) by (intro exI [of _ v] exI [of _ s] exI [of _ rest]) simp
  next
    assume "\<exists>version s rest. length version = 2 \<and> length s \<le> 32767 \<and> x = decode s
        \<and> b = version @ short_bytes (word_of_nat (length s)) @ s @ rest"
    then obtain version s rest where *: "length version = 2" "length s \<le> 32767" "x = decode s"
      "b = version @ short_bytes (word_of_nat (length s)) @ s @ rest" by blast
    let ?w = "word_of_nat (length s) :: 16 word"
    have "getShort lib b (int 2) = Inr ?w" unfolding reads_iff(1) [OF assms] using *(1,4) by blast
    moreover have "toUtf8 lib b (int 4) (sint ?w) = Inr x"
      unfolding *(4) after [OF *(1)] using *(2,3) by blast
    ultimately show "getService lib b = Inr x" unfolding unfold by blast
  qed
qed

lemma getMethod_iff:
  assumes "documented_netty lib utf8 decode" "length version = 2" "length s \<le> 32767"
  shows "getMethod lib (version @ short_bytes (word_of_nat (length s)) @ s @ t) = Inr y \<longleftrightarrow>
    (\<exists>m rest. length m \<le> 32767 \<and> y = decode m
       \<and> t = short_bytes (word_of_nat (length m)) @ m @ rest)"
proof -
  let ?a = "version @ short_bytes (word_of_nat (length s)) @ s"
  have "getShort lib (?a @ t) (int 2) = Inr (word_of_nat (length s))"
    using reads_after(1) [OF assms(1,2), of "short_bytes (word_of_nat (length s)) @ s @ t"] by auto
  then have unfold: "getMethod lib (?a @ t) = Inr y \<longleftrightarrow>
      (\<exists>w. getShort lib (?a @ t) (int (4 + length s)) = Inr w \<and>
           toUtf8 lib (?a @ t) (int (6 + length s)) (sint w) = Inr y)"
    using assms(3)
    by (cases "getShort lib (?a @ t) (int (4 + length s))")
       (simp_all add: getMethod_def Let_def sint_short_small add.assoc)
  have short: "getShort lib (?a @ t) (int (4 + length s)) = Inr w \<longleftrightarrow> (\<exists>rest. t = short_bytes w @ rest)" for w
    using assms(2) by (intro reads_after(1) [OF assms(1)]) simp
  have after: "toUtf8 lib (?a @ short_bytes w @ u) (int (6 + length s)) (sint w) = Inr y \<longleftrightarrow>
      (\<exists>m rest. length m \<le> 32767 \<and> w = word_of_nat (length m) \<and> u = m @ rest \<and> y = decode m)"
    for w u
  proof -
    have "length (?a @ short_bytes w) = 6 + length s" using assms(2) by simp
    from reads_after(2) [OF assms(1) this, of u "sint w" y] show ?thesis
      by (simp only: append_assoc length_sint conj_assoc)
  qed
  have method_iff: "getMethod lib (?a @ t) = Inr y \<longleftrightarrow>
      (\<exists>w u. t = short_bytes w @ u \<and> toUtf8 lib (?a @ t) (int (6 + length s)) (sint w) = Inr y)"
    unfolding unfold short by blast
  have "getMethod lib (?a @ t) = Inr y \<longleftrightarrow>
    (\<exists>m rest. length m \<le> 32767 \<and> y = decode m
       \<and> t = short_bytes (word_of_nat (length m)) @ m @ rest)"
  proof
    assume "getMethod lib (?a @ t) = Inr y"
    then obtain w u where w: "t = short_bytes w @ u"
      "toUtf8 lib (?a @ short_bytes w @ u) (int (6 + length s)) (sint w) = Inr y"
      unfolding method_iff by blast
    then obtain m rest where "length m \<le> 32767" "w = word_of_nat (length m)" "u = m @ rest" "y = decode m"
      unfolding after by blast
    then show "\<exists>m rest. length m \<le> 32767 \<and> y = decode m
        \<and> t = short_bytes (word_of_nat (length m)) @ m @ rest"
      using w(1) by (intro exI [of _ m] exI [of _ rest]) simp
  next
    assume "\<exists>m rest. length m \<le> 32767 \<and> y = decode m
        \<and> t = short_bytes (word_of_nat (length m)) @ m @ rest"
    then obtain m rest where *: "length m \<le> 32767" "y = decode m"
      "t = short_bytes (word_of_nat (length m)) @ m @ rest" by blast
    have "toUtf8 lib (?a @ t) (int (6 + length s)) (sint (word_of_nat (length m) :: 16 word)) = Inr y"
      unfolding *(3) after using *(1,2) by blast
    then show "getMethod lib (?a @ t) = Inr y" unfolding method_iff using *(3) by blast
  qed
  then show ?thesis by (simp only: append_assoc)
qed

section \<open>Properties\<close>

text \<open>
  C6: Which requests a server can read. A service's and a method's name are read from exactly
  those buffers, whatever else they hold, that begin with two bytes of version, a length of up
  to 32767 with as many bytes, which are the service's name, and again a length of up to 32767
  with as many bytes, the method's name. On any other buffer one of the two fails.
\<close>

theorem names_readable:
  assumes "documented_netty lib utf8 decode"
  shows "getService lib b = Inr service \<and> getMethod lib b = Inr method \<longleftrightarrow>
    (\<exists>version s m rest. length version = 2 \<and> length s \<le> 32767 \<and> length m \<le> 32767
       \<and> service = decode s \<and> method = decode m
       \<and> b = version @ short_bytes (word_of_nat (length s)) @ s
              @ short_bytes (word_of_nat (length m)) @ m @ rest)"
proof
  assume *: "getService lib b = Inr service \<and> getMethod lib b = Inr method"
  then obtain version s t where s: "length version = 2" "length s \<le> 32767" "service = decode s"
    "b = version @ short_bytes (word_of_nat (length s)) @ s @ t"
    unfolding getService_iff [OF assms] by blast
  with * obtain m rest where "length m \<le> 32767" "method = decode m"
    "t = short_bytes (word_of_nat (length m)) @ m @ rest"
    using getMethod_iff [OF assms s(1,2)] by blast
  with s show "\<exists>version s m rest. length version = 2 \<and> length s \<le> 32767 \<and> length m \<le> 32767
       \<and> service = decode s \<and> method = decode m
       \<and> b = version @ short_bytes (word_of_nat (length s)) @ s
              @ short_bytes (word_of_nat (length m)) @ m @ rest"
    by blast
next
  assume "\<exists>version s m rest. length version = 2 \<and> length s \<le> 32767 \<and> length m \<le> 32767
       \<and> service = decode s \<and> method = decode m
       \<and> b = version @ short_bytes (word_of_nat (length s)) @ s
              @ short_bytes (word_of_nat (length m)) @ m @ rest"
  then show "getService lib b = Inr service \<and> getMethod lib b = Inr method"
    using getService_iff [OF assms] getMethod_iff [OF assms] by blast
qed

theorem names_readable_witness:
  "\<not> (getService latin_netty [0, 1, 255, 252, 7] = Inr ''a'' \<and>
      getMethod latin_netty [0, 1, 255, 252, 7] = Inr ''b'')"
proof -
  have "\<not> (\<exists>version s m rest. length version = 2 \<and> length s \<le> 32767 \<and> length m \<le> 32767
       \<and> ''a'' = latin_string s \<and> ''b'' = latin_string m
       \<and> [0, 1, 255, 252, 7] = version @ short_bytes (word_of_nat (length s)) @ s
              @ short_bytes (word_of_nat (length m)) @ m @ rest)"
  proof (rule notI, elim exE conjE)
    fix version s m rest :: buf
    assume "[0, 1, 255, 252, 7] = version @ short_bytes (word_of_nat (length s)) @ s
              @ short_bytes (word_of_nat (length m)) @ m @ rest"
      and "length version = 2" and "''a'' = latin_string s"
    from arg_cong [OF this(1), of length] arg_cong [OF this(3), of length] this(2)
    show False by (simp add: latin_string_def)
  qed
  then show ?thesis unfolding names_readable [OF latin_netty_documented] .
qed

end
