(* ===== verification/TraceSubscriber.thy ===== *)
theory TraceSubscriber
  imports KotlinRuntime
begin

text \<open>
  \<open>tracing/TraceSubscriber.kt\<close> and \<open>TraceOperator.kt\<close>, and the functions of \<open>Tracing.kt\<close> that
  apply the operator: a subscriber that sits between a flow and its subscriber and opens a span
  when it is created, which it finishes when the flow ends or is cancelled. Callbacks and
  cancellation may come from several threads; their steps interleave, and \<open>cleanup\<close> decides by
  one \<open>compareAndSet\<close> which of them finishes the spans. The tracer and the subscriber downstream
  are parameters: where activating a scope, logging or a callback may throw, both outcomes are
  steps; \<open>finish\<close> of a span is taken to return.
\<close>

section \<open>Creating the subscriber\<close>

record tag =
  key :: string
  value_of :: string

text \<open>\<open>ImmutableTag\<close>: an object that is a tag, or one of another class. \<open>String.hashCode\<close> is Java's.\<close>

definition String_hashCode :: "string \<Rightarrow> 32 word" where
  "String_hashCode s = foldl (\<lambda>h c. 31 * h + word_of_nat (of_char c)) 0 s"

definition ImmutableTag_equals :: "tag \<Rightarrow> tag option \<Rightarrow> bool" where
  "ImmutableTag_equals this other =
     (case other of None \<Rightarrow> False
      | Some t \<Rightarrow> if key this \<noteq> key t then False else if value_of this \<noteq> value_of t then False else True)"

definition ImmutableTag_hashCode :: "tag \<Rightarrow> 32 word" where
  "ImmutableTag_hashCode this =
     (let result = String_hashCode (key this) in 31 * result + String_hashCode (value_of this))"

definition ImmutableTag_toString :: "tag \<Rightarrow> string" where
  "ImmutableTag_toString this =
     ''ImmutableTag{'' @ ''key='' @ [CHR 0x27] @ key this @ [CHR 0x27] @ '', value='' @ [CHR 0x27]
       @ value_of this @ [CHR 0x27] @ ''}''"

lemma tag_equality:
  "ImmutableTag_equals s (Some t) \<longleftrightarrow> s = t"
  "ImmutableTag_equals s (Some t) \<Longrightarrow> ImmutableTag_hashCode s = ImmutableTag_hashCode t"
  by (auto simp: ImmutableTag_equals_def ImmutableTag_hashCode_def split: if_splits)

text \<open>A span, as it is asked for: its name, its parent (a context or an active span), its tags.\<close>

datatype ('c, 's) parent = ContextParent 'c | SpanParent 's

record ('c, 's) span_builder =
  span_name :: string
  parent_of :: "('c, 's) parent option"
  tags_of :: "(string \<times> string) list"

definition buildSpan :: "string \<Rightarrow> ('c, 's) span_builder" where
  "buildSpan name = \<lparr>span_name = name, parent_of = None, tags_of = []\<rparr>"

definition withTags :: "tag list \<Rightarrow> ('c, 's) span_builder \<Rightarrow> ('c, 's) span_builder" where
  "withTags tags builder =
     (if tags \<noteq> []
      then foldl (\<lambda>b tag. b\<lparr>tags_of := tags_of b @ [(key tag, value_of tag)]\<rparr>) builder tags
      else builder)"

text \<open>What the constructors set up: the span started, the root span, the map injected into.\<close>

record ('c, 's, 'm) traced =
  span :: "('c, 's) span_builder"
  rootSpan :: "'s option"
  injected :: "'m option"

definition TraceSubscriber_child :: "'m option \<Rightarrow> 'c \<Rightarrow> string \<Rightarrow> tag list \<Rightarrow> ('c, 's, 'm) traced" where
  "TraceSubscriber_child tracingMetadata spanContext name tags =
     \<lparr>span = withTags tags ((buildSpan name)\<lparr>parent_of := Some (ContextParent spanContext)\<rparr>),
      rootSpan = None, injected = tracingMetadata\<rparr>"

definition TraceSubscriber_root :: "'s option \<Rightarrow> 'm option \<Rightarrow> string \<Rightarrow> tag list \<Rightarrow> ('c, 's, 'm) traced" where
  "TraceSubscriber_root activeSpan tracingMetadata name tags =
     (let builder = withTags tags (buildSpan name)
      in \<lparr>span = (case activeSpan of None \<Rightarrow> builder | Some root \<Rightarrow> builder\<lparr>parent_of := Some (SpanParent root)\<rparr>),
          rootSpan = activeSpan, injected = tracingMetadata\<rparr>)"

definition TraceOperator_apply ::
    "'s option \<Rightarrow> 'm option \<Rightarrow> 'c option \<Rightarrow> string \<Rightarrow> tag list \<Rightarrow> ('c, 's, 'm) traced" where
  "TraceOperator_apply activeSpan tracingMetadata spanContext name tags =
     (case spanContext of
        Some c \<Rightarrow> TraceSubscriber_child tracingMetadata c name tags
      | None \<Rightarrow> TraceSubscriber_root activeSpan tracingMetadata name tags)"

text \<open>
  \<open>trace\<close> with a tracer (the client's) and \<open>traceAsChild\<close> with a tracer (the server's); without
  one both leave the flow as it is.
\<close>

definition trace_untraced :: "'m \<Rightarrow> 'flow \<Rightarrow> 'flow" where
  "trace_untraced m upstream = upstream"

definition traceAsChild_untraced :: "'c option \<Rightarrow> 'flow \<Rightarrow> 'flow" where
  "traceAsChild_untraced spanContext upstream = upstream"

definition trace :: "'s option \<Rightarrow> string \<Rightarrow> tag list \<Rightarrow> 'm \<Rightarrow> ('c, 's, 'm) traced" where
  "trace activeSpan name tags m = TraceOperator_apply activeSpan (Some m) None name tags"

definition traceAsChild :: "'s option \<Rightarrow> string \<Rightarrow> tag list \<Rightarrow> 'c option \<Rightarrow> ('c, 's, 'm) traced" where
  "traceAsChild activeSpan name tags spanContext =
     (case spanContext of
        None \<Rightarrow> TraceOperator_apply activeSpan None None name tags
      | Some c \<Rightarrow> TraceOperator_apply activeSpan None (Some c) name tags)"

lemma withTags_all:
  fixes builder :: "('c, 's) span_builder"
  shows "withTags tags builder =
     builder\<lparr>tags_of := tags_of builder @ map (\<lambda>t. (key t, value_of t)) tags\<rparr>"
proof -
  have "foldl (\<lambda>b tag. b\<lparr>tags_of := tags_of b @ [(key tag, value_of tag)]\<rparr>) b ts =
      b\<lparr>tags_of := tags_of b @ map (\<lambda>t. (key t, value_of t)) ts\<rparr>"
    for b :: "('c, 's) span_builder" and ts :: "tag list"
    by (induction ts arbitrary: b) simp_all
  then show ?thesis by (simp add: withTags_def)
qed

section \<open>Its state and its steps\<close>

datatype 't down_signal = DownSubscribe | DownNext 't | DownComplete | DownError

datatype up_call = UpRequest nat | UpCancel

text \<open>
  \<open>flag\<close> is the \<open>AtomicBoolean\<close>; \<open>at_cleanup\<close>, \<open>at_span\<close> and \<open>at_root\<close> count the threads that
  are about to \<open>compareAndSet\<close>, to finish the span and to finish the root span;
  \<open>downstream\<close> and \<open>upstream_calls\<close> record what was delivered and called.
\<close>

record 't subscriber =
  flag :: bool
  has_root :: bool
  upstream :: "nat option"
  downstream :: "'t down_signal list"
  upstream_calls :: "(nat \<times> up_call) list"
  at_cleanup :: nat
  at_span :: nat
  at_root :: nat
  spans_finished :: nat
  roots_finished :: nat

definition created :: "bool \<Rightarrow> 't subscriber" where
  "created root =
     \<lparr>flag = False, has_root = root, upstream = None, downstream = [], upstream_calls = [],
      at_cleanup = 0, at_span = 0, at_root = 0, spans_finished = 0, roots_finished = 0\<rparr>"

definition call_upstream :: "nat \<Rightarrow> up_call \<Rightarrow> 't subscriber \<Rightarrow> 't subscriber" where
  "call_upstream u c st = st\<lparr>upstream_calls := upstream_calls st @ [(u, c)]\<rparr>"

definition deliver :: "'t down_signal \<Rightarrow> 't subscriber \<Rightarrow> 't subscriber" where
  "deliver d st = st\<lparr>downstream := downstream st @ [d]\<rparr>"

definition enter_cleanup :: "'t subscriber \<Rightarrow> 't subscriber" where
  "enter_cleanup st = st\<lparr>at_cleanup := at_cleanup st + 1\<rparr>"

text \<open>
  The callbacks up to their \<open>finally\<close>. \<open>traced\<close>: activating the scope and logging succeed, so the
  rest of the \<open>use\<close> block runs; \<open>accepted\<close>: the first \<open>downstream.onSubscribe\<close> returns.
\<close>

definition onSubscribe :: "bool \<Rightarrow> bool \<Rightarrow> nat \<Rightarrow> 't subscriber \<Rightarrow> 't subscriber" where
  "onSubscribe accepted traced s st =
     (if upstream st \<noteq> None then call_upstream s UpCancel st
      else (let st = deliver DownSubscribe (st\<lparr>upstream := Some s\<rparr>)
            in if accepted \<and> traced then deliver DownSubscribe st else st))"

definition onNext :: "'t \<Rightarrow> 't subscriber \<Rightarrow> 't subscriber" where
  "onNext t st = deliver (DownNext t) st"

definition onError :: "'t subscriber \<Rightarrow> 't subscriber" where
  "onError st = enter_cleanup st"

definition onComplete :: "bool \<Rightarrow> 't subscriber \<Rightarrow> 't subscriber" where
  "onComplete traced st = enter_cleanup (if traced then deliver DownComplete st else st)"

text \<open>\<open>upstream!!\<close> throws while there is no subscription.\<close>

definition request :: "nat \<Rightarrow> 't subscriber \<Rightarrow> 't subscriber" where
  "request n st = (case upstream st of None \<Rightarrow> st | Some u \<Rightarrow> call_upstream u (UpRequest n) st)"

definition cancel :: "bool \<Rightarrow> 't subscriber \<Rightarrow> 't subscriber" where
  "cancel traced st =
     enter_cleanup (if traced
       then (case upstream st of None \<Rightarrow> st | Some u \<Rightarrow> call_upstream u UpCancel st) else st)"

text \<open>\<open>cleanup\<close>: the \<open>compareAndSet\<close>, and for the thread that set the flag the two \<open>finish\<close>.\<close>

definition compareAndSet :: "'t subscriber \<Rightarrow> 't subscriber" where
  "compareAndSet st =
     (if \<not> flag st then st\<lparr>flag := True, at_cleanup := at_cleanup st - 1, at_span := at_span st + 1\<rparr>
      else st\<lparr>at_cleanup := at_cleanup st - 1\<rparr>)"

definition finish_span :: "'t subscriber \<Rightarrow> 't subscriber" where
  "finish_span st =
     st\<lparr>spans_finished := spans_finished st + 1, at_span := at_span st - 1, at_root := at_root st + 1\<rparr>"

definition finish_root :: "'t subscriber \<Rightarrow> 't subscriber" where
  "finish_root st =
     st\<lparr>roots_finished := (if has_root st then roots_finished st + 1 else roots_finished st),
        at_root := at_root st - 1\<rparr>"

text \<open>The steps that the threads inside of \<open>cleanup\<close> take.\<close>

inductive cleanup_step :: "'t subscriber \<Rightarrow> 't subscriber \<Rightarrow> bool" where
  Swap: "at_cleanup st > 0 \<Longrightarrow> cleanup_step st (compareAndSet st)"
| Span: "at_span st > 0 \<Longrightarrow> cleanup_step st (finish_span st)"
| Root: "at_root st > 0 \<Longrightarrow> cleanup_step st (finish_root st)"

inductive step :: "'t subscriber \<Rightarrow> 't subscriber \<Rightarrow> bool" where
  Subscribe: "step st (onSubscribe accepted traced s st)"
| Next: "step st (onNext t st)"
| Error: "step st (onError st)"
| Complete: "step st (onComplete traced st)"
| Request: "step st (request n st)"
| Cancel: "step st (cancel traced st)"
| Cleanup: "cleanup_step st st' \<Longrightarrow> step st st'"

inductive reachable :: "bool \<Rightarrow> 't subscriber \<Rightarrow> bool" for root where
  Start: "reachable root (created root)"
| Step: "reachable root st \<Longrightarrow> step st st' \<Longrightarrow> reachable root st'"

inductive_cases cleanup_stepE [elim]: "cleanup_step st st'"
inductive_cases stepE [elim]: "step st st'"

inductive_simps cleanup_step_iff: "cleanup_step st st'"

lemmas callbacks = onSubscribe_def onNext_def onError_def onComplete_def request_def cancel_def
  deliver_def call_upstream_def enter_cleanup_def Let_def

lemmas cleanups = compareAndSet_def finish_span_def finish_root_def

section \<open>Invariants\<close>

text \<open>The thread that set the flag is the one that finishes the spans.\<close>

definition spans_inv :: "bool \<Rightarrow> 't subscriber \<Rightarrow> bool" where
  "spans_inv root st \<longleftrightarrow>
     has_root st = root \<and>
     spans_finished st + at_span st = (if flag st then 1 else 0) \<and>
     at_root st \<le> spans_finished st \<and>
     roots_finished st = (if root then spans_finished st - at_root st else 0)"

lemma spans_inv_created: "spans_inv root (created root)"
  by (simp add: spans_inv_def created_def)

lemma spans_inv_cleanup: "spans_inv root st \<Longrightarrow> cleanup_step st st' \<Longrightarrow> spans_inv root st'"
  by (auto simp: spans_inv_def cleanups split: if_splits)

lemma spans_inv_callbacks:
  assumes "spans_inv root st"
  shows "spans_inv root (onSubscribe accepted traced s st)" "spans_inv root (onNext t st)"
    "spans_inv root (onError st)" "spans_inv root (onComplete traced st)"
    "spans_inv root (request n st)" "spans_inv root (cancel traced st)"
  using assms by (auto simp: spans_inv_def callbacks split: option.split if_splits)

lemma spans_inv_step: "spans_inv root st \<Longrightarrow> step st st' \<Longrightarrow> spans_inv root st'"
  by (auto intro: spans_inv_callbacks spans_inv_cleanup)

lemma spans_inv_reachable: "reachable root st \<Longrightarrow> spans_inv root st"
  by (induction rule: reachable.induct) (auto intro: spans_inv_created spans_inv_step)

text \<open>Downstream is subscribed with the subscription, at most twice, and never fails.\<close>

definition down_inv :: "'t subscriber \<Rightarrow> bool" where
  "down_inv st \<longleftrightarrow>
     DownError \<notin> set (downstream st) \<and> count_list (downstream st) DownSubscribe \<le> 2 \<and>
     (upstream st = None \<longrightarrow> DownSubscribe \<notin> set (downstream st))"

lemma count_zero: "x \<notin> set xs \<Longrightarrow> count_list xs x = 0"
  by (induction xs) auto

lemma down_inv_callbacks:
  assumes "down_inv st"
  shows "down_inv (onSubscribe accepted traced s st)" "down_inv (onNext t st)"
    "down_inv (onError st)" "down_inv (onComplete traced st)"
    "down_inv (request n st)" "down_inv (cancel traced st)"
  using assms by (auto simp: down_inv_def callbacks count_zero split: option.split)

lemma down_inv_cleanup: "down_inv st \<Longrightarrow> cleanup_step st st' \<Longrightarrow> down_inv st'"
  by (erule cleanup_stepE) (auto simp: down_inv_def cleanups)

lemma down_inv_reachable: "reachable root st \<Longrightarrow> down_inv st"
proof (induction rule: reachable.induct)
  case Start
  show ?case by (simp add: down_inv_def created_def)
next
  case (Step st st')
  then show ?case by (auto intro: down_inv_callbacks down_inv_cleanup)
qed

section \<open>Finishing\<close>

definition quiet :: "'t subscriber \<Rightarrow> bool" where
  "quiet st \<longleftrightarrow> at_cleanup st = 0 \<and> at_span st = 0 \<and> at_root st = 0"

definition work :: "'t subscriber \<Rightarrow> nat" where
  "work st = 3 * at_cleanup st + 2 * at_span st + at_root st"

definition ended :: "'t subscriber \<Rightarrow> bool" where
  "ended st \<longleftrightarrow> flag st \<or> at_cleanup st > 0"

lemma quiet_iff: "quiet st \<longleftrightarrow> \<not> (\<exists>st'. cleanup_step st st')"
  by (auto simp: quiet_def cleanup_step_iff)

lemma cleanup_work: "cleanup_step st st' \<Longrightarrow> work st' < work st"
  by (erule cleanup_stepE) (auto simp: work_def cleanups)

lemma cleanup_ended: "cleanup_step st st' \<Longrightarrow> ended st \<Longrightarrow> ended st'"
  by (auto simp: ended_def cleanups)

interpretation cleaning: draining cleanup_step work
  by unfold_locales (rule cleanup_work)

lemma cleanup_run_keeps:
  "cleanup_step\<^sup>*\<^sup>* st st' \<Longrightarrow> spans_inv root st \<Longrightarrow> ended st \<Longrightarrow> spans_inv root st' \<and> ended st'"
  by (induction rule: rtranclp_induct) (auto intro: spans_inv_cleanup cleanup_ended)

lemma quiet_finished:
  "spans_inv root st \<Longrightarrow> ended st \<Longrightarrow> quiet st \<Longrightarrow>
    spans_finished st = 1 \<and> roots_finished st = (if root then 1 else 0)"
  by (auto simp: spans_inv_def ended_def quiet_def)

lemma sample_run: "reachable True (onError (onComplete True (created True)))"
  by (meson reachable.Start reachable.Step step.Complete step.Error)

section \<open>Properties\<close>



text \<open>
  C9: Once a flow has failed, completed or was cancelled, its spans get finished: the threads
  inside of \<open>cleanup\<close> need at most three steps each, and whenever all of them are through, by
  whatever interleaving, the span has been finished exactly once, and the root span exactly
  once if there is one.
\<close>

theorem trace_spans_finished:
  assumes "reachable root st" "st' \<in> {onError st, onComplete traced st, cancel traced st}"
  shows "(\<exists>final. cleanup_step\<^sup>*\<^sup>* st' final \<and> quiet final)
    \<and> (\<forall>n final. (cleanup_step ^^ n) st' final \<longrightarrow> n \<le> 3 * (at_cleanup st' + at_span st' + at_root st')
         \<and> (quiet final \<longrightarrow> spans_finished final = 1 \<and> roots_finished final = (if root then 1 else 0)))"
proof -
  have "spans_inv root st'"
    using assms(2) spans_inv_reachable [OF assms(1)] by (auto intro: spans_inv_callbacks)
  moreover have "ended st'" using assms(2) by (auto simp: ended_def callbacks)
  ultimately have "spans_inv root final \<and> ended final" if "(cleanup_step ^^ n) st' final" for n final
    using cleanup_run_keeps that by (metis relpowp_imp_rtranclp)
  moreover have "n \<le> 3 * (at_cleanup st' + at_span st' + at_root st')"
    if "(cleanup_step ^^ n) st' final" for n final
    using cleaning.run_bounded [OF that] by (simp add: work_def)
  ultimately show ?thesis using cleaning.run_ends [of st'] quiet_finished unfolding quiet_iff [symmetric] by blast
qed

theorem trace_spans_finished_witness:
  "let st' = cancel True (onError (onComplete True (created True)))
   in (\<exists>final. cleanup_step\<^sup>*\<^sup>* st' final \<and> quiet final)
    \<and> (\<forall>n final. (cleanup_step ^^ n) st' final \<longrightarrow> n \<le> 3 * (at_cleanup st' + at_span st' + at_root st')
         \<and> (quiet final \<longrightarrow> spans_finished final = 1 \<and> roots_finished final = (if True then 1 else 0)))"
  unfolding Let_def by (rule trace_spans_finished [OF sample_run, where traced = True]) simp

text \<open>
  C23: What the subscriber downstream is told: it is never told that the flow failed, whatever
  happens, and its \<open>onSubscribe\<close> is called twice for the one subscription accepted, when
  neither the tracer nor the subscriber throws, and never more often.
\<close>

theorem trace_downstream:
  assumes "reachable root st"
  shows "DownError \<notin> set (downstream st)
    \<and> count_list (downstream st) DownSubscribe \<le> 2
    \<and> (upstream st = None \<longrightarrow>
         count_list (downstream (onSubscribe True True s st)) DownSubscribe = 2)"
  using down_inv_reachable [OF assms] by (auto simp: down_inv_def callbacks count_zero)

theorem trace_downstream_witness:
  "let st = onError (onComplete True (created True))
   in DownError \<notin> set (downstream st) \<and> count_list (downstream st) DownSubscribe \<le> 2
    \<and> (upstream st = None \<longrightarrow>
         count_list (downstream (onSubscribe True True 7 st)) DownSubscribe = 2)"
  unfolding Let_def by (rule trace_downstream [OF sample_run])

text \<open>
  The span of a traced call has the name and all the tags it was given. On the server it is
  a child of the context that came with the request; on the client, and on the server without
  a context, it is a child of the active span, where there is one, which is then the root span
  that is finished with it. Only the client's span is injected into a map.
\<close>

theorem traced_span:
  "span (traceAsChild active name tags context) =
      \<lparr>span_name = name,
       parent_of = (case context of Some c \<Rightarrow> Some (ContextParent c)
                    | None \<Rightarrow> map_option SpanParent active),
       tags_of = map (\<lambda>t. (key t, value_of t)) tags\<rparr>
   \<and> rootSpan (traceAsChild active name tags context) =
       (case context of Some c \<Rightarrow> None | None \<Rightarrow> active)
   \<and> injected (traceAsChild active name tags context) = None
   \<and> trace active name tags m =
       (traceAsChild active name tags None)\<lparr>injected := Some m\<rparr>"
  by (simp add: traceAsChild_def trace_def TraceOperator_apply_def TraceSubscriber_child_def
      TraceSubscriber_root_def withTags_all buildSpan_def Let_def split: option.split)

end
