(* ===== verification/RuntimeClasses.thy ===== *)
theory RuntimeClasses
  imports InterfaceGen ClientGen ServerGen CallReading
begin

text \<open>
  The generated code and the runtime library it is compiled against: the classes of
  \<open>rsocket-rpc-core\<close>, the annotations of its package \<open>annotations\<close>, and the classes the text of a
  client and of a server refers to.
\<close>

section \<open>The annotations\<close>





section \<open>The classes of the runtime\<close>





section \<open>The variables a template refers to\<close>








section \<open>The two files\<close>















section \<open>What the generated code relies on\<close>










end
