(* ===== verification/BuildScript.thy ===== *)
theory BuildScript
  imports Samples Splitting "HOL-Library.Sublist"
begin

text \<open>
  The settings \<open>rsocket-rpc-protobuf/build.gradle\<close> gives the compiler and the linker of the plugin:
  the two helpers at its top and the closure applied to all binaries. What a compiler makes of
  its macros and arguments is a parameter.
\<close>

section \<open>Model\<close>

datatype tool_chain = Gcc | Clang | VisualCpp | OtherToolChain

text \<open>What the script reads: the operating system, the environment, its project's properties.\<close>

record build_host =
  osdetector_os :: string
  getenv :: "string \<Rightarrow> string option"
  version :: string
  vcProtobufInclude :: "string option"
  vcProtobufLibs :: "string option"

record binary =
  compiler_macros :: "string \<rightharpoonup> string"
  compiler_args :: "string list"
  linker_args :: "string list"
  printed :: "string list"

definition new_binary :: binary where
  "new_binary = \<lparr>compiler_macros = Map.empty, compiler_args = [], linker_args = [], printed = []\<rparr>"

lemma field_shorter:
  "dropWhile P s = c # r \<Longrightarrow> length (dropWhile Q r) < length s"
  using length_dropWhile_le [of Q r] length_dropWhile_le [of P s] by simp

text \<open>
  \<open>value.split(' +')\<close> of Java: the string itself if there is no space; otherwise the fields between
  runs of spaces, an empty first one included, without the empty fields at the end.
\<close>

function space_fields :: "string \<Rightarrow> string list" where
  "space_fields s = takeWhile (\<lambda>c. c \<noteq> CHR '' '') s #
     (case dropWhile (\<lambda>c. c \<noteq> CHR '' '') s of
        [] \<Rightarrow> []
      | _ # r \<Rightarrow> space_fields (dropWhile (\<lambda>c. c = CHR '' '') r))"
  by pat_completeness auto

termination
  by (relation "measure length") (auto intro: field_shorter)

declare space_fields.simps [simp del]

definition without_trailing :: "string list \<Rightarrow> string list" where
  "without_trailing fs = rev (dropWhile (\<lambda>f. f = []) (rev fs))"

definition java_split :: "string \<Rightarrow> string list" where
  "java_split s =
     (if CHR '' '' \<notin> set s then [s] else without_trailing (space_fields s))"

definition addEnvArgs :: "build_host \<Rightarrow> string \<Rightarrow> string list \<Rightarrow> string list" where
  "addEnvArgs host env argList =
     (case getenv host env of None \<Rightarrow> argList | Some value \<Rightarrow> argList @ java_split value)"

definition addLibraryIfNotLinked :: "build_host \<Rightarrow> string \<Rightarrow> string list \<Rightarrow> string list" where
  "addLibraryIfNotLinked host libName argList =
     (case getenv host ''LDFLAGS'' of
        None \<Rightarrow> argList @ [''-l'' @ libName]
      | Some ldflags \<Rightarrow>
          if list_ex (prefix (''lib'' @ libName @ ''.a'')) (suffixes ldflags) then argList
          else argList @ [''-l'' @ libName])"

definition gcc_binary :: "build_host \<Rightarrow> binary \<Rightarrow> binary" where
  "gcc_binary host b =
     (let b = b\<lparr>compiler_macros := (compiler_macros b)(''RSOCKET_RPC_VERSION'' \<mapsto> version host)\<rparr>;
          b = b\<lparr>compiler_args := compiler_args b @ [''--std=c++0x'']\<rparr>;
          b = b\<lparr>compiler_args := addEnvArgs host ''CXXFLAGS'' (compiler_args b)\<rparr>;
          b = b\<lparr>compiler_args := addEnvArgs host ''CPPFLAGS'' (compiler_args b)\<rparr>;
          b =
            (if osdetector_os host = ''osx'' then
               (let b = b\<lparr>compiler_args := compiler_args b @ [''-mmacosx-version-min=10.7'', ''-stdlib=libc++'']\<rparr>;
                    b = b\<lparr>linker_args := addLibraryIfNotLinked host ''protoc'' (linker_args b)\<rparr>
                in b\<lparr>linker_args := addLibraryIfNotLinked host ''protobuf'' (linker_args b)\<rparr>)
             else if osdetector_os host = ''windows'' then
               b\<lparr>linker_args := linker_args b
                   @ [''-static'', ''-lprotoc'', ''-lprotobuf'', ''-static-libgcc'', ''-static-libstdc++'', ''-s'']\<rparr>
             else
               b\<lparr>linker_args := linker_args b
                   @ [''-Wl,-Bstatic'', ''-lprotoc'', ''-lprotobuf'', ''-static-libgcc'', ''-static-libstdc++'',
                      ''-Wl,-Bdynamic'', ''-lpthread'', ''-s'']\<rparr>)
      in b\<lparr>linker_args := addEnvArgs host ''LDFLAGS'' (linker_args b)\<rparr>)"

definition visual_binary :: "build_host \<Rightarrow> binary \<Rightarrow> binary" where
  "visual_binary host b =
     (let b = b\<lparr>compiler_macros := (compiler_macros b)(''RSOCKET_RPC_VERSION'' \<mapsto> version host)\<rparr>;
          b = b\<lparr>compiler_args := compiler_args b @ [''/EHsc'', ''/MT'']\<rparr>;
          b = (case vcProtobufInclude host of
                 Some include \<Rightarrow> b\<lparr>compiler_args := compiler_args b @ [''/I'' @ include]\<rparr>
               | None \<Rightarrow> b\<lparr>printed := printed b
                   @ [''You may need to add a propertry, vcProtobufInclude, pointing to protobuf include'']\<rparr>);
          b = (case vcProtobufLibs host of
                 Some libs \<Rightarrow> b\<lparr>linker_args := linker_args b @ [''/LIBPATH:'' @ libs]\<rparr>
               | None \<Rightarrow> b\<lparr>printed := printed b
                   @ [''You may need to add a propertry, vcProtobufLibs, pointing to protobuf lib'']\<rparr>)
      in b\<lparr>linker_args := linker_args b @ [''libprotobuf.lib'', ''libprotoc.lib'']\<rparr>)"

definition binaries_all :: "build_host \<Rightarrow> tool_chain \<Rightarrow> binary \<Rightarrow> binary" where
  "binaries_all host toolChain b =
     (if toolChain = Gcc \<or> toolChain = Clang then gcc_binary host b
      else if toolChain = VisualCpp then visual_binary host b
      else b)"

section \<open>Arguments from the environment\<close>

lemma without_trailing_Cons:
  "without_trailing (f # fs) = (if without_trailing fs = [] \<and> f = [] then [] else f # without_trailing fs)"
  by (auto simp: without_trailing_def dropWhile_append dropWhile_eq_Nil_conv)

text \<open>
  A string that does not begin with a space has the fields of the generator's own \<open>Split\<close>,
  which keeps no empty ones.
\<close>

lemma fields_tokens:
  assumes "s = [] \<or> hd s \<noteq> CHR '' ''"
  shows "without_trailing (space_fields s) = tokens (\<lambda>c. c = CHR '' '') s"
  using assms
proof (induction s rule: space_fields.induct)
  case (1 s)
  let ?sep = "\<lambda>c. c = CHR '' ''"
  define t where "t = takeWhile (\<lambda>c. c \<noteq> CHR '' '') s"
  define u where "u = dropWhile (\<lambda>c. c \<noteq> CHR '' '') s"
  have fields: "space_fields s = t # (case u of [] \<Rightarrow> [] | _ # r \<Rightarrow> space_fields (dropWhile ?sep r))"
    by (simp only: space_fields.simps [of s] t_def u_def)
  have s: "s = t @ u" by (simp add: t_def u_def)
  have t: "\<forall>c\<in>set t. \<not> ?sep c" by (auto simp: t_def dest: set_takeWhileD)
  have u: "u = [] \<or> ?sep (hd u)" using hd_dropWhile [of "\<lambda>c. c \<noteq> CHR '' ''" s] by (auto simp: u_def)
  show ?case
  proof (cases "s = []")
    case True
    then show ?thesis by (simp add: space_fields.simps [of "[]"] without_trailing_def)
  next
    case False
    then have "t \<noteq> []" using "1.prems" by (cases s) (auto simp: t_def)
    then have tokens: "tokens ?sep s = t # tokens ?sep u" unfolding s by (rule tokens_token [OF t _ u])
    show ?thesis
    proof (cases u)
      case Nil
      with tokens \<open>t \<noteq> []\<close> show ?thesis by (simp add: fields without_trailing_def)
    next
      case (Cons d r)
      have "r = takeWhile ?sep r @ dropWhile ?sep r" by simp
      then have "tokens ?sep r = tokens ?sep (dropWhile ?sep r)"
        using tokens_seps [of "takeWhile ?sep r" ?sep "dropWhile ?sep r"]
        by (metis set_takeWhileD)
      moreover have "dropWhile ?sep r = [] \<or> hd (dropWhile ?sep r) \<noteq> CHR '' ''"
        using hd_dropWhile [of ?sep r] by auto
      then have "without_trailing (space_fields (dropWhile ?sep r)) = tokens ?sep (dropWhile ?sep r)"
        using "1.IH" Cons by (simp add: u_def)
      ultimately show ?thesis
        using tokens u Cons \<open>t \<noteq> []\<close> by (simp add: fields without_trailing_Cons)
    qed
  qed
qed

lemma java_split_Split:
  "java_split s =
     (if s = [] \<or> hd s = CHR '' '' \<and> Split s '' '' \<noteq> [] then [] # Split s '' '' else Split s '' '')"
proof (cases s)
  case Nil
  then show ?thesis by (simp add: java_split_def Split_tokens)
next
  case (Cons c cs)
  let ?sep = "\<lambda>c. c = CHR '' ''"
  have Split: "Split s '' '' = tokens ?sep s" by (simp add: Split_tokens)
  show ?thesis
  proof (cases "c = CHR '' ''")
    case True
    define r where "r = dropWhile ?sep cs"
    have "cs = takeWhile ?sep cs @ r" by (simp add: r_def)
    then have "tokens ?sep cs = tokens ?sep r"
      using tokens_seps [of "takeWhile ?sep cs" ?sep r] by (metis set_takeWhileD)
    moreover have "without_trailing (space_fields r) = tokens ?sep r"
      using hd_dropWhile [of ?sep cs] by (intro fields_tokens) (auto simp: r_def)
    moreover have "space_fields s = [] # space_fields r"
      using True Cons by (simp add: space_fields.simps [of "CHR '' '' # cs"] r_def)
    ultimately show ?thesis
      using True Cons Split by (simp add: java_split_def without_trailing_Cons)
  next
    case False
    then have "without_trailing (space_fields s) = tokens ?sep s"
      using Cons by (intro fields_tokens) simp
    moreover have "tokens ?sep s = [s]" if "CHR '' '' \<notin> set s"
      using tokens_token [of s ?sep "[]"] that Cons by auto
    ultimately show ?thesis using False Cons Split by (simp add: java_split_def)
  qed
qed

text \<open>
  A variable of the environment gives the compiler or the linker the words the generator's
  own \<open>Split\<close> finds in it - and one empty argument before them if the variable is empty, or
  begins with a space and holds a word.
\<close>

theorem environment_arguments:
  "addEnvArgs host env argList = argList @
     (case getenv host env of
        None \<Rightarrow> []
      | Some value \<Rightarrow>
          (if value = [] \<or> hd value = CHR '' '' \<and> Split value '' '' \<noteq> [] then [[]] else [])
          @ Split value '' '')"
  by (simp add: addEnvArgs_def java_split_Split split: option.split)

section \<open>Macros\<close>

text \<open>
  The arguments the script itself gives a compiler define no macro of the program. A documented
  compiler predefines, given only such arguments, of the program's macros those it was told.
\<close>

definition plain_argument :: "string \<Rightarrow> bool" where
  "plain_argument a \<longleftrightarrow>
     list_ex (\<lambda>p. prefix p a) [''--std='', ''-mmacosx-version-min='', ''-stdlib='', ''/EHsc'', ''/MT'', ''/I'']"

type_synonym compiler = "(string \<rightharpoonup> string) \<Rightarrow> string list \<Rightarrow> string \<rightharpoonup> string"

definition documented_compiler :: "compiler \<Rightarrow> bool" where
  "documented_compiler predefined \<longleftrightarrow>
     (\<forall>macros args. list_all plain_argument args \<longrightarrow>
        (\<forall>name\<in>{''rsocket_rpc_version'', ''RSOCKET_RPC_VERSION''}. predefined macros args name = macros name))"

text \<open>The macros the code of the plugin is compiled with.\<close>

definition compiled_env :: "compiler \<Rightarrow> binary \<Rightarrow> codegen_env \<Rightarrow> codegen_env" where
  "compiled_env predefined b env =
     env\<lparr>macro_rsocket_rpc_version := predefined (compiler_macros b) (compiler_args b) ''rsocket_rpc_version'',
         macro_RSOCKET_RPC_VERSION := predefined (compiler_macros b) (compiler_args b) ''RSOCKET_RPC_VERSION''\<rparr>"

lemma plain_arguments:
  "plain_argument ''--std=c++0x''" "plain_argument ''-mmacosx-version-min=10.7''"
  "plain_argument ''-stdlib=libc++''" "plain_argument ''/EHsc''" "plain_argument ''/MT''"
  "plain_argument (''/I'' @ include)"
  by (simp_all add: plain_argument_def)

lemma script_settings:
  assumes "toolChain \<noteq> OtherToolChain" "getenv host ''CXXFLAGS'' = None" "getenv host ''CPPFLAGS'' = None"
  shows "list_all plain_argument (compiler_args (binaries_all host toolChain new_binary))"
    "compiler_macros (binaries_all host toolChain new_binary) = [''RSOCKET_RPC_VERSION'' \<mapsto> version host]"
  using assms plain_arguments
  by (cases toolChain; auto simp: binaries_all_def gcc_binary_def visual_binary_def new_binary_def
      addEnvArgs_def Let_def split: option.split)+

text \<open>
  C27: With each of the three tool chains, unless \<open>CXXFLAGS\<close> or \<open>CPPFLAGS\<close> say otherwise, the plugin
  is compiled with \<open>RSOCKET_RPC_VERSION\<close> defined as the project's version and the macro the code
  tests undefined: the setting \<open>gradle_build\<close>.
\<close>

theorem script_builds_gradle_build:
  assumes "documented_compiler predefined" "toolChain \<noteq> OtherToolChain"
    and "getenv host ''CXXFLAGS'' = None" "getenv host ''CPPFLAGS'' = None"
  shows "compiled_env predefined (binaries_all host toolChain new_binary) env = gradle_build (version host) env"
  using assms(1) script_settings [OF assms(2-4)]
  by (simp add: compiled_env_def gradle_build_def documented_compiler_def)

theorem script_builds_gradle_build_witness:
  "compiled_env (\<lambda>macros args. macros) (binaries_all
       \<lparr>osdetector_os = ''linux'', getenv = Map.empty, version = ''0.1.0'', vcProtobufInclude = None, vcProtobufLibs = None\<rparr>
       Clang new_binary) sample_env =
     gradle_build ''0.1.0'' sample_env"
proof -
  let ?host = "\<lparr>osdetector_os = ''linux'', getenv = Map.empty, version = ''0.1.0'',
    vcProtobufInclude = None, vcProtobufLibs = None\<rparr> :: build_host"
  have "documented_compiler (\<lambda>macros args. macros)" by (simp add: documented_compiler_def)
  from script_builds_gradle_build [OF this, of Clang ?host sample_env] show ?thesis by simp
qed

section \<open>Libraries\<close>

text \<open>
  The compiler library of protobuf precedes the library it needs, as static linking wants; on
  macOS each of the two is left out when \<open>LDFLAGS\<close> names its archive.
\<close>

lemma libraries_in_order:
  assumes "toolChain = Gcc \<or> toolChain = Clang" "osdetector_os host \<noteq> ''osx''"
  shows "\<exists>before after. linker_args (binaries_all host toolChain new_binary) =
    before @ [''-lprotoc'', ''-lprotobuf''] @ after"
proof -
  let ?env = "addEnvArgs host ''LDFLAGS'' []"
  have env: "addEnvArgs host ''LDFLAGS'' args = args @ ?env" for args
    by (simp add: addEnvArgs_def split: option.split)
  show ?thesis
  proof (cases "osdetector_os host = ''windows''")
    case True
    with assms have "linker_args (binaries_all host toolChain new_binary) =
        [''-static''] @ [''-lprotoc'', ''-lprotobuf''] @ [''-static-libgcc'', ''-static-libstdc++'', ''-s''] @ ?env"
      by (simp add: binaries_all_def gcc_binary_def new_binary_def env [of "_ # _"])
    then show ?thesis by blast
  next
    case False
    with assms have "linker_args (binaries_all host toolChain new_binary) =
        [''-Wl,-Bstatic''] @ [''-lprotoc'', ''-lprotobuf''] @ [''-static-libgcc'', ''-static-libstdc++'',
          ''-Wl,-Bdynamic'', ''-lpthread'', ''-s''] @ ?env"
      by (simp add: binaries_all_def gcc_binary_def new_binary_def env [of "_ # _"])
    then show ?thesis by blast
  qed
qed

lemma libraries_osx:
  assumes "toolChain = Gcc \<or> toolChain = Clang" "osdetector_os host = ''osx''"
    "getenv host ''LDFLAGS'' = Some ldflags"
  shows "linker_args (binaries_all host toolChain new_binary) =
    filter (\<lambda>l. \<not> sublist (''lib'' @ drop 2 l @ ''.a'') ldflags) [''-lprotoc'', ''-lprotobuf'']
      @ java_split ldflags"
proof -
  have "list_ex (prefix p) (suffixes s) \<longleftrightarrow> sublist p s" for p s :: string
    by (auto simp: list_ex_iff sublist_altdef')
  then show ?thesis using assms
    by (simp add: binaries_all_def gcc_binary_def new_binary_def addEnvArgs_def addLibraryIfNotLinked_def
        Let_def)
qed

end
