(* ===== verification/CheckMacros.thy ===== *)
theory CheckMacros
  imports Prelude
begin

text \<open>
  The logging macros of \<open>kotlin_generator.h\<close>: a failed check writes its place and message to the
  stream, ends the line and aborts. The generator itself has no check.
\<close>

section \<open>Model\<close>

text \<open>\<open>os\<close> is what the stream was given so far.\<close>

record LogHelper =
  os :: string

datatype 'a outcome = Continues 'a | Aborts 'a

definition new_LogHelper :: "string \<Rightarrow> LogHelper" where
  "new_LogHelper stream = \<lparr>os = stream\<rparr>"

definition get_os :: "LogHelper \<Rightarrow> string" where
  "get_os helper = os helper"

definition destroy_LogHelper :: "LogHelper \<Rightarrow> string outcome" where
  "destroy_LogHelper helper = Aborts (os helper @ [newline])"

text \<open>
  \<open>&&\<close> evaluates its right side only if the check failed; \<open>message\<close> is what the user of the macro
  writes after it, before the temporary is destroyed at the end of the statement.
\<close>

definition CODEGEN_CHECK :: "bool \<Rightarrow> string \<Rightarrow> string \<Rightarrow> string \<Rightarrow> string \<Rightarrow> string outcome" where
  "CODEGEN_CHECK x file line message cerr =
     (if \<not> x
      then (let helper = new_LogHelper cerr
            in destroy_LogHelper (helper\<lparr>os := get_os helper
                 @ ''CHECK FAILED: '' @ file @ '':'' @ line @ '': '' @ message\<rparr>))
      else Continues cerr)"

definition CODEGEN_FAIL :: "string \<Rightarrow> string \<Rightarrow> string \<Rightarrow> string \<Rightarrow> string outcome" where
  "CODEGEN_FAIL file line message cerr = CODEGEN_CHECK False file line message cerr"

section \<open>Lemmas\<close>

text \<open>A check that holds leaves no trace; a failed one writes one line, whatever came before.\<close>

lemma check_outcome:
  "CODEGEN_CHECK x file line message cerr =
     (if x then Continues cerr
      else Aborts (cerr @ ''CHECK FAILED: '' @ file @ '':'' @ line @ '': '' @ message @ [newline]))"
  by (simp add: CODEGEN_CHECK_def new_LogHelper_def get_os_def destroy_LogHelper_def)

lemma fail_aborts:
  "CODEGEN_FAIL file line message cerr =
     Aborts (cerr @ ''CHECK FAILED: '' @ file @ '':'' @ line @ '': '' @ message @ [newline])"
  by (simp add: CODEGEN_FAIL_def check_outcome)

end
