(* ===== verification/Spec2Isabelle.thy ===== *)
theory Spec2Isabelle
  imports Plugin Routing Signatures RpcServer FrameShape TraceSubscriber RuntimeClasses BuildScript CheckMacros
begin

text \<open>
  A verification development for rsocket-rpc-kotlin: the code generator, a protoc plugin in
  \<open>rsocket-rpc-protobuf/src/kotlin_plugin/cpp\<close> (\<open>kotlin_plugin.cpp\<close>, \<open>kotlin_generator.cpp\<close>,
  \<open>kotlin_generator.h\<close>, and the options message \<open>rsocket/options.pb.cc\<close>, \<open>rsocket/options.pb.h\<close>),
  and the runtime library the generated code calls, in
  \<open>rsocket-rpc-core/src/main/kotlin/io/rsocket/rpc/kotlin\<close>.

  The program. protoc calls \<open>KotlinRSocketRpcGenerator::Generate\<close> with a file descriptor. For
  each service the plugin opens three files and has \<open>GenerateInterface\<close>, \<open>GenerateClient\<close> and
  \<open>GenerateServer\<close> write into them: a Kotlin interface with one constant and one function per
  method, a client that implements the interface by RSocket requests, and a server that
  dispatches requests to an implementation of the interface. A method is served by one of
  four interactions, chosen from its streaming flags and the option \<open>fire_and_forget\<close>.

  At run time the generated client encodes the names of the service and the method, a tracing
  map and the caller's metadata into a frame (\<open>frames/Metadata.kt\<close>) and sends a request. The
  responder (\<open>rsocket/RequestHandlingRSocket.kt\<close>) reads the service's name from the frame and
  hands the request to the service registered under it, the generated server, which reads the
  method's name and calls the implementation. A channel's requests are first split
  (\<open>util/StreamSplitter.kt\<close>); flows are traced by a subscriber in their middle (\<open>tracing/\<close>).

  How the generator is modelled. The generator never reads what it writes: its functions store into a
  map of variables and call \<open>Print\<close>, \<open>Indent\<close> and \<open>Outdent\<close> of a protobuf \<open>io::Printer\<close>. Each
  function is therefore a list of \<open>action\<close>s in program order, with every branch and loop of
  the code; \<open>calls\<close> replays the stores and yields the printer's calls. Everything that is not
  in the repository is a parameter: the printer (a function from its calls to a text, of
  which \<open>documented_printer\<close> states what its documentation promises), \<open>java::ClassName\<close>
  (fields of \<open>codegen_env\<close>), \<open>ParseGeneratorParameter\<close>, and the descriptors (records of the
  accessors the code calls). The preprocessor macros are fields of \<open>codegen_env\<close>;
  \<open>gradle_build\<close> is the setting of \<open>build.gradle\<close>, which \<open>BuildScript\<close> derives from the script.
  Sizes and indices of strings are natural
  numbers: no arithmetic of the code can wrap around for strings that fit into memory.

  How the runtime is modelled. Exceptions are the left values of a sum (\<open>exception\<close>, \<open>result\<close>).
  A buffer is the list of its readable bytes; Netty's operations are fields of a record, and
  \<open>documented_netty\<close> states what their documentation promises: reads outside of a buffer fail,
  what is returned by a write was appended, decoding undoes encoding. Lengths are written and
  read as 16-bit words (\<open>sint\<close> is the signed reading). A loop that need not end for a library
  that keeps no promise is a \<open>partial_function\<close> into \<open>option\<close>; that it ends is a property. Flows
  are lists of signals. The tracing subscriber is a state with one function per callback and a
  step relation in which callbacks and the steps of \<open>cleanup\<close>, one per access to shared state,
  interleave freely.

  The theories, from the bottom:
  \<^item> \<open>Prelude\<close>: characters, \<open>list_machine\<close> (the interface of all machines run over lists),
    \<open>draining\<close> (the interface of step relations that use up work).
  \<^item> \<open>MethodOptions\<close>: the options message: data, accessors, merging and copying over a store of
    objects, parsing, serialising and its size.
  \<^item> \<open>CheckMacros\<close>: the logging macros of \<open>kotlin_generator.h\<close>.
  \<^item> \<open>Descriptors\<close>, \<open>Samples\<close>: the input data; concrete input for instantiations.
  \<^item> \<open>Splitting\<close>: \<open>SplitStringToIteratorUsing\<close>, both loops, \<open>Split\<close>.
  \<^item> \<open>Names\<close>: method, constant, class, package and directory names.
  \<^item> \<open>KotlinLex\<close>: the specification side: a Kotlin lexer and \<open>kotlin_balanced\<close>.
  \<^item> \<open>PrinterCalls\<close>: actions, calls, template expansion (\<open>raw_text\<close>: the text without
    indentation), and three analyses of actions: \<open>all_defined\<close> (no template uses an unknown
    variable), \<open>depth\<close> (indentation) and \<open>alex\<close> (the lexer over templates with open values),
    with their soundness for the calls.
  \<^item> \<open>DocComments\<close>: escaping, lines and printing of comments.
  \<^item> \<open>GeneratorCommon\<close>: what the three generators share, and the interface \<open>file_generator\<close>:
    defined templates and a lexer that comes back, from which the plugin's properties follow.
    It is interpreted on each of the three generators. \<open>indenting_printer\<close> is an instance of the
    documented printer, which indents as protobuf's does.
  \<^item> \<open>InterfaceGen\<close>, \<open>ClientGen\<close>, \<open>ServerGen\<close>: \<open>PrintInterface\<close>, \<open>PrintClient\<close>, \<open>PrintServer\<close>, one
    definition per stretch of the code, and \<open>GenerateInterface\<close> and so on.
  \<^item> \<open>Plugin\<close>: options, file names and contents, and \<open>main\<close>.
  \<^item> \<open>BuildScript\<close>: the compiler's and the linker's settings in \<open>build.gradle\<close>.
  \<^item> \<open>CallReading\<close>, \<open>InterfaceReading\<close>, \<open>ClientReading\<close>, \<open>ServerReading\<close>, \<open>Routing\<close>: what the three
    files say to each other, read out of the printer's calls, and that a call of the client
    arrives at the implementation.
  \<^item> \<open>Signatures\<close>: the client overrides what the interface declares, also for methods named like
    keywords.
  \<^item> \<open>RuntimeClasses\<close>: the annotations of the runtime, and the runtime's classes the generated
    text refers to.
  \<^item> \<open>ServiceReading\<close>: the service's own constant, in the three files.
  \<^item> \<open>KotlinRuntime\<close>: exceptions, buffers, the documented library and its laws.
  \<^item> \<open>Frames\<close>: \<open>Metadata.encode\<close> and its five getters, over the layout \<open>frame_bytes\<close>;
    \<open>FrameShape\<close>: from which buffers names can be read at all.
  \<^item> \<open>TracingMaps\<close>: the tracing map in a frame, written and read (\<open>Tracing.kt\<close>).
  \<^item> \<open>StreamSplitter\<close>, \<open>RequestHandling\<close>: \<open>StreamSplitter.split\<close>; the registry and the four
    request functions, with the specification \<open>answers\<close> they refine.
  \<^item> \<open>TraceSubscriber\<close>: the subscriber, the operator that creates it, and its tags.
  \<^item> \<open>EndToEnd\<close>: the generated files and the runtime composed, for a request of the client;
    \<open>RpcServer\<close>: for any request, against the specification \<open>rpc_answer\<close>.

  What is shown. Every file the plugin writes is balanced Kotlin whatever the comments hold,
  and no template lacks a variable; doc comments are escaped without loss and always closed;
  client, interface and server agree on signatures, constants, interactions and dispatch; the
  two splitting loops agree with each other and with a reference; the names are what the
  code's comments say. Where the code falls short the properties say so exactly: when the
  server outdents below the margin, how far the client's indentation drifts, that neither
  \<open>noversion\<close> nor the version has an effect in the Gradle build, which method names collide,
  when two files of one run have the same name, and that keywords are not told from names. The
  text refers only to runtime classes that exist. Of the runtime: frames and tracing maps
  read back what was written, up to the exact lengths from which they do not; the responder is
  its specification and gives every payload one owner; spans are finished exactly once in
  every interleaving; splitting loses nothing; a call of the generated client, through
  frame, responder and dispatch, is a call of the implementation; and whatever request arrives,
  readable or not, generated servers behind a responder answer it as the specification of an
  RPC server says. Where it falls short: the
  signed lengths, the unchecked length of the tracing metadata, and a tracing subscriber that
  subscribes twice and keeps failures from its downstream.

  Assumptions. \<open>clean_env\<close> and \<open>clean_service\<close> say that names are names (no brackets, quotes,
  slashes and so on, as protoc guarantees); comments are unrestricted. \<open>reads_back\<close>, \<open>consumes\<close>,
  \<open>sizes_agree\<close> and \<open>arrays_agree\<close> state the documentation of protobuf's wire library,
  \<open>documented_netty\<close> that of Netty, \<open>documented_compiler\<close> that of the compilers; each has an
  instance in the development. Termination: the
  functions of the generator are total and the loops of \<open>Splitting\<close> and \<open>unescape\<close> carry their
  measures; no fuel is used. Kotlin's \<open>Int\<close> is its value where no sum leaves 32 bits.

  Not modelled: which layout a printer adds (the properties hold for every printer that adds
  spaces at the beginning of lines only), protobuf's reflection and the registration of the
  options' descriptor, the retention and the targets of the annotations, what the build scripts
  declare for Gradle, the example and the tests, which hold no logic of the library, and how
  often a flow is subscribed: one subscription of each flow is modelled.
\<close>

end
